(* ===== verification/GoPrelude.thy ===== *)
theory GoPrelude
  imports Main "HOL-Library.AList" "HOL-Library.Multiset" "HOL-Library.State_Monad" "HOL-Library.Monad_Syntax"
begin

section \<open>Shared vocabulary: errors, results, maps, effects\<close>

text \<open>
  What every component of the model uses:
  \<^item> \<open>gerror\<close>, the errors the code creates or passes on, and \<open>'a outcome\<close>, what a Go call
    with results \<open>(T, error)\<close> can do: return a value, return an error, or panic;
  \<^item> \<open>smap\<close>, a \<open>map[string]string\<close> as an association list with distinct keys, and
    \<open>nmap\<close>, the same with the nil map kept apart;
  \<^item> \<open>('e, 'a) io\<close>, code with effects: a state transformer over the history of the calls
    that the code has made to the outside, every call appended with its reply;
  \<^item> \<open>wp\<close>, the weakest precondition of such code, whose equations are simplification rules,
    and \<open>emits P\<close>, the fact that code only extends the history, by events that satisfy \<open>P\<close>.
\<close>

named_theorems wp_simps \<open>weakest-precondition equations of the effectful operations\<close>
named_theorems emits_intros \<open>which events an operation may append to the history\<close>
named_theorems smap_simps \<open>equations of the map operations\<close>


subsection \<open>Errors and outcomes\<close>

text \<open>The gRPC status codes that the sources name.\<close>

datatype grpc_code =
    InvalidArgument | NotFound | AlreadyExists | PermissionDenied | ResourceExhausted
  | Unimplemented | Internal | Unavailable | Unauthenticated | Unknown

fun code_name :: "grpc_code \<Rightarrow> string" where
  "code_name InvalidArgument = ''InvalidArgument''"
| "code_name NotFound = ''NotFound''"
| "code_name AlreadyExists = ''AlreadyExists''"
| "code_name PermissionDenied = ''PermissionDenied''"
| "code_name ResourceExhausted = ''ResourceExhausted''"
| "code_name Unimplemented = ''Unimplemented''"
| "code_name Internal = ''Internal''"
| "code_name Unavailable = ''Unavailable''"
| "code_name Unauthenticated = ''Unauthenticated''"
| "code_name Unknown = ''Unknown''"

text \<open>The system error numbers that the code tells apart; every other one is \<open>OtherErrno\<close>.\<close>

datatype errno = ENOENT | ENOTCONN | ESTALE | OtherErrno nat

text \<open>
  Errors: \<open>Plain\<close> for \<open>errors.New\<close> and \<open>fmt.Errorf\<close>, \<open>Status\<close> for
  \<open>status.Error\<close>, \<open>AwsErr code msg\<close> for the \<open>awserr.Error\<close> of the COS SDK,
  \<open>SmithyErr code msg\<close> for an error that implements \<open>smithy.APIError\<close>,
  \<open>PathErr\<close>, \<open>LinkErr\<close> and \<open>SyscallErr\<close> for the error types of package os,
  \<open>CtxErr\<close> for the error of a cancelled context.
\<close>

datatype gerror =
    Plain string
  | Status grpc_code string
  | AwsErr string string
  | SmithyErr string string
  | PathErr errno string
  | LinkErr errno string
  | SyscallErr errno string
  | CtxErr string

text \<open>
  \<open>fmt.Sprintf\<close> and string concatenation in messages: the pieces in order. It is a constant of
  its own so that proofs do not look into message texts.
\<close>

definition sprintf :: "string list \<Rightarrow> string" where
  "sprintf ps = concat ps"

lemma sprintf_Nil_iff [simp]: "sprintf ps = [] \<longleftrightarrow> (\<forall>p \<in> set ps. p = [])"
  by (simp add: sprintf_def)

text \<open>The text that the verb \<open>%v\<close> and the method \<open>Error()\<close> give.\<close>

fun error_text :: "gerror \<Rightarrow> string" where
  "error_text (Plain m) = m"
| "error_text (Status c m) = sprintf [''rpc error: code = '', code_name c, '' desc = '', m]"
| "error_text (AwsErr c m) = sprintf [c, '': '', m]"
| "error_text (SmithyErr c m) = sprintf [''api error '', c, '': '', m]"
| "error_text (PathErr _ m) = m"
| "error_text (LinkErr _ m) = m"
| "error_text (SyscallErr _ m) = m"
| "error_text (CtxErr m) = m"

type_synonym 'a res = "gerror + 'a"

datatype 'a outcome = Ret 'a | Fail gerror | Panic string

fun of_res :: "'a res \<Rightarrow> 'a outcome" where
  "of_res (Inl e) = Fail e"
| "of_res (Inr x) = Ret x"

lemma of_res_simps [simp]:
  "of_res r = Ret x \<longleftrightarrow> r = Inr x"
  "of_res r = Fail e \<longleftrightarrow> r = Inl e"
  "Ret x = of_res r \<longleftrightarrow> r = Inr x"
  "Fail e = of_res r \<longleftrightarrow> r = Inl e"
  "of_res r \<noteq> Panic p"
  "Panic p \<noteq> of_res r"
  by (cases r; auto)+

definition is_err :: "'a res \<Rightarrow> bool" where
  "is_err r = (case r of Inl _ \<Rightarrow> True | Inr _ \<Rightarrow> False)"

lemma is_err_simps [simp]: "is_err (Inl e)" "\<not> is_err (Inr x)"
  by (simp_all add: is_err_def)

definition is_fail :: "'a outcome \<Rightarrow> bool" where
  "is_fail r = (case r of Ret _ \<Rightarrow> False | Fail _ \<Rightarrow> True | Panic _ \<Rightarrow> False)"

lemma is_fail_simps [simp]: "\<not> is_fail (Ret x)" "is_fail (Fail e)" "\<not> is_fail (Panic p)"
  by (simp_all add: is_fail_def)

text \<open>
  A list of checks, each of which fails with an error or passes: the error of the first check
  that fails, which is what a chain of \<open>if ... \{ return err \}\<close> returns.
\<close>

fun first_fail :: "gerror option list \<Rightarrow> gerror option" where
  "first_fail [] = None"
| "first_fail (Some e # cs) = Some e"
| "first_fail (None # cs) = first_fail cs"

lemma first_fail_None_iff: "first_fail cs = None \<longleftrightarrow> (\<forall>c \<in> set cs. c = None)"
  by (induction cs rule: first_fail.induct) auto

lemma first_fail_SomeD: "first_fail cs = Some e \<Longrightarrow> Some e \<in> set cs"
  by (induction cs rule: first_fail.induct) auto


subsection \<open>Maps\<close>

text \<open>The contract of a Go map: what a lookup returns after an assignment and a \<open>delete\<close>.\<close>

locale go_map =
  fixes lookup :: "'m \<Rightarrow> 'k \<Rightarrow> 'v option"
    and put :: "'m \<Rightarrow> 'k \<Rightarrow> 'v \<Rightarrow> 'm"
    and del :: "'m \<Rightarrow> 'k \<Rightarrow> 'm"
    and keys :: "'m \<Rightarrow> 'k list"
    and wf :: "'m \<Rightarrow> bool"
  assumes lookup_put: "lookup (put m k v) k' = (if k' = k then Some v else lookup m k')"
    and lookup_del: "lookup (del m k) k' = (if k' = k then None else lookup m k')"
    and in_keys: "k \<in> set (keys m) \<longleftrightarrow> lookup m k \<noteq> None"
    and distinct_keys: "wf m \<Longrightarrow> distinct (keys m)"
    and wf_put: "wf m \<Longrightarrow> wf (put m k v)"
    and wf_del: "wf m \<Longrightarrow> wf (del m k)"
begin

lemma lookup_put_same [simp]: "lookup (put m k v) k = Some v"
  by (simp add: lookup_put)

lemma lookup_put_other [simp]: "k' \<noteq> k \<Longrightarrow> lookup (put m k v) k' = lookup m k'"
  by (simp add: lookup_put)

lemma keys_put: "set (keys (put m k v)) = insert k (set (keys m))"
  by (auto simp: in_keys lookup_put split: if_splits)

lemma keys_del: "set (keys (del m k)) = set (keys m) - {k}"
  by (auto simp: in_keys lookup_del split: if_splits)

text \<open>A loop of assignments: the last binding of a key wins over the map the loop started from.\<close>

lemma lookup_puts:
  "lookup (foldl (\<lambda>m (k, v). put m k v) m kvs) k =
     (case map_of (rev kvs) k of Some v \<Rightarrow> Some v | None \<Rightarrow> lookup m k)"
proof (induction kvs rule: rev_induct)
  case Nil
  then show ?case by simp
next
  case (snoc kv kvs)
  then show ?case by (cases kv) (simp add: lookup_put)
qed

lemma wf_puts: "wf m \<Longrightarrow> wf (foldl (\<lambda>m (k, v). put m k v) m kvs)"
  by (induction kvs arbitrary: m) (auto simp: wf_put)

end

type_synonym smap = "(string \<times> string) list"
type_synonym nmap = "smap option"

text \<open>
  \<open>mget\<close> is \<open>m[k]\<close> (the zero value for a missing key), \<open>mput\<close> is \<open>m[k] = v\<close>,
  \<open>mdel\<close> is \<open>delete(m, k)\<close>; \<open>val, ok := m[k]\<close> is \<open>map_of m k\<close>. A nil map reads as
  the empty one (\<open>deref\<close>).
\<close>

definition mget :: "smap \<Rightarrow> string \<Rightarrow> string" where
  "mget m k = (case map_of m k of Some v \<Rightarrow> v | None \<Rightarrow> [])"

definition mput :: "smap \<Rightarrow> string \<Rightarrow> string \<Rightarrow> smap" where
  "mput m k v = AList.update k v m"

definition mdel :: "smap \<Rightarrow> string \<Rightarrow> smap" where
  "mdel m k = AList.delete k m"

definition mkeys :: "smap \<Rightarrow> string list" where
  "mkeys m = map fst m"

definition smap_wf :: "smap \<Rightarrow> bool" where
  "smap_wf m = distinct (map fst m)"

definition deref :: "nmap \<Rightarrow> smap" where
  "deref m = (case m of None \<Rightarrow> [] | Some m' \<Rightarrow> m')"

lemma deref_simps [simp]: "deref None = []" "deref (Some m) = m"
  by (simp_all add: deref_def)

interpretation gm: go_map map_of mput mdel mkeys smap_wf
proof unfold_locales
  fix m :: smap and k k' v
  show "map_of (mput m k v) k' = (if k' = k then Some v else map_of m k')"
    by (simp add: mput_def update_conv')
  show "map_of (mdel m k) k' = (if k' = k then None else map_of m k')"
    by (simp add: mdel_def delete_conv')
  show "k \<in> set (mkeys m) \<longleftrightarrow> map_of m k \<noteq> None"
    by (simp add: mkeys_def map_of_eq_None_iff)
  show "smap_wf m \<Longrightarrow> distinct (mkeys m)"
    by (simp add: smap_wf_def mkeys_def)
  show "smap_wf m \<Longrightarrow> smap_wf (mput m k v)"
    by (simp add: smap_wf_def mput_def distinct_update)
  show "smap_wf m \<Longrightarrow> smap_wf (mdel m k)"
    by (simp add: smap_wf_def mdel_def distinct_delete)
qed

lemma mget_mput [smap_simps]: "mget (mput m k v) k' = (if k' = k then v else mget m k')"
  by (simp add: mget_def gm.lookup_put)

lemma mget_mdel [smap_simps]: "mget (mdel m k) k' = (if k' = k then [] else mget m k')"
  by (simp add: mget_def gm.lookup_del)

lemma mget_Nil [simp]: "mget [] k = []"
  by (simp add: mget_def)

lemma mget_nonempty: "mget m k \<noteq> [] \<Longrightarrow> map_of m k = Some (mget m k)"
  by (simp add: mget_def split: option.splits)

lemma smap_wf_Nil [simp]: "smap_wf []"
  by (simp add: smap_wf_def)

lemmas smap_lookup [smap_simps] = gm.lookup_put gm.lookup_del

text \<open>
  Go gives no order to the iteration over a map. Every loop over one takes a function that
  permutes the bindings, one per loop of the program (a \<open>range_site\<close>); the theorems hold for
  every such function.
\<close>

datatype range_site =
    RangeMountOpts | RangeDefaults | RangeUnknown | RangeRcloneOpts | RangeS3fsArgs | RangeRcloneArgs

type_synonym iteration = "range_site \<Rightarrow> smap \<Rightarrow> smap"

definition fair_iteration :: "iteration \<Rightarrow> bool" where
  "fair_iteration it \<longleftrightarrow> (\<forall>s m. mset (it s m) = mset m)"

lemma fair_iteration_set: "fair_iteration it \<Longrightarrow> set (it s m) = set m"
  unfolding fair_iteration_def by (metis set_mset_mset)

lemma fair_iteration_length: "fair_iteration it \<Longrightarrow> length (it s m) = length m"
  unfolding fair_iteration_def by (metis size_mset)

lemma fair_iteration_keys:
  assumes "fair_iteration it" and "smap_wf m"
  shows "distinct (map fst (it s m))"
proof -
  have "mset (map fst (it s m)) = mset (map fst m)"
    using assms(1) by (simp add: fair_iteration_def)
  then show ?thesis
    using assms(2) unfolding smap_wf_def by (metis mset_eq_imp_distinct_iff)
qed

lemma fair_iteration_map_of:
  assumes "fair_iteration it" and "smap_wf m"
  shows "map_of (it s m) = map_of m"
  using fair_iteration_keys [OF assms] assms
  by (intro map_of_inject_set [THEN iffD2])
     (auto simp: smap_wf_def fair_iteration_set)

lemma fair_identity: "fair_iteration (\<lambda>_ m. m)"
  by (simp add: fair_iteration_def)

lemma fair_rev: "fair_iteration (\<lambda>_. rev)"
  by (simp add: fair_iteration_def)


subsection \<open>Effects\<close>

text \<open>
  \<open>ask f ev\<close> is one call to the outside: the reply \<open>f h\<close> may depend on the whole history
  \<open>h\<close> of earlier calls and replies, so the outside (the object store, the Kubernetes API, the
  operating system, other processes) is any deterministic or adversarial environment; the call
  and its reply are appended to the history as the event \<open>ev (f h)\<close>.
\<close>

type_synonym ('e, 'a) io = "('e list, 'a) state"

definition ask :: "('e list \<Rightarrow> 'r) \<Rightarrow> ('r \<Rightarrow> 'e) \<Rightarrow> ('e, 'r) io" where
  "ask f ev = State (\<lambda>h. (f h, h @ [ev (f h)]))"

definition ret :: "'a \<Rightarrow> ('e, 'a outcome) io" where
  "ret x = State_Monad.return (Ret x)"

definition fail :: "gerror \<Rightarrow> ('e, 'a outcome) io" where
  "fail e = State_Monad.return (Fail e)"

definition panic :: "string \<Rightarrow> ('e, 'a outcome) io" where
  "panic p = State_Monad.return (Panic p)"

definition lift_res :: "'a res \<Rightarrow> ('e, 'a outcome) io" where
  "lift_res r = State_Monad.return (of_res r)"

definition ask_res :: "('e list \<Rightarrow> 'r res) \<Rightarrow> ('r res \<Rightarrow> 'e) \<Rightarrow> ('e, 'r outcome) io" where
  "ask_res f ev = State_Monad.bind (ask f ev) lift_res"

text \<open>
  \<open>attempt m err k\<close> is \<open>x, e := m(); if e != nil \{ err e \}; k x\<close>, where \<open>err\<close>
  leaves the function; a panic in \<open>m\<close> leaves it too.
\<close>

definition attempt ::
    "('e, 'a outcome) io \<Rightarrow> (gerror \<Rightarrow> ('e, 'b outcome) io) \<Rightarrow> ('a \<Rightarrow> ('e, 'b outcome) io)
     \<Rightarrow> ('e, 'b outcome) io" where
  "attempt m err k = State_Monad.bind m
     (\<lambda>r. case r of Ret x \<Rightarrow> k x | Fail e \<Rightarrow> err e | Panic p \<Rightarrow> panic p)"

lemma attempt_simps [simp]:
  "attempt (ret x) err k = k x"
  "attempt (fail e) err k = err e"
  "attempt (panic p) err k = panic p"
  "attempt (lift_res r) err k = (case r of Inl e \<Rightarrow> err e | Inr x \<Rightarrow> k x)"
  by (simp_all add: attempt_def ret_def fail_def panic_def lift_res_def split: sum.split)

definition wp :: "('e, 'a) io \<Rightarrow> ('a \<Rightarrow> 'e list \<Rightarrow> bool) \<Rightarrow> 'e list \<Rightarrow> bool" where
  "wp m Q h = (case run_state m h of (r, h') \<Rightarrow> Q r h')"

lemma run_ask [simp]: "run_state (ask f ev) h = (f h, h @ [ev (f h)])"
  by (simp add: ask_def)

lemma run_ret [simp]: "run_state (ret x) h = (Ret x, h)"
  by (simp add: ret_def)

lemma run_fail [simp]: "run_state (fail e) h = (Fail e, h)"
  by (simp add: fail_def)

lemma run_panic [simp]: "run_state (panic p) h = (Panic p, h)"
  by (simp add: panic_def)

lemma run_lift_res [simp]: "run_state (lift_res r) h = (of_res r, h)"
  by (simp add: lift_res_def)

lemma run_ask_res [simp]: "run_state (ask_res f ev) h = (of_res (f h), h @ [ev (f h)])"
  by (simp add: ask_res_def)

lemma run_attempt [simp]:
  "run_state (attempt m err k) h =
     (case run_state m h of (r, h') \<Rightarrow>
        (case r of Ret x \<Rightarrow> run_state (k x) h' | Fail e \<Rightarrow> run_state (err e) h' | Panic p \<Rightarrow> (Panic p, h')))"
  by (simp add: attempt_def split: prod.split outcome.split)

lemma wp_return [wp_simps]: "wp (State_Monad.return x) Q h = Q x h"
  by (simp add: wp_def)

lemma wp_bind [wp_simps]: "wp (State_Monad.bind m f) Q h = wp m (\<lambda>r h'. wp (f r) Q h') h"
  by (simp add: wp_def split: prod.split)

lemma wp_ask [wp_simps]: "wp (ask f ev) Q h = Q (f h) (h @ [ev (f h)])"
  by (simp add: wp_def)

lemma wp_ret [wp_simps]: "wp (ret x) Q h = Q (Ret x) h"
  by (simp add: wp_def)

lemma wp_fail [wp_simps]: "wp (fail e) Q h = Q (Fail e) h"
  by (simp add: wp_def)

lemma wp_panic [wp_simps]: "wp (panic p) Q h = Q (Panic p) h"
  by (simp add: wp_def)

lemma wp_lift_res [wp_simps]: "wp (lift_res r) Q h = Q (of_res r) h"
  by (simp add: wp_def)

lemma wp_ask_res [wp_simps]: "wp (ask_res f ev) Q h = Q (of_res (f h)) (h @ [ev (f h)])"
  by (simp add: wp_def)

lemma wp_attempt [wp_simps]:
  "wp (attempt m err k) Q h =
     wp m (\<lambda>r h'. case r of Ret x \<Rightarrow> wp (k x) Q h' | Fail e \<Rightarrow> wp (err e) Q h' | Panic p \<Rightarrow> Q (Panic p) h') h"
  by (simp add: wp_def split: prod.split outcome.split)

lemma wp_if [wp_simps]: "wp (if b then m else n) Q h = (if b then wp m Q h else wp n Q h)"
  by simp

lemma wp_mono: "wp m Q h \<Longrightarrow> (\<And>r h'. Q r h' \<Longrightarrow> R r h') \<Longrightarrow> wp m R h"
  by (auto simp: wp_def split: prod.splits)

lemma wp_runD: "wp m Q h \<Longrightarrow> run_state m h = (r, h') \<Longrightarrow> Q r h'"
  by (simp add: wp_def)

lemma wp_runI: "(\<And>r h'. run_state m h = (r, h') \<Longrightarrow> Q r h') \<Longrightarrow> wp m Q h"
  by (auto simp: wp_def split: prod.splits)

lemma wp_conj: "wp m Q h \<Longrightarrow> wp m R h \<Longrightarrow> wp m (\<lambda>r h'. Q r h' \<and> R r h') h"
  by (auto simp: wp_def split: prod.splits)


subsection \<open>Which events an operation appends\<close>

definition emits :: "('e \<Rightarrow> bool) \<Rightarrow> ('e, 'a) io \<Rightarrow> bool" where
  "emits P m \<longleftrightarrow> (\<forall>h. \<exists>es. snd (run_state m h) = h @ es \<and> (\<forall>e \<in> set es. P e))"

lemma emitsD:
  assumes "emits P m" and "run_state m h = (r, h')"
  obtains es where "h' = h @ es" and "\<forall>e \<in> set es. P e"
  using assms unfolding emits_def by (metis snd_conv)

lemma emits_wp:
  assumes "emits P m"
    and "\<And>r es. \<forall>e \<in> set es. P e \<Longrightarrow> run_state m h = (r, h @ es) \<Longrightarrow> Q r (h @ es)"
  shows "wp m Q h"
proof (rule wp_runI)
  fix r h'
  assume run: "run_state m h = (r, h')"
  obtain es where "h' = h @ es" "\<forall>e \<in> set es. P e"
    using emitsD [OF assms(1) run] .
  with run assms(2) show "Q r h'" by simp
qed

lemma emits_mono: "emits P m \<Longrightarrow> (\<And>e. P e \<Longrightarrow> R e) \<Longrightarrow> emits R m"
  unfolding emits_def by blast

lemma emits_return [emits_intros]: "emits P (State_Monad.return x)"
  by (simp add: emits_def)

lemma emits_ret [emits_intros]: "emits P (ret x)"
  by (simp add: emits_def)

lemma emits_fail [emits_intros]: "emits P (fail e)"
  by (simp add: emits_def)

lemma emits_panic [emits_intros]: "emits P (panic p)"
  by (simp add: emits_def)

lemma emits_lift_res [emits_intros]: "emits P (lift_res r)"
  by (simp add: emits_def)

lemma emits_ask: "(\<And>r. P (ev r)) \<Longrightarrow> emits P (ask f ev)"
  by (auto simp: emits_def)

lemma emits_ask_res: "(\<And>r. P (ev r)) \<Longrightarrow> emits P (ask_res f ev)"
  by (auto simp: emits_def)

lemma emits_bind [emits_intros]:
  assumes m: "emits P m" and f: "\<And>x. emits P (f x)"
  shows "emits P (State_Monad.bind m f)"
  unfolding emits_def
proof
  fix h
  obtain x h1 where x: "run_state m h = (x, h1)" by (cases "run_state m h")
  obtain es where es: "h1 = h @ es" "\<forall>e \<in> set es. P e"
    using emitsD [OF m x] .
  obtain y h2 where y: "run_state (f x) h1 = (y, h2)" by (cases "run_state (f x) h1")
  obtain es' where es': "h2 = h1 @ es'" "\<forall>e \<in> set es'. P e"
    using emitsD [OF f y] .
  show "\<exists>es. snd (run_state (State_Monad.bind m f) h) = h @ es \<and> (\<forall>e \<in> set es. P e)"
    using x y es es' by (intro exI [of _ "es @ es'"]) auto
qed

lemma emits_attempt [emits_intros]:
  assumes "emits P m" and "\<And>e. emits P (err e)" and "\<And>x. emits P (k x)"
  shows "emits P (attempt m err k)"
  unfolding attempt_def
  by (rule emits_bind [OF assms(1)]) (auto split: outcome.split intro: assms emits_panic)

lemma emits_if [emits_intros]:
  "emits P m \<Longrightarrow> emits P n \<Longrightarrow> emits P (if b then m else n)"
  by simp

lemma emits_case_option [emits_intros]:
  "emits P m \<Longrightarrow> (\<And>x. emits P (f x)) \<Longrightarrow> emits P (case o' of None \<Rightarrow> m | Some x \<Rightarrow> f x)"
  by (cases o') auto

lemma emits_case_sum [emits_intros]:
  "(\<And>e. emits P (f e)) \<Longrightarrow> (\<And>x. emits P (g x)) \<Longrightarrow> emits P (case r of Inl e \<Rightarrow> f e | Inr x \<Rightarrow> g x)"
  by (cases r) auto

lemma emits_case_outcome [emits_intros]:
  "(\<And>x. emits P (k x)) \<Longrightarrow> (\<And>e. emits P (f e)) \<Longrightarrow> (\<And>p. emits P (g p)) \<Longrightarrow>
   emits P (case r of Ret x \<Rightarrow> k x | Fail e \<Rightarrow> f e | Panic p \<Rightarrow> g p)"
  by (cases r) auto

lemma emits_case_prod [emits_intros]:
  "(\<And>x y. emits P (f x y)) \<Longrightarrow> emits P (case p of (x, y) \<Rightarrow> f x y)"
  by (cases p) auto

lemma emits_Let [emits_intros]: "emits P (f x) \<Longrightarrow> emits P (let y = x in f y)"
  by simp


subsection \<open>What an operation returns and appends\<close>

text \<open>
  \<open>yields m Q\<close>: from every history, \<open>m\<close> only appends to it, and the result \<open>r\<close> and the
  appended events \<open>es\<close> satisfy \<open>Q r es\<close>. This is how the contracts of the components are
  stated: they do not depend on what happened before.
\<close>

definition yields :: "('e, 'a) io \<Rightarrow> ('a \<Rightarrow> 'e list \<Rightarrow> bool) \<Rightarrow> bool" where
  "yields m Q \<longleftrightarrow> (\<forall>h. \<exists>r es. run_state m h = (r, h @ es) \<and> Q r es)"

lemma yieldsI: "(\<And>h. \<exists>r es. run_state m h = (r, h @ es) \<and> Q r es) \<Longrightarrow> yields m Q"
  by (simp add: yields_def)

lemma yieldsE:
  assumes "yields m Q"
  obtains r es where "run_state m h = (r, h @ es)" and "Q r es"
  using assms unfolding yields_def by blast

lemma yieldsD: "yields m Q \<Longrightarrow> run_state m h = (r, h') \<Longrightarrow> \<exists>es. h' = h @ es \<and> Q r es"
  unfolding yields_def by (metis prod.inject)

lemma yields_wp: "yields m Q \<Longrightarrow> wp m (\<lambda>r h'. \<exists>es. h' = h @ es \<and> Q r es) h"
  by (rule wp_runI) (rule yieldsD)

lemma yields_mono: "yields m Q \<Longrightarrow> (\<And>r es. Q r es \<Longrightarrow> R r es) \<Longrightarrow> yields m R"
  unfolding yields_def by meson

lemma yields_conj: "yields m Q \<Longrightarrow> yields m R \<Longrightarrow> yields m (\<lambda>r es. Q r es \<and> R r es)"
  unfolding yields_def by (metis prod.inject same_append_eq)

lemma yields_all: "(\<And>x. yields m (Q x)) \<Longrightarrow> yields m (\<lambda>r es. \<forall>x. Q x r es)"
  unfolding yields_def by (metis prod.inject same_append_eq)

lemma emits_iff_yields: "emits P m \<longleftrightarrow> yields m (\<lambda>_ es. \<forall>e \<in> set es. P e)"
  unfolding emits_def yields_def by (metis prod.collapse snd_conv)

lemma yields_return: "Q x [] \<Longrightarrow> yields (State_Monad.return x) Q"
  by (simp add: yields_def)

lemma yields_ret: "Q (Ret x) [] \<Longrightarrow> yields (ret x) Q"
  by (simp add: yields_def)

lemma yields_fail: "Q (Fail e) [] \<Longrightarrow> yields (fail e) Q"
  by (simp add: yields_def)

lemma yields_panic: "Q (Panic p) [] \<Longrightarrow> yields (panic p) Q"
  by (simp add: yields_def)

lemma yields_lift_res: "Q (of_res r) [] \<Longrightarrow> yields (lift_res r) Q"
  by (simp add: yields_def)

lemma yields_ask: "(\<And>x. Q x [ev x]) \<Longrightarrow> yields (ask f ev) Q"
  by (auto simp: yields_def)

lemma yields_ask_res: "(\<And>x. Q (of_res x) [ev x]) \<Longrightarrow> yields (ask_res f ev) Q"
  by (auto simp: yields_def)

lemma yields_reply: "yields (ask_res f ev) (\<lambda>r es. \<exists>x. es = [ev x] \<and> r = of_res x)"
  by (auto simp: yields_def)

lemma yields_bind:
  assumes m: "yields m R" and f: "\<And>x es. R x es \<Longrightarrow> yields (f x) (\<lambda>r es'. Q r (es @ es'))"
  shows "yields (State_Monad.bind m f) Q"
proof (rule yieldsI)
  fix h
  obtain x es where x: "run_state m h = (x, h @ es)" "R x es"
    using yieldsE [OF m] .
  obtain r es' where "run_state (f x) (h @ es) = (r, (h @ es) @ es')" "Q r (es @ es')"
    using yieldsE [OF f [OF x(2)]] .
  with x show "\<exists>r es. run_state (State_Monad.bind m f) h = (r, h @ es) \<and> Q r es"
    by (intro exI [of _ r] exI [of _ "es @ es'"]) simp
qed

lemma yields_attempt:
  assumes "yields m R"
    and "\<And>x es. R (Ret x) es \<Longrightarrow> yields (k x) (\<lambda>r es'. Q r (es @ es'))"
    and "\<And>e es. R (Fail e) es \<Longrightarrow> yields (err e) (\<lambda>r es'. Q r (es @ es'))"
    and "\<And>p es. R (Panic p) es \<Longrightarrow> Q (Panic p) es"
  shows "yields (attempt m err k) Q"
  unfolding attempt_def
proof (rule yields_bind [OF assms(1)])
  fix x es
  assume "R x es"
  then show "yields (case x of Ret x \<Rightarrow> k x | Fail e \<Rightarrow> err e | Panic p \<Rightarrow> panic p)
      (\<lambda>r es'. Q r (es @ es'))"
    using assms by (cases x) (auto intro!: yields_panic)
qed

text \<open>The same for calls whose failure the caller passes on.\<close>

lemma yields_attempt_fail:
  assumes "yields m R"
    and "\<And>x es. R (Ret x) es \<Longrightarrow> yields (k x) (\<lambda>r es'. Q r (es @ es'))"
    and "\<And>e es. R (Fail e) es \<Longrightarrow> Q (Fail e) es"
    and "\<And>p es. R (Panic p) es \<Longrightarrow> Q (Panic p) es"
  shows "yields (attempt m fail k) Q"
  by (rule yields_attempt [OF assms(1,2)]) (auto intro!: yields_fail assms)

lemma yields_if: "(b \<Longrightarrow> yields m Q) \<Longrightarrow> (\<not> b \<Longrightarrow> yields n Q) \<Longrightarrow> yields (if b then m else n) Q"
  by simp

lemma yields_run_eq:
  "(\<And>h. run_state m h = (r h, h @ es h)) \<Longrightarrow> (\<And>h. Q (r h) (es h)) \<Longrightarrow> yields m Q"
  by (simp add: yields_def)

end
