(* ===== verification/Csi.thy ===== *)
theory Csi
  imports GoPrelude
begin

section \<open>CSI messages\<close>

text \<open>
  The parts of the CSI messages that the program reads and writes, one record per message. A
  field that protobuf may leave nil is an option, or an \<open>nmap\<close> for a map. Getters of a nil
  message return the zero value, as the generated getters do.
\<close>

datatype access_mode =
    UNKNOWN | SINGLE_NODE_WRITER | SINGLE_NODE_READER_ONLY | MULTI_NODE_READER_ONLY
  | MULTI_NODE_SINGLE_WRITER | MULTI_NODE_MULTI_WRITER | SINGLE_NODE_SINGLE_WRITER
  | SINGLE_NODE_MULTI_WRITER

record mount_volume =
  mount_flags :: "string list"
  volume_mount_group :: string

datatype access_type = NoAccessType | Block | Mount mount_volume

record VolumeCapability =
  cap_type :: access_type
  cap_mode :: "access_mode option"

definition GetMode :: "VolumeCapability \<Rightarrow> access_mode" where
  "GetMode c = (case cap_mode c of None \<Rightarrow> UNKNOWN | Some m \<Rightarrow> m)"

definition GetMount :: "VolumeCapability \<Rightarrow> mount_volume option" where
  "GetMount c = (case cap_type c of Mount m \<Rightarrow> Some m | _ \<Rightarrow> None)"

record CreateVolumeRequest =
  cv_name :: string
  cv_capacity :: "int option"
  cv_capabilities :: "VolumeCapability list option"
  cv_parameters :: nmap
  cv_secrets :: nmap

definition required_bytes :: "CreateVolumeRequest \<Rightarrow> int" where
  "required_bytes req = (case cv_capacity req of None \<Rightarrow> 0 | Some n \<Rightarrow> n)"

record CreateVolumeResponse =
  vol_id :: string
  vol_capacity :: int
  vol_context :: smap

record DeleteVolumeRequest =
  dv_volume_id :: string
  dv_secrets :: nmap

record ValidateRequest =
  vv_volume_id :: string
  vv_capabilities :: "VolumeCapability list"

record StageRequest =
  st_volume_id :: string
  st_staging_path :: string

record NodePublishVolumeRequest =
  np_volume_id :: string
  np_target_path :: string
  np_capability :: "VolumeCapability option"
  np_publish_context :: nmap
  np_volume_context :: nmap
  np_secrets :: nmap

record NodeUnpublishVolumeRequest =
  nu_volume_id :: string
  nu_target_path :: string

record NodeGetVolumeStatsRequest =
  ns_volume_id :: string
  ns_volume_path :: string

datatype usage_unit = BYTES | INODES

record VolumeUsage =
  usage_available :: int
  usage_total :: int
  usage_used :: int
  usage_unit :: usage_unit

record NodeGetVolumeStatsResponse =
  stats_usage :: "VolumeUsage list"
  stats_condition :: "(bool \<times> string) option"

record NodeGetInfoResponse =
  info_node_id :: string
  info_max_volumes :: int
  info_segments :: smap

datatype controller_cap = CREATE_DELETE_VOLUME

datatype node_cap = GET_VOLUME_STATS | VOLUME_CONDITION | VOLUME_MOUNT_GROUP

datatype plugin_cap = CONTROLLER_SERVICE | VOLUME_ACCESSIBILITY_CONSTRAINTS

text \<open>The argument of a function that takes any request.\<close>

datatype any_request =
    CreateReq CreateVolumeRequest
  | DeleteReq DeleteVolumeRequest
  | PublishReq NodePublishVolumeRequest
  | OtherReq

end
