(* ===== verification/GoStrings.thy ===== *)
theory GoStrings
  imports GoPrelude "HOL-Library.Sublist" "HOL-Library.List_Lexorder" "HOL-Library.Char_ord"
begin

section \<open>The parts of Go's strings, strconv, path and filepath that the program uses\<close>

text \<open>
  A Go string is a list of bytes (\<open>char\<close>s); \<open>len\<close> is \<open>length\<close>. Case mapping and
  white space are those of ASCII: bytes from 128 on, which Go would decode as UTF-8, are left
  alone. Everything here is a pure function of the standard library; nothing is specific to the
  program.
\<close>

named_theorems string_eval \<open>definitions that evaluate string functions on literals\<close>


subsection \<open>Package strings\<close>

definition lower_char :: "char \<Rightarrow> char" where
  "lower_char c = (let n = (of_char c :: nat) in if 65 \<le> n \<and> n \<le> 90 then char_of (n + 32) else c)"

definition to_lower :: "string \<Rightarrow> string" where
  "to_lower s = map lower_char s"

definition upper_char :: "char \<Rightarrow> char" where
  "upper_char c = (let n = (of_char c :: nat) in if 97 \<le> n \<and> n \<le> 122 then char_of (n - 32) else c)"

definition to_upper :: "string \<Rightarrow> string" where
  "to_upper s = map upper_char s"

definition equal_fold :: "string \<Rightarrow> string \<Rightarrow> bool" where
  "equal_fold s t \<longleftrightarrow> to_lower s = to_lower t"

definition is_space :: "char \<Rightarrow> bool" where
  "is_space c \<longleftrightarrow> c \<in> {CHR '' '', CHR 0x09, CHR 0x0A, CHR 0x0B, CHR 0x0C, CHR 0x0D}"

definition trim_space :: "string \<Rightarrow> string" where
  "trim_space s = rev (dropWhile is_space (rev (dropWhile is_space s)))"

definition has_prefix :: "string \<Rightarrow> string \<Rightarrow> bool" where
  "has_prefix s p \<longleftrightarrow> prefix p s"

definition has_suffix :: "string \<Rightarrow> string \<Rightarrow> bool" where
  "has_suffix s p \<longleftrightarrow> suffix p s"

definition contains :: "string \<Rightarrow> string \<Rightarrow> bool" where
  "contains s sub \<longleftrightarrow> sublist sub s"

definition trim_prefix :: "string \<Rightarrow> string \<Rightarrow> string" where
  "trim_prefix s p = (if prefix p s then drop (length p) s else s)"

definition trim_suffix :: "string \<Rightarrow> string \<Rightarrow> string" where
  "trim_suffix s p = (if suffix p s then take (length s - length p) s else s)"

text \<open>\<open>strings.Split(s, sep)\<close> for a separator of one byte, and \<open>strings.SplitN(s, sep, 2)\<close>.\<close>

fun split_on :: "char \<Rightarrow> string \<Rightarrow> string list" where
  "split_on c [] = [[]]"
| "split_on c (x # xs) =
     (if x = c then [] # split_on c xs
      else (case split_on c xs of p # ps \<Rightarrow> (x # p) # ps | [] \<Rightarrow> [[x]]))"

definition split_n2 :: "char \<Rightarrow> string \<Rightarrow> string list" where
  "split_n2 c s =
     (if c \<in> set s then [takeWhile (\<lambda>x. x \<noteq> c) s, tl (dropWhile (\<lambda>x. x \<noteq> c) s)] else [s])"

fun join :: "string \<Rightarrow> string list \<Rightarrow> string" where
  "join sep [] = []"
| "join sep [s] = s"
| "join sep (s # t # ts) = s @ sep @ join sep (t # ts)"

lemma length_to_lower [simp]: "length (to_lower s) = length s"
  by (simp add: to_lower_def)

lemma lower_char_idem [simp]: "lower_char (lower_char c) = lower_char c"
  by (auto simp: lower_char_def Let_def)

lemma to_lower_idem [simp]: "to_lower (to_lower s) = to_lower s"
  by (simp add: to_lower_def)

lemma to_lower_Nil [simp]: "to_lower s = [] \<longleftrightarrow> s = []"
  by (simp add: to_lower_def)

lemma equal_fold_sym: "equal_fold s t = equal_fold t s"
  by (auto simp: equal_fold_def)

lemma dropWhile_rev_Nil: "dropWhile P (rev xs) = [] \<longleftrightarrow> dropWhile P xs = []"
  by (simp add: dropWhile_eq_Nil_conv)

lemma trim_space_Nil_iff: "trim_space s = [] \<longleftrightarrow> (\<forall>c \<in> set s. is_space c)"
proof -
  have "trim_space s = [] \<longleftrightarrow> (\<forall>c \<in> set (dropWhile is_space s). is_space c)"
    by (simp add: trim_space_def)
  also have "\<dots> \<longleftrightarrow> (\<forall>c \<in> set s. is_space c)"
  proof (cases "dropWhile is_space s")
    case Nil
    then have "\<forall>c \<in> set s. is_space c" by (simp add: dropWhile_eq_Nil_conv)
    with Nil show ?thesis by (metis empty_iff list.set(1))
  next
    case (Cons x xs)
    then have "\<not> is_space x"
      using hd_dropWhile [of is_space s] by simp
    moreover have "x \<in> set s"
      using Cons by (metis list.set_intros(1) set_dropWhileD)
    ultimately show ?thesis using Cons by auto
  qed
  finally show ?thesis .
qed

lemma dropWhile_idem: "dropWhile P (dropWhile P xs) = dropWhile P xs"
  by (induction xs) auto

lemma trim_space_idem [simp]: "trim_space (trim_space s) = trim_space s"
proof -
  define t where "t = dropWhile is_space s"
  define u where "u = rev (dropWhile is_space (rev t))"
  have "dropWhile is_space u = u"
  proof (cases u)
    case (Cons x xs)
    have "prefix u t"
      unfolding u_def by (metis rev_rev_ident suffix_dropWhile suffix_to_prefix)
    with Cons obtain ys where "t = x # ys" by (auto simp: prefix_def)
    then have "\<not> is_space x"
      using hd_dropWhile [of is_space s] unfolding t_def by simp
    with Cons show ?thesis by simp
  qed simp
  then show ?thesis
    unfolding trim_space_def t_def [symmetric] u_def [symmetric]
    by (simp add: u_def dropWhile_idem)
qed

lemma split_on_nonempty [simp]: "split_on c s \<noteq> []"
  by (cases s) (auto split: list.split)

lemma split_on_no_sep: "p \<in> set (split_on c s) \<Longrightarrow> c \<notin> set p"
  by (induction s arbitrary: p) (auto split: if_splits list.splits)

lemma split_on_notin: "c \<notin> set s \<Longrightarrow> split_on c s = [s]"
  by (induction s) auto

lemma split_on_append: "c \<notin> set p \<Longrightarrow> split_on c (p @ c # s) = p # split_on c s"
  by (induction p) auto

lemma join_split_on: "join [c] (split_on c s) = s"
proof (induction s)
  case Nil
  then show ?case by simp
next
  case (Cons x xs)
  obtain p ps where ps: "split_on c xs = p # ps"
    by (metis split_on_nonempty neq_Nil_conv)
  with Cons show ?case by (cases ps) auto
qed

lemma split_on_join:
  assumes "xs \<noteq> []" and "\<forall>x \<in> set xs. c \<notin> set x"
  shows "split_on c (join [c] xs) = xs"
  using assms
proof (induction "[c]" xs rule: join.induct)
  case 1
  then show ?case by simp
next
  case (2 s)
  then show ?case by (simp add: split_on_notin)
next
  case (3 s t ts)
  then show ?case by (simp add: split_on_append)
qed

lemma length_split_on: "length (split_on c s) = Suc (count_list s c)"
  by (induction s) (auto split: list.split)

lemma split_on_hd: "hd (split_on c s) = takeWhile (\<lambda>x. x \<noteq> c) s"
  by (induction s) (auto split: list.split)

lemma split_n2_hd: "hd (split_n2 c s) = takeWhile (\<lambda>x. x \<noteq> c) s"
proof (cases "c \<in> set s")
  case False
  then have "takeWhile (\<lambda>x. x \<noteq> c) s = s" by (auto simp: takeWhile_eq_all_conv)
  with False show ?thesis by (simp add: split_n2_def del: takeWhile_eq_all_conv)
qed (simp add: split_n2_def)

lemma split_n2_append: "c \<notin> set k \<Longrightarrow> split_n2 c (k @ c # v) = [k, v]"
  by (simp add: split_n2_def takeWhile_append2 dropWhile_append2)
     (metis (mono_tags, lifting) dropWhile.simps(2) dropWhile_append2 list.sel(3) takeWhile.simps(2) append_Nil2 takeWhile_append2)


text \<open>The text \<open>'s'\<close>, which many messages of the program contain.\<close>

definition squote :: "string \<Rightarrow> string" where
  "squote s = [CHR 0x27] @ s @ [CHR 0x27]"


subsection \<open>Package strconv\<close>

definition digit_char :: "nat \<Rightarrow> char" where
  "digit_char n = ''0123456789'' ! n"

definition is_digit :: "char \<Rightarrow> bool" where
  "is_digit c \<longleftrightarrow> c \<in> set ''0123456789''"

definition digit_val :: "char \<Rightarrow> int" where
  "digit_val c = of_char c - 48"

fun dec_nat :: "nat \<Rightarrow> string" where
  "dec_nat n = (if n < 10 then [digit_char n] else dec_nat (n div 10) @ [digit_char (n mod 10)])"

declare dec_nat.simps [simp del]

text \<open>The verb \<open>%d\<close>.\<close>

definition dec_int :: "int \<Rightarrow> string" where
  "dec_int i = (if i < 0 then ''-'' @ dec_nat (nat (- i)) else dec_nat (nat i))"

definition dec_bool :: "bool \<Rightarrow> string" where
  "dec_bool b = (if b then ''true'' else ''false'')"

definition hex_digit :: "nat \<Rightarrow> char" where
  "hex_digit n = ''0123456789abcdef'' ! n"

text \<open>\<open>strconv.Quote\<close>, the verb \<open>%q\<close>.\<close>

definition quote_char :: "char \<Rightarrow> string" where
  "quote_char c =
     (let n = (of_char c :: nat) in
      if c = CHR 0x22 then [CHR 0x5C, CHR 0x22]
      else if c = CHR 0x5C then [CHR 0x5C, CHR 0x5C]
      else if n = 7 then [CHR 0x5C, CHR ''a'']
      else if n = 8 then [CHR 0x5C, CHR ''b'']
      else if n = 12 then [CHR 0x5C, CHR ''f'']
      else if n = 10 then [CHR 0x5C, CHR ''n'']
      else if n = 13 then [CHR 0x5C, CHR ''r'']
      else if n = 9 then [CHR 0x5C, CHR ''t'']
      else if n = 11 then [CHR 0x5C, CHR ''v'']
      else if n < 32 \<or> n = 127 then [CHR 0x5C, CHR ''x'', hex_digit (n div 16), hex_digit (n mod 16)]
      else [c])"

definition quote :: "string \<Rightarrow> string" where
  "quote s = [CHR 0x22] @ concat (map quote_char s) @ [CHR 0x22]"

datatype num_error = ErrSyntax | ErrRange

definition num_error_text :: "string \<Rightarrow> string \<Rightarrow> num_error \<Rightarrow> string" where
  "num_error_text fn s e = ''strconv.'' @ fn @ '': parsing '' @ quote s @ '': '' @
     (case e of ErrSyntax \<Rightarrow> ''invalid syntax'' | ErrRange \<Rightarrow> ''value out of range'')"

text \<open>The loop of \<open>ParseUint(s, 10, 64)\<close>; \<open>1844674407370955162\<close> is its cutoff
  \<open>maxUint64/10 + 1\<close>.\<close>

fun parse_uint_loop :: "int \<Rightarrow> string \<Rightarrow> num_error + int" where
  "parse_uint_loop n [] = Inr n"
| "parse_uint_loop n (c # cs) =
     (if \<not> is_digit c then Inl ErrSyntax
      else if n \<ge> 1844674407370955162 then Inl ErrRange
      else if n * 10 + digit_val c > 18446744073709551615 then Inl ErrRange
      else parse_uint_loop (n * 10 + digit_val c) cs)"

definition parse_uint :: "string \<Rightarrow> num_error + int" where
  "parse_uint s = (if s = [] then Inl ErrSyntax else parse_uint_loop 0 s)"

text \<open>\<open>ParseInt(s, 10, 64)\<close>, which is also \<open>Atoi\<close> where an int has 64 bits.\<close>

definition parse_int64 :: "string \<Rightarrow> num_error + int" where
  "parse_int64 s =
     (case s of
        [] \<Rightarrow> Inl ErrSyntax
      | c # cs \<Rightarrow>
          (let neg = (c = CHR ''-''); digits = (if c = CHR ''-'' \<or> c = CHR ''+'' then cs else s) in
           case parse_uint digits of
             Inl e \<Rightarrow> Inl e
           | Inr n \<Rightarrow>
               (if \<not> neg \<and> n \<ge> 9223372036854775808 then Inl ErrRange
                else if neg \<and> n > 9223372036854775808 then Inl ErrRange
                else Inr (if neg then - n else n))))"

definition parse_bool :: "string \<Rightarrow> bool option" where
  "parse_bool s =
     (if s \<in> {''1'', ''t'', ''T'', ''TRUE'', ''true'', ''True''} then Some True
      else if s \<in> {''0'', ''f'', ''F'', ''FALSE'', ''false'', ''False''} then Some False
      else None)"

lemma digit_chars:
  "n < 10 \<Longrightarrow> is_digit (digit_char n) \<and> digit_val (digit_char n) = int n"
proof -
  assume "n < 10"
  then have "n \<in> {0, 1, 2, 3, 4, 5, 6, 7, 8, 9}" by auto
  then show ?thesis by (elim insertE) (simp_all add: is_digit_def digit_char_def digit_val_def)
qed

lemma digit_val_nonneg: "is_digit c \<Longrightarrow> 0 \<le> digit_val c"
  by (auto simp: is_digit_def digit_val_def)

lemma dec_nat_nonempty [simp]: "dec_nat n \<noteq> []"
  by (subst dec_nat.simps) simp

lemma dec_nat_digits: "c \<in> set (dec_nat n) \<Longrightarrow> is_digit c"
proof (induction n rule: dec_nat.induct)
  case (1 n)
  then show ?case
    by (subst (asm) (2) dec_nat.simps) (auto simp: digit_chars split: if_splits)
qed

definition dec_value :: "int \<Rightarrow> string \<Rightarrow> int" where
  "dec_value n s = foldl (\<lambda>n c. n * 10 + digit_val c) n s"

lemma dec_value_simps [simp]:
  "dec_value n [] = n"
  "dec_value n (c # cs) = dec_value (n * 10 + digit_val c) cs"
  "dec_value n (s @ [c]) = dec_value n s * 10 + digit_val c"
  by (simp_all add: dec_value_def)

lemma dec_value_ge: "\<forall>c \<in> set s. is_digit c \<Longrightarrow> 0 \<le> n \<Longrightarrow> n \<le> dec_value n s"
proof (induction s arbitrary: n)
  case (Cons c cs)
  then have "0 \<le> digit_val c" by (simp add: digit_val_nonneg)
  with Cons.prems have "n \<le> n * 10 + digit_val c" by simp
  also have "\<dots> \<le> dec_value (n * 10 + digit_val c) cs"
    using Cons.prems \<open>0 \<le> digit_val c\<close> by (intro Cons.IH) auto
  finally show ?case by simp
qed simp

lemma dec_value_dec_nat: "dec_value 0 (dec_nat n) = int n"
proof (induction n rule: dec_nat.induct)
  case (1 n)
  show ?case
  proof (cases "n < 10")
    case True
    then show ?thesis by (subst dec_nat.simps) (simp add: digit_chars)
  next
    case False
    have "int (n div 10) * 10 + int (n mod 10) = int n"
      by (metis div_mult_mod_eq of_nat_add of_nat_mult of_nat_numeral)
    with False 1 show ?thesis by (subst dec_nat.simps) (simp add: digit_chars)
  qed
qed

lemma parse_uint_loop_value:
  "\<forall>c \<in> set s. is_digit c \<Longrightarrow> 0 \<le> n \<Longrightarrow> dec_value n s \<le> 18446744073709551615 \<Longrightarrow>
   parse_uint_loop n s = Inr (dec_value n s)"
proof (induction s arbitrary: n)
  case (Cons c cs)
  then have c: "0 \<le> digit_val c" by (simp add: digit_val_nonneg)
  then have "n * 10 + digit_val c \<le> dec_value n (c # cs)"
    using dec_value_ge [of cs "n * 10 + digit_val c"] Cons.prems by simp
  with Cons c show ?case by simp
qed simp

lemma parse_uint_loop_nonneg: "parse_uint_loop n s = Inr m \<Longrightarrow> 0 \<le> n \<Longrightarrow> 0 \<le> m"
proof (induction s arbitrary: n)
  case (Cons c cs)
  then have "is_digit c" "parse_uint_loop (n * 10 + digit_val c) cs = Inr m"
    by (auto split: if_splits)
  with Cons show ?case by (simp add: digit_val_nonneg)
qed simp

lemma parse_uint_nonneg: "parse_uint s = Inr n \<Longrightarrow> 0 \<le> n"
  by (auto simp: parse_uint_def split: if_splits dest: parse_uint_loop_nonneg)

lemma parse_uint_dec_nat: "int n \<le> 18446744073709551615 \<Longrightarrow> parse_uint (dec_nat n) = Inr (int n)"
  unfolding parse_uint_def
  using parse_uint_loop_value [of "dec_nat n" 0] dec_nat_digits
  by (auto simp: dec_value_dec_nat)

lemma parse_int64_range:
  "parse_int64 s = Inr i \<Longrightarrow> - 9223372036854775808 \<le> i \<and> i \<le> 9223372036854775807"
  by (auto simp: parse_int64_def Let_def split: list.splits sum.splits if_splits
      dest!: parse_uint_nonneg)

lemma dec_nat_hd: "hd (dec_nat n) \<noteq> CHR ''-'' \<and> hd (dec_nat n) \<noteq> CHR ''+''"
proof -
  have "is_digit (hd (dec_nat n))"
    using dec_nat_digits hd_in_set [OF dec_nat_nonempty] by blast
  then show ?thesis by (auto simp: is_digit_def)
qed

lemma parse_int64_dec_int:
  assumes "- 9223372036854775808 \<le> i" and "i \<le> 9223372036854775807"
  shows "parse_int64 (dec_int i) = Inr i"
proof (cases "i < 0")
  case True
  then have "parse_uint (dec_nat (nat (- i))) = Inr (- i)"
    using parse_uint_dec_nat [of "nat (- i)"] assms by simp
  with True assms show ?thesis by (simp add: dec_int_def parse_int64_def)
next
  case False
  then have n: "parse_uint (dec_nat (nat i)) = Inr i"
    using parse_uint_dec_nat [of "nat i"] assms by simp
  obtain c cs where c: "dec_nat (nat i) = c # cs"
    by (metis dec_nat_nonempty neq_Nil_conv)
  then have "c \<noteq> CHR ''-''" "c \<noteq> CHR ''+''" using dec_nat_hd [of "nat i"] by auto
  then show ?thesis
    using False n c assms by (simp add: dec_int_def parse_int64_def)
qed


subsection \<open>Packages path and filepath\<close>

text \<open>
  \<open>Clean\<close>: the path is cut at its slashes and rebuilt from the elements that remain after
  dropping empty elements and \<open>.\<close>, and cancelling \<open>..\<close> with the element before it; a
  rooted path drops \<open>..\<close> at the root. The elements that remain are kept in a stack.
\<close>

fun clean_step :: "bool \<Rightarrow> string list \<Rightarrow> string \<Rightarrow> string list" where
  "clean_step rooted st c =
     (if c = [] \<or> c = ''.'' then st
      else if c = ''..'' then
        (case st of
           [] \<Rightarrow> if rooted then [] else [''..'']
         | t # ts \<Rightarrow> if t = ''..'' then ''..'' # st else ts)
      else c # st)"

definition is_rooted :: "string \<Rightarrow> bool" where
  "is_rooted p \<longleftrightarrow> (case p of [] \<Rightarrow> False | c # _ \<Rightarrow> c = CHR ''/'')"

definition clean_elems :: "string \<Rightarrow> string list" where
  "clean_elems p = rev (foldl (clean_step (is_rooted p)) [] (split_on (CHR ''/'') p))"

definition clean :: "string \<Rightarrow> string" where
  "clean p =
     (if is_rooted p then ''/'' @ join ''/'' (clean_elems p)
      else if clean_elems p = [] then ''.''
      else join ''/'' (clean_elems p))"

text \<open>\<open>path.Join\<close> ignores empty arguments and cleans the rest.\<close>

definition path_join :: "string list \<Rightarrow> string" where
  "path_join ps = (let qs = filter (\<lambda>p. p \<noteq> []) ps in if qs = [] then [] else clean (join ''/'' qs))"

definition plain_elem :: "string \<Rightarrow> bool" where
  "plain_elem c \<longleftrightarrow> c \<noteq> [] \<and> c \<noteq> ''.'' \<and> c \<noteq> ''..'' \<and> CHR ''/'' \<notin> set c"

lemma clean_step_plain:
  assumes "\<forall>c \<in> set st. plain_elem c" and "CHR ''/'' \<notin> set c"
  shows "\<forall>x \<in> set (clean_step True st c). plain_elem x"
  using assms by (cases st) (simp_all add: plain_elem_def)

lemma foldl_clean_step_plain:
  assumes "\<forall>c \<in> set cs. CHR ''/'' \<notin> set c" and "\<forall>c \<in> set st. plain_elem c"
  shows "\<forall>c \<in> set (foldl (clean_step True) st cs). plain_elem c"
  using assms
proof (induction cs arbitrary: st)
  case (Cons c cs)
  have "\<forall>x \<in> set (clean_step True st c). plain_elem x"
    using Cons.prems by (intro clean_step_plain) auto
  with Cons show ?case by (simp del: clean_step.simps)
qed simp

text \<open>A cleaned rooted path has no empty, \<open>.\<close> or \<open>..\<close> element.\<close>

lemma clean_elems_rooted:
  assumes "is_rooted p" and "c \<in> set (clean_elems p)"
  shows "plain_elem c"
proof -
  have "\<forall>c \<in> set (foldl (clean_step True) [] (split_on (CHR ''/'') p)). plain_elem c"
    by (rule foldl_clean_step_plain) (auto dest: split_on_no_sep)
  with assms show ?thesis by (simp add: clean_elems_def)
qed

lemma clean_rooted: "is_rooted p \<Longrightarrow> is_rooted (clean p)"
  by (simp add: clean_def is_rooted_def)

lemma split_clean_rooted:
  assumes "is_rooted p"
  shows "split_on (CHR ''/'') (clean p) = [] # (if clean_elems p = [] then [[]] else clean_elems p)"
proof (cases "clean_elems p = []")
  case True
  with assms show ?thesis by (simp add: clean_def)
next
  case False
  then have "split_on (CHR ''/'') (join ''/'' (clean_elems p)) = clean_elems p"
    using clean_elems_rooted [OF assms] by (intro split_on_join) (auto simp: plain_elem_def)
  with assms False show ?thesis by (simp add: clean_def)
qed

lemma clean_rooted_no_dotdot:
  assumes "is_rooted p"
  shows "''..'' \<notin> set (split_on (CHR ''/'') (clean p))"
  using clean_elems_rooted [OF assms]
  by (auto simp: split_clean_rooted [OF assms] plain_elem_def split: if_splits)

text \<open>Joining plain elements to a rooted path makes a path that is clean already.\<close>

lemma foldl_clean_step_id: "\<forall>c \<in> set cs. plain_elem c \<Longrightarrow> foldl (clean_step True) st cs = rev cs @ st"
  by (induction cs arbitrary: st) (auto simp: plain_elem_def)

lemma clean_plain:
  assumes "\<forall>c \<in> set cs. plain_elem c" and "cs \<noteq> []"
  shows "clean (''/'' @ join ''/'' cs) = ''/'' @ join ''/'' cs"
proof -
  have "split_on CHR ''/'' (join ''/'' cs) = cs"
    using assms by (intro split_on_join) (auto simp: plain_elem_def)
  then have "clean_elems (''/'' @ join ''/'' cs) = cs"
    using assms(1) by (simp add: clean_elems_def is_rooted_def foldl_clean_step_id)
  then show ?thesis
    by (simp add: clean_def is_rooted_def)
qed

subsection \<open>Maps in the order of their keys\<close>

text \<open>
  \<open>fmt\<close> and \<open>encoding/json\<close> print a map in the order of its keys; \<open>show_map\<close> is what the
  verb \<open>%v\<close> gives for a \<open>map[string]string\<close>.
\<close>

definition sorted_bindings :: "smap \<Rightarrow> smap" where
  "sorted_bindings m = sort_key fst m"

lemma mset_sorted_bindings [simp]: "mset (sorted_bindings m) = mset m"
  by (simp add: sorted_bindings_def)

lemma set_sorted_bindings [simp]: "set (sorted_bindings m) = set m"
  by (simp add: sorted_bindings_def)

text \<open>The order in which the bindings were made does not show.\<close>

lemma sorted_bindings_unique:
  assumes "mset m = mset m'" and "smap_wf m"
  shows "sorted_bindings m = sorted_bindings m'"
  unfolding sorted_bindings_def
proof (rule sort_key_inj_key_eq)
  show "inj_on fst (set m)"
    using assms(2) by (simp add: smap_wf_def distinct_map)
  show "mset m = mset (sort_key fst m')"
    using assms(1) by simp
qed simp

definition show_map :: "smap \<Rightarrow> string" where
  "show_map m = sprintf [''map['', join '' '' (map (\<lambda>(k, v). k @ '':'' @ v) (sorted_bindings m)), '']'']"

lemmas string_defs [string_eval] =
  to_lower_def lower_char_def equal_fold_def is_space_def trim_space_def has_prefix_def has_suffix_def
  trim_prefix_def trim_suffix_def split_n2_def char_of_def is_rooted_def

end
