(* ===== verification/World.thy ===== *)
theory World
  imports GoStrings
begin

section \<open>The outside of the program: services, operating system, other processes\<close>

text \<open>
  Code that is not in the repository is reached through an environment: a record of reply
  functions, one per call that the program makes to the COS SDK (\<open>cos_env\<close>), to the Kubernetes
  API (\<open>k8s_env\<close>) and to the operating system: files (\<open>fs_env\<close>), processes
  (\<open>proc_env\<close>), sockets (\<open>net_env\<close>). A reply may
  depend on the history of all earlier calls. Every call is recorded in the history as an
  \<open>event\<close> with its arguments and its reply. Nothing is assumed of an environment here; a
  theorem that needs an assumption states it.
\<close>


subsection \<open>Data that passes over the boundary\<close>

text \<open>Credentials and connection of one COS session (\<open>aws.Config\<close>).\<close>

datatype sdk_creds =
    IamCreds (token_url: string) (iam_api_key: string) (instance_id: string)
  | StaticCreds (static_access: string) (static_secret: string)

record conn =
  conn_endpoint :: string
  conn_region :: string
  conn_creds :: sdk_creds

text \<open>Authenticator and URL of one resource-configuration client.\<close>

record rc_conn =
  rc_api_key :: string
  rc_iam_url :: string
  rc_url :: string

text \<open>
  The parts of the Kubernetes objects that the program reads. A pointer that may be nil is an
  option: \<open>pv_csi\<close> is \<open>pv.Spec.CSI\<close>, \<open>csi_secret_ref\<close> is
  \<open>NodePublishSecretRef\<close> (name and namespace), \<open>pv_claim_ns\<close> the namespace of
  \<open>pv.Spec.ClaimRef\<close>. \<open>qty_int64\<close> is what \<open>Quantity.AsInt64\<close> returns.
\<close>

record csi_source =
  volume_attributes :: smap
  csi_secret_ref :: "(string \<times> string) option"

record quantity =
  qty_int64 :: "int option"

record pv =
  pv_csi :: "csi_source option"
  pv_capacity :: quantity
  pv_claim_ns :: "string option"

record pvc =
  pvc_annotations :: smap

record secret =
  secret_name :: string
  secret_data :: smap

record node =
  node_labels :: smap
  node_os_image :: string

text \<open>Flags of the \<open>umount\<close> system call that the program passes.\<close>

datatype umount_flag = NoFlag | MNT_DETACH | MNT_FORCE


subsection \<open>Events\<close>

datatype cos_event =
    EvNewSession conn "unit res"
  | EvHeadBucket string "unit res"
  | EvCreateBucket string "(string \<times> string) option" "unit res"
  | EvListObjects string "string list res"
  | EvListObjectsV2 string string "string list res"
  | EvDeleteObject string string "unit res"
  | EvDeleteBucket string "unit res"
  | EvPutVersioning string string "unit res"
  | EvNewResourceConfig rc_conn "unit res"
  | EvUpdateBucketConfig rc_conn string int "unit res"
  | EvGetBucketConfig rc_conn string "int option res"

datatype k8s_event =
    EvInClusterConfig "unit res"
  | EvNewForConfig "unit res"
  | EvGetPV string "pv res"
  | EvGetPVC string string "pvc res"
  | EvGetSecret string string "secret res"
  | EvGetNode string "node res"
  | EvGetConfigMap string string "smap res"

datatype fs_event =
    EvMountpoint string "string \<times> gerror option"
  | EvFsInfo string "(int \<times> int \<times> int \<times> int \<times> int \<times> int) res"
  | EvMkdirAll string "unit res"
  | EvStat string "bool res"
  | EvRemove string "unit res"
  | EvRemoveAll string "unit res"
  | EvOpenFile string "unit res"
  | EvCreateFile string "unit res"
  | EvWriteString string string "unit res"
  | EvClose string "unit res"
  | EvChmod string "unit res"
  | EvChown string int int "unit res"

datatype proc_event =
    EvGetenv string string
  | EvGetwd "string res"
  | EvNow string
  | EvSleep nat
  | EvUnmount string umount_flag "unit res"
  | EvIsMountPoint string "bool res"
  | EvCmdStart string "string list" "unit res"
  | EvCmdWait string "unit res"
  | EvCancel
  | EvNotify
  | EvProcesses "nat list res"
  | EvCmdline nat "string res"
  | EvFindProcess nat "unit res"
  | EvSignal nat "unit res"
  | EvKill nat "unit res"
  | EvSchedule nat

datatype net_event =
    EvDial string "unit res"
  | EvConnClose string "unit res"
  | EvHttpPost string string string "(nat \<times> string) res"
  | EvListen string string "unit res"
  | EvServe "unit res"
  | EvRegister string
  | EvStopServer bool
  | EvHandle string
  | EvListenAndServe string "unit res"

datatype event = Cos cos_event | K8s k8s_event | Fs fs_event | Proc proc_event | Net net_event

type_synonym hist = "event list"

type_synonym 'a run = "(event, 'a) io"


subsection \<open>Reply functions\<close>

record cos_env =
  sdk_new_session :: "hist \<Rightarrow> conn \<Rightarrow> unit res"
  sdk_head_bucket :: "hist \<Rightarrow> conn \<Rightarrow> string \<Rightarrow> unit res"
  sdk_create_bucket :: "hist \<Rightarrow> conn \<Rightarrow> string \<Rightarrow> (string \<times> string) option \<Rightarrow> unit res"
  sdk_list_objects :: "hist \<Rightarrow> conn \<Rightarrow> string \<Rightarrow> string list res"
  sdk_list_objects_v2 :: "hist \<Rightarrow> conn \<Rightarrow> string \<Rightarrow> string \<Rightarrow> string list res"
  sdk_delete_object :: "hist \<Rightarrow> conn \<Rightarrow> string \<Rightarrow> string \<Rightarrow> unit res"
  sdk_delete_bucket :: "hist \<Rightarrow> conn \<Rightarrow> string \<Rightarrow> unit res"
  sdk_put_versioning :: "hist \<Rightarrow> conn \<Rightarrow> string \<Rightarrow> string \<Rightarrow> unit res"
  sdk_new_rc :: "hist \<Rightarrow> rc_conn \<Rightarrow> unit res"
  sdk_update_config :: "hist \<Rightarrow> rc_conn \<Rightarrow> string \<Rightarrow> int \<Rightarrow> unit res"
  sdk_get_config :: "hist \<Rightarrow> rc_conn \<Rightarrow> string \<Rightarrow> int option res"

record k8s_env =
  api_in_cluster_config :: "hist \<Rightarrow> unit res"
  api_new_for_config :: "hist \<Rightarrow> unit res"
  api_get_pv :: "hist \<Rightarrow> string \<Rightarrow> pv res"
  api_get_pvc :: "hist \<Rightarrow> string \<Rightarrow> string \<Rightarrow> pvc res"
  api_get_secret :: "hist \<Rightarrow> string \<Rightarrow> string \<Rightarrow> secret res"
  api_get_node :: "hist \<Rightarrow> string \<Rightarrow> node res"
  api_get_config_map :: "hist \<Rightarrow> string \<Rightarrow> string \<Rightarrow> smap res"

record fs_env =
  sys_mountpoint :: "hist \<Rightarrow> string \<Rightarrow> string \<times> gerror option"
  sys_fs_info :: "hist \<Rightarrow> string \<Rightarrow> (int \<times> int \<times> int \<times> int \<times> int \<times> int) res"
  sys_mkdir_all :: "hist \<Rightarrow> string \<Rightarrow> unit res"
  sys_stat :: "hist \<Rightarrow> string \<Rightarrow> bool res"
  sys_remove :: "hist \<Rightarrow> string \<Rightarrow> unit res"
  sys_remove_all :: "hist \<Rightarrow> string \<Rightarrow> unit res"
  sys_open_file :: "hist \<Rightarrow> string \<Rightarrow> unit res"
  sys_create_file :: "hist \<Rightarrow> string \<Rightarrow> unit res"
  sys_write_string :: "hist \<Rightarrow> string \<Rightarrow> string \<Rightarrow> unit res"
  sys_close :: "hist \<Rightarrow> string \<Rightarrow> unit res"
  sys_chmod :: "hist \<Rightarrow> string \<Rightarrow> unit res"
  sys_chown :: "hist \<Rightarrow> string \<Rightarrow> int \<Rightarrow> int \<Rightarrow> unit res"

record proc_env =
  sys_getenv :: "hist \<Rightarrow> string \<Rightarrow> string"
  sys_getwd :: "hist \<Rightarrow> string res"
  sys_now :: "hist \<Rightarrow> string"
  sys_unmount :: "hist \<Rightarrow> string \<Rightarrow> umount_flag \<Rightarrow> unit res"
  sys_is_mount_point :: "hist \<Rightarrow> string \<Rightarrow> bool res"
  sys_cmd_start :: "hist \<Rightarrow> string \<Rightarrow> string list \<Rightarrow> unit res"
  sys_cmd_wait :: "hist \<Rightarrow> string \<Rightarrow> unit res"
  sys_processes :: "hist \<Rightarrow> nat list res"
  sys_cmdline :: "hist \<Rightarrow> nat \<Rightarrow> string res"
  sys_find_process :: "hist \<Rightarrow> nat \<Rightarrow> unit res"
  sys_signal :: "hist \<Rightarrow> nat \<Rightarrow> unit res"
  sys_kill :: "hist \<Rightarrow> nat \<Rightarrow> unit res"
  sys_schedule :: "hist \<Rightarrow> nat"

record net_env =
  sys_dial :: "hist \<Rightarrow> string \<Rightarrow> unit res"
  sys_conn_close :: "hist \<Rightarrow> string \<Rightarrow> unit res"
  sys_http_post :: "hist \<Rightarrow> string \<Rightarrow> string \<Rightarrow> string \<Rightarrow> (nat \<times> string) res"
  sys_listen :: "hist \<Rightarrow> string \<Rightarrow> string \<Rightarrow> unit res"
  sys_serve :: "hist \<Rightarrow> unit res"
  sys_listen_and_serve :: "hist \<Rightarrow> string \<Rightarrow> unit res"

record env =
  cos :: cos_env
  k8s :: k8s_env
  fs :: fs_env
  proc :: proc_env
  net :: net_env


subsection \<open>Which part of the outside an operation talks to\<close>

fun is_cos :: "event \<Rightarrow> bool" where
  "is_cos (Cos _) = True"
| "is_cos _ = False"

fun is_k8s :: "event \<Rightarrow> bool" where
  "is_k8s (K8s _) = True"
| "is_k8s _ = False"

fun is_fs :: "event \<Rightarrow> bool" where
  "is_fs (Fs _) = True"
| "is_fs _ = False"

fun is_proc :: "event \<Rightarrow> bool" where
  "is_proc (Proc _) = True"
| "is_proc _ = False"

fun is_net :: "event \<Rightarrow> bool" where
  "is_net (Net _) = True"
| "is_net _ = False"

text \<open>The events that destroy data of bucket \<open>b\<close>.\<close>

fun deletes_bucket :: "string \<Rightarrow> event \<Rightarrow> bool" where
  "deletes_bucket b (Cos (EvDeleteObject b' _ _)) \<longleftrightarrow> b' = b"
| "deletes_bucket b (Cos (EvDeleteBucket b' _)) \<longleftrightarrow> b' = b"
| "deletes_bucket _ _ \<longleftrightarrow> False"

text \<open>The path that an event removes.\<close>

fun removes :: "event \<Rightarrow> string option" where
  "removes (Fs (EvRemoveAll p _)) = Some p"
| "removes (Fs (EvRemove p _)) = Some p"
| "removes _ = None"

text \<open>The successful creation of bucket \<open>b\<close>.\<close>

fun creates_bucket :: "string \<Rightarrow> event \<Rightarrow> bool" where
  "creates_bucket b (Cos (EvCreateBucket b' _ (Inr _))) \<longleftrightarrow> b' = b"
| "creates_bucket _ _ \<longleftrightarrow> False"

end
