(* ===== verification/Constants.thy ===== *)
theory Constants
  imports GoPrelude
begin

section \<open>Constants\<close>

text \<open>
  The constants of \<^verbatim>\<open>pkg/constants/constants.go\<close> and \<^verbatim>\<open>config/driver-config.go\<close> that
  the rest of the model refers to, under the names of the sources. Durations are in milliseconds.
\<close>

definition PublicIAMEndpoint :: string where
  "PublicIAMEndpoint = ''https://iam.cloud.ibm.com''"

definition PrivateIAMEndpoint :: string where
  "PrivateIAMEndpoint = ''https://private.iam.cloud.ibm.com''"

definition DefaultVolumesPerNode :: int where
  "DefaultVolumesPerNode = 0"

definition KPEncryptionAlgorithm :: string where
  "KPEncryptionAlgorithm = ''AES256''"

definition S3FS :: string where
  "S3FS = ''s3fs''"

definition RClone :: string where
  "RClone = ''rclone''"

definition DefaultNamespace :: string where
  "DefaultNamespace = ''default''"

definition IAMEP :: string where
  "IAMEP = ''https://private.iam.cloud.ibm.com/identity/token''"

definition ResourceConfigEPPrivate :: string where
  "ResourceConfigEPPrivate = ''https://config.private.cloud-object-storage.cloud.ibm.com/v1''"

definition ResourceConfigEPDirect :: string where
  "ResourceConfigEPDirect = ''https://config.direct.cloud-object-storage.cloud.ibm.com/v1''"

definition NodeZoneLabel :: string where
  "NodeZoneLabel = ''topology.kubernetes.io/zone''"

definition NodeRegionLabel :: string where
  "NodeRegionLabel = ''topology.kubernetes.io/region''"

definition COSCSIMounterSocketPath :: string where
  "COSCSIMounterSocketPath = ''/var/lib/coscsi-sock/coscsi.sock''"

definition COSCSIMounterSocketPathEnv :: string where
  "COSCSIMounterSocketPathEnv = ''COS_CSI_MOUNTER_SOCKET''"

definition MounterConfigPathOnHost :: string where
  "MounterConfigPathOnHost = ''/var/lib/coscsi-config''"

definition MounterConfigPathOnPodS3fs :: string where
  "MounterConfigPathOnPodS3fs = ''/var/lib/ibmc-s3fs''"

definition MounterConfigPathOnPodRclone :: string where
  "MounterConfigPathOnPodRclone = ''/root/.config/rclone''"

definition Interval :: nat where
  "Interval = 500"

definition PVCNameKey :: string where
  "PVCNameKey = ''csi.storage.k8s.io/pvc/name''"

definition PVCNamespaceKey :: string where
  "PVCNamespaceKey = ''csi.storage.k8s.io/pvc/namespace''"

definition SecretNameKey :: string where
  "SecretNameKey = ''cos.csi.driver/secret''"

definition BucketVersioning :: string where
  "BucketVersioning = ''bucketVersioning''"

definition QuotaLimitKey :: string where
  "QuotaLimitKey = ''quotaLimit''"

definition ResourceConfigApiKey :: string where
  "ResourceConfigApiKey = ''resourceConfigApiKey''"

definition IsNodeServer :: string where
  "IsNodeServer = ''IS_NODE_SERVER''"

definition KubeNodeName :: string where
  "KubeNodeName = ''KUBE_NODE_NAME''"

definition MaxVolumesPerNodeEnv :: string where
  "MaxVolumesPerNodeEnv = ''MAX_VOLUMES_PER_NODE''"

definition CipherSuitesKey :: string where
  "CipherSuitesKey = ''cipher_suites''"

definition SocketDir :: string where
  "SocketDir = ''/var/lib/coscsi-sock''"

definition SocketFile :: string where
  "SocketFile = ''coscsi.sock''"

definition CSIDriverName :: string where
  "CSIDriverName = ''cos.s3.csi.ibm.io''"

definition VendorVersion :: string where
  "VendorVersion = ''1.1.2''"

lemmas key_defs =
  PVCNameKey_def PVCNamespaceKey_def SecretNameKey_def BucketVersioning_def QuotaLimitKey_def
  ResourceConfigApiKey_def CipherSuitesKey_def

lemmas mounter_name_defs = S3FS_def RClone_def

end
