(* ===== verification/SampleEnv.thy ===== *)
theory SampleEnv
  imports World
begin

section \<open>An environment to evaluate with\<close>

text \<open>
  An environment in which every call succeeds, for the witnesses: buckets are accessible, hold no
  objects, and so on. The witnesses change single replies of it.
\<close>

definition cos_ok :: cos_env where
  "cos_ok =
     \<lparr> sdk_new_session = (\<lambda>_ _. Inr ()),
       sdk_head_bucket = (\<lambda>_ _ _. Inr ()),
       sdk_create_bucket = (\<lambda>_ _ _ _. Inr ()),
       sdk_list_objects = (\<lambda>_ _ _. Inr []),
       sdk_list_objects_v2 = (\<lambda>_ _ _ _. Inr []),
       sdk_delete_object = (\<lambda>_ _ _ _. Inr ()),
       sdk_delete_bucket = (\<lambda>_ _ _. Inr ()),
       sdk_put_versioning = (\<lambda>_ _ _ _. Inr ()),
       sdk_new_rc = (\<lambda>_ _. Inr ()),
       sdk_update_config = (\<lambda>_ _ _ _. Inr ()),
       sdk_get_config = (\<lambda>_ _ _. Inr (Some 0)) \<rparr>"

definition k8s_ok :: k8s_env where
  "k8s_ok =
     \<lparr> api_in_cluster_config = (\<lambda>_. Inr ()),
       api_new_for_config = (\<lambda>_. Inr ()),
       api_get_pv = (\<lambda>_ _. Inl (Plain ''not found'')),
       api_get_pvc = (\<lambda>_ _ _. Inl (Plain ''not found'')),
       api_get_secret = (\<lambda>_ _ _. Inl (Plain ''not found'')),
       api_get_node = (\<lambda>_ _. Inl (Plain ''not found'')),
       api_get_config_map = (\<lambda>_ _ _. Inr []) \<rparr>"

definition fs_ok :: fs_env where
  "fs_ok =
     \<lparr> sys_mountpoint = (\<lambda>_ p. (p @ '' is a mountpoint'', None)),
       sys_fs_info = (\<lambda>_ _. Inr (0, 0, 0, 0, 0, 0)),
       sys_mkdir_all = (\<lambda>_ _. Inr ()),
       sys_stat = (\<lambda>_ _. Inr False),
       sys_remove = (\<lambda>_ _. Inr ()),
       sys_remove_all = (\<lambda>_ _. Inr ()),
       sys_open_file = (\<lambda>_ _. Inr ()),
       sys_create_file = (\<lambda>_ _. Inr ()),
       sys_write_string = (\<lambda>_ _ _. Inr ()),
       sys_close = (\<lambda>_ _. Inr ()),
       sys_chmod = (\<lambda>_ _. Inr ()),
       sys_chown = (\<lambda>_ _ _ _. Inr ()) \<rparr>"

definition proc_ok :: proc_env where
  "proc_ok =
     \<lparr> sys_getenv = (\<lambda>_ _. []),
       sys_getwd = (\<lambda>_. Inr ''/''),
       sys_now = (\<lambda>_. ''20250102030405''),
       sys_unmount = (\<lambda>_ _ _. Inr ()),
       sys_is_mount_point = (\<lambda>_ _. Inr True),
       sys_cmd_start = (\<lambda>_ _ _. Inr ()),
       sys_cmd_wait = (\<lambda>_ _. Inr ()),
       sys_processes = (\<lambda>_. Inr []),
       sys_cmdline = (\<lambda>_ _. Inr []),
       sys_find_process = (\<lambda>_ _. Inr ()),
       sys_signal = (\<lambda>_ _. Inr ()),
       sys_kill = (\<lambda>_ _. Inr ()),
       sys_schedule = (\<lambda>_. 0) \<rparr>"

definition net_ok :: net_env where
  "net_ok =
     \<lparr> sys_dial = (\<lambda>_ _. Inr ()),
       sys_conn_close = (\<lambda>_ _. Inr ()),
       sys_http_post = (\<lambda>_ _ _ _. Inr (200, [])),
       sys_listen = (\<lambda>_ _ _. Inr ()),
       sys_serve = (\<lambda>_. Inr ()),
       sys_listen_and_serve = (\<lambda>_ _. Inr ()) \<rparr>"

definition env_ok :: env where
  "env_ok = \<lparr> cos = cos_ok, k8s = k8s_ok, fs = fs_ok, proc = proc_ok, net = net_ok \<rparr>"

lemmas env_ok_defs = env_ok_def cos_ok_def k8s_ok_def fs_ok_def proc_ok_def net_ok_def

end
