(* ===== verification/SysCalls.thy ===== *)
theory SysCalls
  imports World Constants SampleEnv
begin

section \<open>Calls of the operating system\<close>

text \<open>
  One operation per call that the program makes to package os, os/exec, syscall, net and to the
  process and mount libraries: the reply comes from the environment and is recorded.
\<close>

definition tell :: "event \<Rightarrow> unit run" where
  "tell e = ask (\<lambda>_. ()) (\<lambda>_. e)"

lemma run_tell [simp]: "run_state (tell e) h = ((), h @ [e])"
  by (simp add: tell_def)

lemma yields_tell: "Q () [e] \<Longrightarrow> yields (tell e) Q"
  unfolding tell_def by (rule yields_ask) simp


text \<open>A nil pointer that the code dereferences without a check is a panic.\<close>

definition nil_deref :: string where
  "nil_deref = ''invalid memory address or nil pointer dereference''"

definition deref_ptr :: "'a option \<Rightarrow> 'a outcome run" where
  "deref_ptr p = (case p of None \<Rightarrow> panic nil_deref | Some x \<Rightarrow> ret x)"


subsection \<open>Files\<close>

definition sys_run_mountpoint :: "env \<Rightarrow> string \<Rightarrow> (string \<times> gerror option) run" where
  "sys_run_mountpoint env path =
     ask (\<lambda>h. sys_mountpoint (fs env) h path) (\<lambda>r. Fs (EvMountpoint path r))"

definition MkdirAll :: "env \<Rightarrow> string \<Rightarrow> unit outcome run" where
  "MkdirAll env path = ask_res (\<lambda>h. sys_mkdir_all (fs env) h path) (\<lambda>r. Fs (EvMkdirAll path r))"

text \<open>\<open>os.Stat\<close>; of the file information the program reads whether it is a directory.\<close>

definition os_Stat :: "env \<Rightarrow> string \<Rightarrow> bool outcome run" where
  "os_Stat env path = ask_res (\<lambda>h. sys_stat (fs env) h path) (\<lambda>r. Fs (EvStat path r))"

definition os_Remove :: "env \<Rightarrow> string \<Rightarrow> unit outcome run" where
  "os_Remove env path = ask_res (\<lambda>h. sys_remove (fs env) h path) (\<lambda>r. Fs (EvRemove path r))"

definition os_RemoveAll :: "env \<Rightarrow> string \<Rightarrow> unit outcome run" where
  "os_RemoveAll env path = ask_res (\<lambda>h. sys_remove_all (fs env) h path) (\<lambda>r. Fs (EvRemoveAll path r))"

definition os_OpenFile :: "env \<Rightarrow> string \<Rightarrow> unit outcome run" where
  "os_OpenFile env path = ask_res (\<lambda>h. sys_open_file (fs env) h path) (\<lambda>r. Fs (EvOpenFile path r))"

definition os_Create :: "env \<Rightarrow> string \<Rightarrow> unit outcome run" where
  "os_Create env path = ask_res (\<lambda>h. sys_create_file (fs env) h path) (\<lambda>r. Fs (EvCreateFile path r))"

definition file_WriteString :: "env \<Rightarrow> string \<Rightarrow> string \<Rightarrow> unit outcome run" where
  "file_WriteString env path s =
     ask_res (\<lambda>h. sys_write_string (fs env) h path s) (\<lambda>r. Fs (EvWriteString path s r))"

definition file_Close :: "env \<Rightarrow> string \<Rightarrow> unit outcome run" where
  "file_Close env path = ask_res (\<lambda>h. sys_close (fs env) h path) (\<lambda>r. Fs (EvClose path r))"

definition os_Chmod :: "env \<Rightarrow> string \<Rightarrow> unit outcome run" where
  "os_Chmod env path = ask_res (\<lambda>h. sys_chmod (fs env) h path) (\<lambda>r. Fs (EvChmod path r))"

definition os_Chown :: "env \<Rightarrow> string \<Rightarrow> int \<Rightarrow> int \<Rightarrow> unit outcome run" where
  "os_Chown env path uid gid =
     ask_res (\<lambda>h. sys_chown (fs env) h path uid gid) (\<lambda>r. Fs (EvChown path uid gid r))"

fun IsNotExist :: "gerror \<Rightarrow> bool" where
  "IsNotExist (PathErr n _) = (n = ENOENT)"
| "IsNotExist (LinkErr n _) = (n = ENOENT)"
| "IsNotExist (SyscallErr n _) = (n = ENOENT)"
| "IsNotExist _ = False"


subsection \<open>Processes and mounts\<close>

definition os_Getenv :: "env \<Rightarrow> string \<Rightarrow> string run" where
  "os_Getenv env k = ask (\<lambda>h. sys_getenv (proc env) h k) (\<lambda>r. Proc (EvGetenv k r))"

definition os_Getwd :: "env \<Rightarrow> string outcome run" where
  "os_Getwd env = ask_res (\<lambda>h. sys_getwd (proc env) h) (\<lambda>r. Proc (EvGetwd r))"

definition sys_time :: "env \<Rightarrow> string run" where
  "sys_time env = ask (\<lambda>h. sys_now (proc env) h) (\<lambda>t. Proc (EvNow t))"

definition time_Sleep :: "nat \<Rightarrow> unit run" where
  "time_Sleep ms = tell (Proc (EvSleep ms))"

definition syscall_Unmount :: "env \<Rightarrow> string \<Rightarrow> umount_flag \<Rightarrow> unit outcome run" where
  "syscall_Unmount env path flag =
     ask_res (\<lambda>h. sys_unmount (proc env) h path flag) (\<lambda>r. Proc (EvUnmount path flag r))"

definition k8s_IsMountPoint :: "env \<Rightarrow> string \<Rightarrow> bool res run" where
  "k8s_IsMountPoint env path =
     ask (\<lambda>h. sys_is_mount_point (proc env) h path) (\<lambda>r. Proc (EvIsMountPoint path r))"

definition cmd_Start :: "env \<Rightarrow> string \<Rightarrow> string list \<Rightarrow> unit outcome run" where
  "cmd_Start env comm args =
     ask_res (\<lambda>h. sys_cmd_start (proc env) h comm args) (\<lambda>r. Proc (EvCmdStart comm args r))"

definition cmd_Wait :: "env \<Rightarrow> string \<Rightarrow> unit res run" where
  "cmd_Wait env comm = ask (\<lambda>h. sys_cmd_wait (proc env) h comm) (\<lambda>r. Proc (EvCmdWait comm r))"

definition ctx_cancel :: "unit run" where
  "ctx_cancel = tell (Proc EvCancel)"

definition ps_Processes :: "env \<Rightarrow> nat list outcome run" where
  "ps_Processes env = ask_res (\<lambda>h. sys_processes (proc env) h) (\<lambda>r. Proc (EvProcesses r))"

definition read_cmdline :: "env \<Rightarrow> nat \<Rightarrow> string outcome run" where
  "read_cmdline env pid =
     ask_res (\<lambda>h. sys_cmdline (proc env) h pid) (\<lambda>r. Proc (EvCmdline pid r))"

definition os_FindProcess :: "env \<Rightarrow> nat \<Rightarrow> unit outcome run" where
  "os_FindProcess env pid =
     ask_res (\<lambda>h. sys_find_process (proc env) h pid) (\<lambda>r. Proc (EvFindProcess pid r))"

definition process_Signal :: "env \<Rightarrow> nat \<Rightarrow> unit outcome run" where
  "process_Signal env pid =
     ask_res (\<lambda>h. sys_signal (proc env) h pid) (\<lambda>r. Proc (EvSignal pid r))"

definition process_Kill :: "env \<Rightarrow> nat \<Rightarrow> unit outcome run" where
  "process_Kill env pid = ask_res (\<lambda>h. sys_kill (proc env) h pid) (\<lambda>r. Proc (EvKill pid r))"

text \<open>Which of the goroutines that can go on does so: the choice of the Go scheduler.\<close>

definition go_schedule :: "env \<Rightarrow> nat run" where
  "go_schedule env = ask (\<lambda>h. sys_schedule (proc env) h) (\<lambda>n. Proc (EvSchedule n))"


subsection \<open>Sockets\<close>

definition net_Dial :: "env \<Rightarrow> string \<Rightarrow> unit outcome run" where
  "net_Dial env path = ask_res (\<lambda>h. sys_dial (net env) h path) (\<lambda>r. Net (EvDial path r))"

definition conn_Close :: "env \<Rightarrow> string \<Rightarrow> unit outcome run" where
  "conn_Close env path = ask_res (\<lambda>h. sys_conn_close (net env) h path) (\<lambda>r. Net (EvConnClose path r))"

text \<open>
  One POST over the unix socket: the error of making, sending or reading, or the status code and
  the body.
\<close>

definition http_Post :: "env \<Rightarrow> string \<Rightarrow> string \<Rightarrow> string \<Rightarrow> (nat \<times> string) outcome run" where
  "http_Post env sock url payload =
     ask_res (\<lambda>h. sys_http_post (net env) h sock url payload) (\<lambda>r. Net (EvHttpPost sock url payload r))"

definition net_Listen :: "env \<Rightarrow> string \<Rightarrow> string \<Rightarrow> unit outcome run" where
  "net_Listen env n addr = ask_res (\<lambda>h. sys_listen (net env) h n addr) (\<lambda>r. Net (EvListen n addr r))"

definition http_ListenAndServe :: "env \<Rightarrow> string \<Rightarrow> unit outcome run" where
  "http_ListenAndServe env addr =
     ask_res (\<lambda>h. sys_listen_and_serve (net env) h addr) (\<lambda>r. Net (EvListenAndServe addr r))"

definition server_Serve :: "env \<Rightarrow> unit outcome run" where
  "server_Serve env = ask_res (\<lambda>h. sys_serve (net env) h) (\<lambda>r. Net (EvServe r))"

lemmas sys_fs_defs =
  sys_run_mountpoint_def MkdirAll_def os_Stat_def os_Remove_def os_RemoveAll_def os_OpenFile_def
  os_Create_def file_WriteString_def file_Close_def os_Chmod_def os_Chown_def

lemmas sys_proc_defs =
  os_Getenv_def os_Getwd_def sys_time_def time_Sleep_def syscall_Unmount_def k8s_IsMountPoint_def
  cmd_Start_def cmd_Wait_def ctx_cancel_def ps_Processes_def read_cmdline_def os_FindProcess_def
  process_Signal_def process_Kill_def go_schedule_def

lemmas sys_net_defs =
  net_Dial_def conn_Close_def http_Post_def net_Listen_def server_Serve_def

end
