(* ===== verification/S3Client.thy ===== *)
theory S3Client
  imports SysCalls
begin

section \<open>COS sessions: pkg/s3client/s3client.go\<close>

text \<open>
  \<open>ObjectStorageCredentials\<close> and the interface \<open>ObjectStorageSession\<close> are records; the
  methods of \<open>COSSession\<close> are functions of the environment and of the connection \<open>conn\<close>
  that \<open>NewObjectStorageSession\<close> makes. What the clients of a session rely on is the locale
  \<open>object_storage_session\<close>, and \<open>COSSession\<close> is an instance of it.
\<close>


subsection \<open>Data and interface\<close>

record ObjectStorageCredentials =
  cred_AuthType :: string
  cred_AccessKey :: string
  cred_SecretKey :: string
  cred_APIKey :: string
  cred_ServiceInstanceID :: string
  cred_KpRootKeyCRN :: string
  cred_IAMEndpoint :: string

record ObjectStorageSession =
  CheckBucketAccess :: "string \<Rightarrow> unit outcome run"
  CheckObjectPathExistence :: "string \<Rightarrow> string \<Rightarrow> bool outcome run"
  CreateBucket :: "string \<Rightarrow> string \<Rightarrow> string outcome run"
  DeleteBucket :: "string \<Rightarrow> unit outcome run"
  SetBucketVersioning :: "string \<Rightarrow> bool \<Rightarrow> unit outcome run"
  UpdateQuotaLimit :: "int \<Rightarrow> string \<Rightarrow> string \<Rightarrow> string \<Rightarrow> string \<Rightarrow> unit outcome run"


subsection \<open>Calls of the SDK\<close>

definition svc_HeadBucket :: "env \<Rightarrow> conn \<Rightarrow> string \<Rightarrow> unit outcome run" where
  "svc_HeadBucket env c b =
     ask_res (\<lambda>h. sdk_head_bucket (cos env) h c b) (\<lambda>r. Cos (EvHeadBucket b r))"

definition svc_CreateBucket :: "env \<Rightarrow> conn \<Rightarrow> string \<Rightarrow> (string \<times> string) option \<Rightarrow> unit outcome run" where
  "svc_CreateBucket env c b kp =
     ask_res (\<lambda>h. sdk_create_bucket (cos env) h c b kp) (\<lambda>r. Cos (EvCreateBucket b kp r))"

definition svc_ListObjects :: "env \<Rightarrow> conn \<Rightarrow> string \<Rightarrow> string list outcome run" where
  "svc_ListObjects env c b =
     ask_res (\<lambda>h. sdk_list_objects (cos env) h c b) (\<lambda>r. Cos (EvListObjects b r))"

definition svc_ListObjectsV2 :: "env \<Rightarrow> conn \<Rightarrow> string \<Rightarrow> string \<Rightarrow> string list outcome run" where
  "svc_ListObjectsV2 env c b pre =
     ask_res (\<lambda>h. sdk_list_objects_v2 (cos env) h c b pre) (\<lambda>r. Cos (EvListObjectsV2 b pre r))"

definition svc_DeleteObject :: "env \<Rightarrow> conn \<Rightarrow> string \<Rightarrow> string \<Rightarrow> unit outcome run" where
  "svc_DeleteObject env c b k =
     ask_res (\<lambda>h. sdk_delete_object (cos env) h c b k) (\<lambda>r. Cos (EvDeleteObject b k r))"

definition svc_DeleteBucket :: "env \<Rightarrow> conn \<Rightarrow> string \<Rightarrow> unit outcome run" where
  "svc_DeleteBucket env c b =
     ask_res (\<lambda>h. sdk_delete_bucket (cos env) h c b) (\<lambda>r. Cos (EvDeleteBucket b r))"

definition svc_PutBucketVersioning :: "env \<Rightarrow> conn \<Rightarrow> string \<Rightarrow> string \<Rightarrow> unit outcome run" where
  "svc_PutBucketVersioning env c b st =
     ask_res (\<lambda>h. sdk_put_versioning (cos env) h c b st) (\<lambda>r. Cos (EvPutVersioning b st r))"

definition rc_New :: "env \<Rightarrow> rc_conn \<Rightarrow> unit outcome run" where
  "rc_New env rc =
     ask_res (\<lambda>h. sdk_new_rc (cos env) h rc) (\<lambda>r. Cos (EvNewResourceConfig rc r))"

definition rc_UpdateBucketConfig :: "env \<Rightarrow> rc_conn \<Rightarrow> string \<Rightarrow> int \<Rightarrow> unit outcome run" where
  "rc_UpdateBucketConfig env rc b quota =
     ask_res (\<lambda>h. sdk_update_config (cos env) h rc b quota) (\<lambda>r. Cos (EvUpdateBucketConfig rc b quota r))"

definition rc_GetBucketConfig :: "env \<Rightarrow> rc_conn \<Rightarrow> string \<Rightarrow> int option outcome run" where
  "rc_GetBucketConfig env rc b =
     ask_res (\<lambda>h. sdk_get_config (cos env) h rc b) (\<lambda>r. Cos (EvGetBucketConfig rc b r))"

lemmas svc_defs =
  svc_HeadBucket_def svc_CreateBucket_def svc_ListObjects_def svc_ListObjectsV2_def
  svc_DeleteObject_def svc_DeleteBucket_def svc_PutBucketVersioning_def rc_New_def
  rc_UpdateBucketConfig_def rc_GetBucketConfig_def


subsection \<open>Methods of COSSession\<close>

definition cos_CheckBucketAccess :: "env \<Rightarrow> conn \<Rightarrow> string \<Rightarrow> unit outcome run" where
  "cos_CheckBucketAccess env c bucket = svc_HeadBucket env c bucket"

definition dir_prefix :: "string \<Rightarrow> string" where
  "dir_prefix objectpath =
     (let p = trim_prefix objectpath ''/'' in if has_suffix p ''/'' then p else p @ ''/'')"

definition cos_CheckObjectPathExistence :: "env \<Rightarrow> conn \<Rightarrow> string \<Rightarrow> string \<Rightarrow> bool outcome run" where
  "cos_CheckObjectPathExistence env c bucket objectpath =
     (let p = dir_prefix objectpath
      in attempt (svc_ListObjectsV2 env c bucket p)
           (\<lambda>err. fail (Plain (sprintf [''cannot list bucket '', squote bucket, '': '', error_text err])))
           (\<lambda>contents.
              (case contents of
                 [object] \<Rightarrow> ret (object = p \<or> trim_suffix object ''/'' = p)
               | _ \<Rightarrow> ret False)))"

definition cos_CreateBucket :: "env \<Rightarrow> conn \<Rightarrow> string \<Rightarrow> string \<Rightarrow> string outcome run" where
  "cos_CreateBucket env c bucket kpRootKeyCrn =
     attempt
       (if kpRootKeyCrn \<noteq> []
        then svc_CreateBucket env c bucket (Some (kpRootKeyCrn, KPEncryptionAlgorithm))
        else svc_CreateBucket env c bucket None)
       (\<lambda>err.
          (case err of
             AwsErr code _ \<Rightarrow>
               (if code = ''BucketAlreadyOwnedByYou''
                then ret (sprintf [''bucket '', squote bucket, '' already exists''])
                else fail err)
           | _ \<Rightarrow> fail err))
       (\<lambda>_. ret [])"

fun delete_objects :: "env \<Rightarrow> conn \<Rightarrow> string \<Rightarrow> string list \<Rightarrow> unit outcome run" where
  "delete_objects env c bucket [] = ret ()"
| "delete_objects env c bucket (key # keys) =
     attempt (svc_DeleteObject env c bucket key)
       (\<lambda>err. fail (Plain (sprintf [''cannot delete object '', bucket, ''/'', key, '': '', error_text err])))
       (\<lambda>_. delete_objects env c bucket keys)"

definition cos_DeleteBucket :: "env \<Rightarrow> conn \<Rightarrow> string \<Rightarrow> unit outcome run" where
  "cos_DeleteBucket env c bucket =
     attempt (svc_ListObjects env c bucket)
       (\<lambda>err.
          (let cannot = fail (Plain (sprintf [''cannot list bucket '', squote bucket, '': '', error_text err]))
           in case err of
                AwsErr code _ \<Rightarrow> (if code = ''NoSuchBucket'' then ret () else cannot)
              | _ \<Rightarrow> cannot))
       (\<lambda>contents.
          attempt (delete_objects env c bucket contents) fail
            (\<lambda>_. svc_DeleteBucket env c bucket))"

definition cos_SetBucketVersioning :: "env \<Rightarrow> conn \<Rightarrow> string \<Rightarrow> bool \<Rightarrow> unit outcome run" where
  "cos_SetBucketVersioning env c bucket enable =
     (let status = (if enable then ''Enabled'' else ''Suspended'')
      in attempt (svc_PutBucketVersioning env c bucket status)
           (\<lambda>err. fail (Plain (sprintf [''failed to set versioning to '', dec_bool enable, '' for bucket '', squote bucket, '': '', error_text err])))
           ret)"

definition cos_UpdateQuotaLimit ::
    "env \<Rightarrow> int \<Rightarrow> string \<Rightarrow> string \<Rightarrow> string \<Rightarrow> string \<Rightarrow> unit outcome run" where
  "cos_UpdateQuotaLimit env quota apiKey bucketName cosEndpoint iamEndpoint =
     (let configEndpoint =
            (if contains (to_lower cosEndpoint) ''private''
             then ResourceConfigEPPrivate else ResourceConfigEPDirect);
          rc = \<lparr> rc_api_key = apiKey, rc_iam_url = iamEndpoint @ ''/identity/token'', rc_url = configEndpoint \<rparr>
      in attempt (rc_New env rc)
           (\<lambda>err. fail (Plain (sprintf [''failed to create resource configuration service: '', error_text err])))
           (\<lambda>_. attempt (rc_UpdateBucketConfig env rc bucketName quota)
              (\<lambda>err. fail (Plain (sprintf [''failed to update quota for bucket '', bucketName, '' to '', dec_int quota, '' bytes: '', error_text err])))
              ret))"

definition COSSession :: "env \<Rightarrow> conn \<Rightarrow> ObjectStorageSession" where
  "COSSession env c =
     \<lparr> CheckBucketAccess = cos_CheckBucketAccess env c,
       CheckObjectPathExistence = cos_CheckObjectPathExistence env c,
       CreateBucket = cos_CreateBucket env c,
       DeleteBucket = cos_DeleteBucket env c,
       SetBucketVersioning = cos_SetBucketVersioning env c,
       UpdateQuotaLimit = cos_UpdateQuotaLimit env \<rparr>"

text \<open>\<open>NewS3Client\<close> sets the logger only: every call of its session is one of a nil interface.\<close>

definition NewS3Client :: "ObjectStorageSession res" where
  "NewS3Client =
     Inr \<lparr> CheckBucketAccess = (\<lambda>_. panic nil_deref), CheckObjectPathExistence = (\<lambda>_ _. panic nil_deref),
           CreateBucket = (\<lambda>_ _. panic nil_deref), DeleteBucket = (\<lambda>_. panic nil_deref),
           SetBucketVersioning = (\<lambda>_ _. panic nil_deref),
           UpdateQuotaLimit = (\<lambda>_ _ _ _ _. panic nil_deref) \<rparr>"

text \<open>\<open>session.Must\<close> panics when \<open>NewSession\<close> fails.\<close>

definition session_conn :: "string \<Rightarrow> string \<Rightarrow> ObjectStorageCredentials \<Rightarrow> conn" where
  "session_conn endpoint locationConstraint creds =
     \<lparr> conn_endpoint = endpoint, conn_region = locationConstraint,
       conn_creds =
         (if cred_AuthType creds = ''iam''
          then IamCreds (cred_IAMEndpoint creds @ ''/identity/token'') (cred_APIKey creds) (cred_ServiceInstanceID creds)
          else StaticCreds (cred_AccessKey creds) (cred_SecretKey creds)) \<rparr>"

definition NewObjectStorageSession ::
    "env \<Rightarrow> string \<Rightarrow> string \<Rightarrow> ObjectStorageCredentials \<Rightarrow> ObjectStorageSession outcome run" where
  "NewObjectStorageSession env endpoint locationConstraint creds =
     (let c = session_conn endpoint locationConstraint creds
      in attempt (ask_res (\<lambda>h. sdk_new_session (cos env) h c) (\<lambda>r. Cos (EvNewSession c r)))
           (\<lambda>err. panic (error_text err))
           (\<lambda>_. ret (COSSession env c)))"


subsection \<open>What each method sends\<close>

text \<open>
  An event of the object store that names a bucket other than \<open>b\<close> is not one of a call on \<open>b\<close>.
\<close>

fun concerns :: "string \<Rightarrow> event \<Rightarrow> bool" where
  "concerns b (Cos (EvHeadBucket b' _)) \<longleftrightarrow> b' = b"
| "concerns b (Cos (EvCreateBucket b' _ _)) \<longleftrightarrow> b' = b"
| "concerns b (Cos (EvListObjects b' _)) \<longleftrightarrow> b' = b"
| "concerns b (Cos (EvListObjectsV2 b' _ _)) \<longleftrightarrow> b' = b"
| "concerns b (Cos (EvDeleteObject b' _ _)) \<longleftrightarrow> b' = b"
| "concerns b (Cos (EvDeleteBucket b' _)) \<longleftrightarrow> b' = b"
| "concerns b (Cos (EvPutVersioning b' _ _)) \<longleftrightarrow> b' = b"
| "concerns b (Cos (EvUpdateBucketConfig _ b' _ _)) \<longleftrightarrow> b' = b"
| "concerns b (Cos (EvGetBucketConfig _ b' _)) \<longleftrightarrow> b' = b"
| "concerns b (Cos (EvNewResourceConfig _ _)) \<longleftrightarrow> True"
| "concerns b (Cos (EvNewSession _ _)) \<longleftrightarrow> False"
| "concerns b _ \<longleftrightarrow> False"

fun is_delete :: "event \<Rightarrow> bool" where
  "is_delete (Cos (EvDeleteObject _ _ _)) = True"
| "is_delete (Cos (EvDeleteBucket _ _)) = True"
| "is_delete _ = False"

text \<open>The calls that change which buckets and objects there are.\<close>

fun is_write :: "event \<Rightarrow> bool" where
  "is_write (Cos (EvCreateBucket _ _ _)) = True"
| "is_write (Cos (EvDeleteObject _ _ _)) = True"
| "is_write (Cos (EvDeleteBucket _ _)) = True"
| "is_write _ = False"

text \<open>The calls that set an option of a bucket, and those that the service refuses.\<close>

fun is_option :: "event \<Rightarrow> bool" where
  "is_option (Cos (EvNewResourceConfig _ _)) = True"
| "is_option (Cos (EvUpdateBucketConfig _ _ _ _)) = True"
| "is_option (Cos (EvPutVersioning _ _ _)) = True"
| "is_option _ = False"

fun refuses_option :: "string \<Rightarrow> event \<Rightarrow> bool" where
  "refuses_option _ (Cos (EvNewResourceConfig _ x)) \<longleftrightarrow> is_err x"
| "refuses_option b (Cos (EvUpdateBucketConfig _ b' _ x)) \<longleftrightarrow> b' = b \<and> is_err x"
| "refuses_option b (Cos (EvPutVersioning b' _ x)) \<longleftrightarrow> b' = b \<and> is_err x"
| "refuses_option _ _ \<longleftrightarrow> False"

lemma is_option_concerns: "is_option e \<Longrightarrow> \<exists>b. concerns b e"
  by (cases e rule: is_option.cases) auto

lemma is_delete_concerns: "is_delete e \<Longrightarrow> \<exists>b. concerns b e"
  by (cases e rule: is_delete.cases) auto

lemma is_delete_write: "is_delete e \<Longrightarrow> is_write e"
  by (cases e rule: is_delete.cases) auto

lemma is_write_cos: "is_write e \<Longrightarrow> is_cos e"
  by (cases e rule: is_write.cases) auto

lemma deletes_bucket_iff: "deletes_bucket b e \<longleftrightarrow> is_delete e \<and> concerns b e"
  by (cases "(b, e)" rule: deletes_bucket.cases) auto

lemma run_delete_objects:
  "run_state (delete_objects env c b ks) h = (r, h') \<Longrightarrow>
     (r = Ret () \<and> h' = h @ map (\<lambda>k. Cos (EvDeleteObject b k (Inr ()))) ks) \<or>
     (\<exists>pre k post err msg. ks = pre @ k # post \<and> r = Fail (Plain msg) \<and>
        h' = h @ map (\<lambda>k. Cos (EvDeleteObject b k (Inr ()))) pre @ [Cos (EvDeleteObject b k (Inl err))])"
proof (induction ks arbitrary: h)
  case Nil
  then show ?case by simp
next
  case (Cons k ks)
  show ?case
  proof (cases "sdk_delete_object (cos env) h c b k")
    case (Inl err)
    with Cons.prems show ?thesis
      by - (rule disjI2, rule exI [of _ "[]"], rule exI [of _ k], rule exI [of _ ks],
            auto simp: svc_defs)
  next
    case (Inr u)
    let ?h = "h @ [Cos (EvDeleteObject b k (Inr ()))]"
    from Inr Cons.prems have "run_state (delete_objects env c b ks) ?h = (r, h')"
      by (simp add: svc_defs)
    from Cons.IH [OF this] show ?thesis
    proof (elim disjE exE conjE)
      fix pre k' post err msg
      assume "ks = pre @ k' # post" "r = Fail (Plain msg)"
        "h' = ?h @ map (\<lambda>k. Cos (EvDeleteObject b k (Inr ()))) pre @ [Cos (EvDeleteObject b k' (Inl err))]"
      then show ?thesis
        by - (rule disjI2, rule exI [of _ "k # pre"], rule exI [of _ k'], rule exI [of _ post], auto)
    qed simp
  qed
qed

lemma yields_delete_objects_upto:
  "yields (delete_objects env c b ks) (\<lambda>r es.
     (r = Ret () \<and> es = map (\<lambda>k. Cos (EvDeleteObject b k (Inr ()))) ks) \<or>
     (\<exists>pre k post err msg. ks = pre @ k # post \<and> r = Fail (Plain msg) \<and>
        es = map (\<lambda>k. Cos (EvDeleteObject b k (Inr ()))) pre @ [Cos (EvDeleteObject b k (Inl err))]))"
proof (rule yieldsI)
  fix h
  obtain r h' where run: "run_state (delete_objects env c b ks) h = (r, h')"
    by (cases "run_state (delete_objects env c b ks) h")
  show "\<exists>r es. run_state (delete_objects env c b ks) h = (r, h @ es) \<and>
     ((r = Ret () \<and> es = map (\<lambda>k. Cos (EvDeleteObject b k (Inr ()))) ks) \<or>
     (\<exists>pre k post err msg. ks = pre @ k # post \<and> r = Fail (Plain msg) \<and>
        es = map (\<lambda>k. Cos (EvDeleteObject b k (Inr ()))) pre @ [Cos (EvDeleteObject b k (Inl err))]))"
    using run_delete_objects [OF run] run by auto
qed


subsection \<open>The contract of a session\<close>

text \<open>
  The answers to \<open>CreateBucket\<close> after which \<open>createBucket\<close> in the controller goes on: the bucket
  was created, or the caller owns it (\<open>created_or_owned\<close>); or the name is taken, by whomever
  (\<open>name_taken\<close>), an answer that the controller takes from an error of the other SDK only.
\<close>

fun created_or_owned :: "string \<Rightarrow> event \<Rightarrow> bool" where
  "created_or_owned b (Cos (EvCreateBucket b' _ x)) \<longleftrightarrow>
     b' = b \<and> (case x of Inr _ \<Rightarrow> True | Inl (AwsErr code _) \<Rightarrow> code = ''BucketAlreadyOwnedByYou'' | Inl _ \<Rightarrow> False)"
| "created_or_owned b _ \<longleftrightarrow> False"

fun name_taken :: "string \<Rightarrow> event \<Rightarrow> bool" where
  "name_taken b (Cos (EvCreateBucket b' _ (Inl (SmithyErr code _)))) \<longleftrightarrow> b' = b \<and> code = ''BucketAlreadyExists''"
| "name_taken b _ \<longleftrightarrow> False"

fun bucket_opened :: "string \<Rightarrow> event \<Rightarrow> bool" where
  "bucket_opened b (Cos (EvCreateBucket b' _ (Inr _))) \<longleftrightarrow> b' = b"
| "bucket_opened b (Cos (EvCreateBucket b' _ (Inl (AwsErr code _)))) \<longleftrightarrow>
     b' = b \<and> code = ''BucketAlreadyOwnedByYou''"
| "bucket_opened b (Cos (EvCreateBucket b' _ (Inl (SmithyErr code _)))) \<longleftrightarrow>
     b' = b \<and> code = ''BucketAlreadyExists''"
| "bucket_opened b _ \<longleftrightarrow> False"

lemma bucket_opened_iff: "bucket_opened b e \<longleftrightarrow> created_or_owned b e \<or> name_taken b e"
  by (cases "(b, e)" rule: bucket_opened.cases) auto

text \<open>
  The ways in which \<open>DeleteBucket\<close> ends: the listing fails, with \<open>NoSuchBucket\<close> as a success;
  or the objects of the listing are deleted in order up to the first failure; or all of them are,
  and the reply of the deletion of the bucket is the result.
\<close>

definition delete_outcome :: "string \<Rightarrow> unit outcome \<Rightarrow> event list \<Rightarrow> bool" where
  "delete_outcome b r es \<longleftrightarrow>
     (\<exists>err. es = [Cos (EvListObjects b (Inl err))] \<and>
        (if \<exists>msg. err = AwsErr ''NoSuchBucket'' msg then r = Ret () else is_fail r)) \<or>
     (\<exists>pre k post err. is_fail r \<and>
        es = Cos (EvListObjects b (Inr (pre @ k # post))) #
             map (\<lambda>k. Cos (EvDeleteObject b k (Inr ()))) pre @ [Cos (EvDeleteObject b k (Inl err))]) \<or>
     (\<exists>ks x. r = of_res x \<and>
        es = Cos (EvListObjects b (Inr ks)) # map (\<lambda>k. Cos (EvDeleteObject b k (Inr ()))) ks
             @ [Cos (EvDeleteBucket b x)])"

text \<open>
  \<open>UpdateQuotaLimit\<close> makes a client of the resource configuration for the key and then sends one
  update; it succeeds when both are answered without an error.
\<close>

definition quota_outcome :: "string \<Rightarrow> string \<Rightarrow> int \<Rightarrow> unit outcome \<Rightarrow> event list \<Rightarrow> bool" where
  "quota_outcome key b q r es \<longleftrightarrow>
     (\<exists>rc. rc_api_key rc = key \<and>
        ((\<exists>e. es = [Cos (EvNewResourceConfig rc (Inl e))] \<and> is_fail r) \<or>
         (\<exists>e. es = [Cos (EvNewResourceConfig rc (Inr ())), Cos (EvUpdateBucketConfig rc b q (Inl e))] \<and>
            is_fail r) \<or>
         es = [Cos (EvNewResourceConfig rc (Inr ())), Cos (EvUpdateBucketConfig rc b q (Inr ()))] \<and>
            r = Ret ()))"

text \<open>
  What the controller relies on: which events a call can cause and how its result follows from the
  replies; no call panics, and every event of a call names the bucket of the call.
\<close>

locale object_storage_session =
  fixes sess :: ObjectStorageSession
  assumes check_access: "yields (CheckBucketAccess sess b)
       (\<lambda>r es. \<exists>x. es = [Cos (EvHeadBucket b x)] \<and> r = of_res x)"
    and create: "yields (CreateBucket sess b k)
       (\<lambda>r es. \<exists>kp x. es = [Cos (EvCreateBucket b kp x)] \<and>
          (case r of
             Ret msg \<Rightarrow> bucket_opened b (Cos (EvCreateBucket b kp x)) \<and> (msg = [] \<longleftrightarrow> x = Inr ())
           | Fail e \<Rightarrow> x = Inl e \<and> (\<forall>m. e \<noteq> AwsErr ''BucketAlreadyOwnedByYou'' m)
           | Panic _ \<Rightarrow> False))"
    and path: "yields (CheckObjectPathExistence sess b p)
       (\<lambda>r es. \<exists>x. es = [Cos (EvListObjectsV2 b (dir_prefix p) x)] \<and>
          (case r of
             Ret found \<Rightarrow>
               (\<exists>ks. x = Inr ks \<and>
                  (found \<longleftrightarrow> (\<exists>k. ks = [k] \<and> (k = dir_prefix p \<or> trim_suffix k ''/'' = dir_prefix p))))
           | Fail _ \<Rightarrow> is_err x
           | Panic _ \<Rightarrow> False))"
    and delete_outcomes: "yields (DeleteBucket sess b) (delete_outcome b)"
    and versioning: "yields (SetBucketVersioning sess b en)
       (\<lambda>r es. \<exists>x. es = [Cos (EvPutVersioning b (if en then ''Enabled'' else ''Suspended'') x)] \<and>
          (case r of Ret _ \<Rightarrow> x = Inr () | Fail _ \<Rightarrow> is_err x | Panic _ \<Rightarrow> False))"
    and quota_outcomes: "yields (UpdateQuotaLimit sess q key b ep iam) (quota_outcome key b q)"
begin

lemma delete:
  "yields (DeleteBucket sess b)
     (\<lambda>r es. (\<forall>e \<in> set es. concerns b e) \<and> (\<forall>p. r \<noteq> Panic p) \<and> (\<exists>x. Cos (EvListObjects b x) \<in> set es))"
  by (rule yields_mono [OF delete_outcomes]) (auto simp: delete_outcome_def split: if_splits)

lemma quota_writes: "yields (UpdateQuotaLimit sess q key b ep iam)
       (\<lambda>r es. (\<forall>e \<in> set es. concerns b e \<and> \<not> is_write e) \<and>
          (case r of
             Ret _ \<Rightarrow> \<exists>rc. rc_api_key rc = key \<and> Cos (EvUpdateBucketConfig rc b q (Inr ())) \<in> set es
           | Fail _ \<Rightarrow> list_ex (refuses_option b) es | Panic _ \<Rightarrow> False))"
  by (rule yields_mono [OF quota_outcomes]) (auto simp: quota_outcome_def split: outcome.split)

lemma quota: "yields (UpdateQuotaLimit sess q key b ep iam)
       (\<lambda>r es. (\<forall>e \<in> set es. concerns b e \<and> \<not> is_delete e) \<and>
          (case r of
             Ret _ \<Rightarrow> \<exists>rc. rc_api_key rc = key \<and> Cos (EvUpdateBucketConfig rc b q (Inr ())) \<in> set es
           | Fail _ \<Rightarrow> True | Panic _ \<Rightarrow> False))"
  by (rule yields_mono [OF quota_writes]) (auto dest: is_delete_write split: outcome.splits)

lemma check_concerns: "emits (\<lambda>e. concerns b e \<and> \<not> is_delete e) (CheckBucketAccess sess b)"
  unfolding emits_iff_yields by (rule yields_mono [OF check_access]) auto

lemma delete_concerns: "emits (concerns b) (DeleteBucket sess b)"
  unfolding emits_iff_yields by (rule yields_mono [OF delete]) auto

end

lemma yields_cos_DeleteBucket: "yields (cos_DeleteBucket env c b) (delete_outcome b)"
proof -
  have list: "yields (svc_ListObjects env c b) (\<lambda>r es. \<exists>x. es = [Cos (EvListObjects b x)] \<and> r = of_res x)"
    unfolding svc_ListObjects_def by (rule yields_reply)
  have objects: "yields (attempt (delete_objects env c b ks) fail (\<lambda>_. svc_DeleteBucket env c b))
      (\<lambda>r es. delete_outcome b r (Cos (EvListObjects b (Inr ks)) # es))" for ks
    unfolding svc_DeleteBucket_def
    by (rule yields_attempt_fail [OF yields_delete_objects_upto])
       (auto simp: delete_outcome_def intro!: yields_ask_res)
  show ?thesis
    unfolding cos_DeleteBucket_def Let_def
  proof (rule yields_attempt [OF list], goal_cases)
    case (1 ks es)
    then show ?case using objects by simp
  next
    case (2 err es)
    then show ?case
      by (auto split: gerror.split intro!: yields_ret yields_fail simp: delete_outcome_def)
  qed simp
qed

interpretation cos: object_storage_session "COSSession env c" for env c
proof unfold_locales
  fix b k en q key ep iam p
  show "yields (CheckBucketAccess (COSSession env c) b)
       (\<lambda>r es. \<exists>x. es = [Cos (EvHeadBucket b x)] \<and> r = of_res x)"
    by (auto simp: COSSession_def cos_CheckBucketAccess_def svc_defs intro: yields_ask_res)
  show "yields (CreateBucket (COSSession env c) b k)
       (\<lambda>r es. \<exists>kp x. es = [Cos (EvCreateBucket b kp x)] \<and>
          (case r of
             Ret msg \<Rightarrow> bucket_opened b (Cos (EvCreateBucket b kp x)) \<and> (msg = [] \<longleftrightarrow> x = Inr ())
           | Fail e \<Rightarrow> x = Inl e \<and> (\<forall>m. e \<noteq> AwsErr ''BucketAlreadyOwnedByYou'' m)
           | Panic _ \<Rightarrow> False))"
    unfolding COSSession_def ObjectStorageSession.simps cos_CreateBucket_def svc_defs
    by (rule yields_attempt [where R = "\<lambda>r es. \<exists>kp x. es = [Cos (EvCreateBucket b kp x)] \<and> r = of_res x"])
       (auto split: gerror.split intro!: yields_fail yields_ret yields_ask_res)
  show "yields (CheckObjectPathExistence (COSSession env c) b p)
       (\<lambda>r es. \<exists>x. es = [Cos (EvListObjectsV2 b (dir_prefix p) x)] \<and>
          (case r of
             Ret found \<Rightarrow>
               (\<exists>ks. x = Inr ks \<and>
                  (found \<longleftrightarrow> (\<exists>k. ks = [k] \<and> (k = dir_prefix p \<or> trim_suffix k ''/'' = dir_prefix p))))
           | Fail _ \<Rightarrow> is_err x
           | Panic _ \<Rightarrow> False))"
    unfolding COSSession_def ObjectStorageSession.simps cos_CheckObjectPathExistence_def svc_defs Let_def
    by (rule yields_attempt [OF yields_reply]) (auto split: list.split intro!: yields_fail yields_ret)
  show "yields (DeleteBucket (COSSession env c) b) (delete_outcome b)"
    unfolding COSSession_def ObjectStorageSession.simps by (rule yields_cos_DeleteBucket)
  show "yields (SetBucketVersioning (COSSession env c) b en)
       (\<lambda>r es. \<exists>x. es = [Cos (EvPutVersioning b (if en then ''Enabled'' else ''Suspended'') x)] \<and>
          (case r of Ret _ \<Rightarrow> x = Inr () | Fail _ \<Rightarrow> is_err x | Panic _ \<Rightarrow> False))"
    unfolding COSSession_def ObjectStorageSession.simps cos_SetBucketVersioning_def svc_defs Let_def
    by (rule yields_attempt [OF yields_reply]) (auto intro!: yields_fail yields_ret)
  show "yields (UpdateQuotaLimit (COSSession env c) q key b ep iam) (quota_outcome key b q)"
    unfolding COSSession_def ObjectStorageSession.simps cos_UpdateQuotaLimit_def svc_defs Let_def
    by (rule yields_attempt [OF yields_reply], rule yields_attempt [OF yields_reply])
       (auto simp: quota_outcome_def intro!: yields_fail yields_ret)
qed


subsection \<open>Deleting a bucket\<close>

lemma run_DeleteBucket_listed:
  assumes "sdk_list_objects (cos env) h c b = Inr ks"
    and "run_state (delete_objects env c b ks) (h @ [Cos (EvListObjects b (Inr ks))]) = (Ret (), h')"
  shows "run_state (cos_DeleteBucket env c b) h =
    (of_res (sdk_delete_bucket (cos env) h' c b),
     h' @ [Cos (EvDeleteBucket b (sdk_delete_bucket (cos env) h' c b))])"
  using assms by (simp add: cos_DeleteBucket_def svc_defs)

text \<open>
  \<open>ListObjects\<close> returns one page of keys, and the service refuses to delete a bucket that is
  not empty. The keys of a bucket that remain after the deletions of a history:
\<close>

definition remaining :: "string \<Rightarrow> string list \<Rightarrow> hist \<Rightarrow> string list" where
  "remaining b keys h = filter (\<lambda>k. Cos (EvDeleteObject b k (Inr ())) \<notin> set h) keys"

definition paged_store :: "env \<Rightarrow> conn \<Rightarrow> string \<Rightarrow> string list \<Rightarrow> nat \<Rightarrow> bool" where
  "paged_store env c b keys page \<longleftrightarrow>
     (\<forall>h. sdk_list_objects (cos env) h c b = Inr (take page (remaining b keys h))) \<and>
     (\<forall>h k. sdk_delete_object (cos env) h c b k = Inr ()) \<and>
     (\<forall>h. sdk_delete_bucket (cos env) h c b =
        (if remaining b keys h = [] then Inr ()
         else Inl (AwsErr ''BucketNotEmpty'' ''The bucket you tried to delete is not empty'')))"

lemma delete_objects_all:
  assumes "\<And>h k. sdk_delete_object (cos env) h c b k = Inr ()"
  shows "run_state (delete_objects env c b ks) h =
    (Ret (), h @ map (\<lambda>k. Cos (EvDeleteObject b k (Inr ()))) ks)"
  by (induction ks arbitrary: h) (simp_all add: svc_defs assms)

lemma remaining_after_page:
  assumes "distinct keys" and "\<forall>e \<in> set h. \<not> deletes_bucket b e"
  shows "remaining b keys (h @ [Cos (EvListObjects b r)]
           @ map (\<lambda>k. Cos (EvDeleteObject b k (Inr ()))) (take page keys)) = drop page keys"
proof -
  have "Cos (EvDeleteObject b k (Inr ())) \<notin> set h" for k
    using assms(2) by fastforce
  then have "remaining b keys (h @ [Cos (EvListObjects b r)]
           @ map (\<lambda>k. Cos (EvDeleteObject b k (Inr ()))) (take page keys))
      = filter (\<lambda>k. k \<notin> set (take page keys)) keys"
    unfolding remaining_def by (intro filter_cong) auto
  also have "\<dots> = filter (\<lambda>k. k \<notin> set (take page keys)) (take page keys @ drop page keys)"
    by simp
  also have "\<dots> = filter (\<lambda>k. k \<notin> set (take page keys)) (drop page keys)"
    unfolding filter_append by simp
  also have "\<dots> = drop page keys"
    using set_take_disj_set_drop_if_distinct [OF assms(1), of page page]
    by (intro filter_True) auto
  finally show ?thesis .
qed

text \<open>
  C39. On a store that lists at most \<open>page\<close> keys per call, \<open>DeleteBucket\<close> succeeds exactly
  when the bucket holds at most one page of objects: the code lists once, so a larger bucket loses
  its first page of objects and stays, with the error \<open>BucketNotEmpty\<close>.
\<close>

theorem DeleteBucket_single_page:
  assumes store: "paged_store env c b keys page"
    and "distinct keys" and "\<forall>e \<in> set h. \<not> deletes_bucket b e"
  shows "fst (run_state (cos_DeleteBucket env c b) h) =
    (if length keys \<le> page then Ret ()
     else Fail (AwsErr ''BucketNotEmpty'' ''The bucket you tried to delete is not empty''))"
proof -
  have all: "remaining b keys h = keys"
    using assms(3) unfolding remaining_def by (intro filter_True) fastforce
  then have list: "sdk_list_objects (cos env) h c b = Inr (take page keys)"
    using store by (simp add: paged_store_def)
  let ?h = "(h @ [Cos (EvListObjects b (Inr (take page keys)))])
              @ map (\<lambda>k. Cos (EvDeleteObject b k (Inr ()))) (take page keys)"
  have "run_state (cos_DeleteBucket env c b) h =
      (of_res (sdk_delete_bucket (cos env) ?h c b),
       ?h @ [Cos (EvDeleteBucket b (sdk_delete_bucket (cos env) ?h c b))])"
    using store by (intro run_DeleteBucket_listed [OF list] delete_objects_all)
      (simp add: paged_store_def)
  moreover have "remaining b keys ?h = drop page keys"
    using remaining_after_page [OF assms(2,3)] by simp
  ultimately show ?thesis
    using store by (simp add: paged_store_def)
qed


definition some_conn :: conn where
  "some_conn = \<lparr> conn_endpoint = ''https://s3'', conn_region = ''us'', conn_creds = StaticCreds ''a'' ''s'' \<rparr>"

definition two_objects :: env where
  "two_objects = env_ok\<lparr> cos := cos_ok\<lparr>
     sdk_list_objects := (\<lambda>h _ b. Inr (take 1 (remaining b [''x'', ''y''] h))),
     sdk_delete_bucket := (\<lambda>h _ b. if remaining b [''x'', ''y''] h = [] then Inr ()
        else Inl (AwsErr ''BucketNotEmpty'' ''The bucket you tried to delete is not empty'')) \<rparr> \<rparr>"

theorem DeleteBucket_single_page_witness:
  "fst (run_state (cos_DeleteBucket two_objects some_conn ''b'') []) =
     Fail (AwsErr ''BucketNotEmpty'' ''The bucket you tried to delete is not empty'')"
proof -
  have "paged_store two_objects some_conn ''b'' [''x'', ''y''] 1"
    by (simp add: paged_store_def two_objects_def env_ok_defs)
  from DeleteBucket_single_page [OF this, of "[]"] show ?thesis by simp
qed

end
