(* ===== verification/Json.thy ===== *)
theory Json
  imports GoStrings
begin

section \<open>The part of encoding/json that the program uses\<close>

text \<open>
  The program encodes maps of strings and structs whose fields are strings, and decodes into maps
  of strings and into structs. The encoder prints bindings; the decoder parses one value of the
  grammar of JSON and stores it into its target. Texts are lists of bytes: the encoder copies
  bytes from 128 on, as Go does for valid UTF-8 (without the two line separators that it escapes),
  and the decoder copies them back.
\<close>


subsection \<open>Encoding\<close>

definition json_hex :: "nat \<Rightarrow> string" where
  "json_hex n = [hex_digit (n div 16), hex_digit (n mod 16)]"

definition json_char :: "char \<Rightarrow> string" where
  "json_char c =
     (let n = (of_char c :: nat)
      in if c = CHR 0x22 then [CHR 0x5C, CHR 0x22]
         else if c = CHR 0x5C then [CHR 0x5C, CHR 0x5C]
         else if n = 8 then [CHR 0x5C, CHR ''b'']
         else if n = 9 then [CHR 0x5C, CHR ''t'']
         else if n = 10 then [CHR 0x5C, CHR ''n'']
         else if n = 12 then [CHR 0x5C, CHR ''f'']
         else if n = 13 then [CHR 0x5C, CHR ''r'']
         else if n < 32 \<or> c = CHR ''<'' \<or> c = CHR ''>'' \<or> c = CHR ''&''
         then CHR 0x5C # ''u00'' @ json_hex n
         else [c])"

definition json_string :: "string \<Rightarrow> string" where
  "json_string s = CHR 0x22 # concat (map json_char s) @ [CHR 0x22]"

text \<open>
  \<open>json_object bs\<close> prints the bindings in their order, which is what \<open>json.Marshal\<close> makes of
  a struct; of a map it prints the bindings in the order of the keys (\<open>json_map\<close>).
  \<open>omit_empty\<close> are the fields of a struct all of which have the option \<open>omitempty\<close>.
\<close>

definition json_object :: "smap \<Rightarrow> string" where
  "json_object bs = ''{'' @ join '','' (map (\<lambda>(k, v). json_string k @ '':'' @ json_string v) bs) @ ''}''"

definition json_map :: "smap \<Rightarrow> string" where
  "json_map m = json_object (sorted_bindings m)"

text \<open>What was put into the map in which order does not show in its encoding.\<close>

lemma json_map_unique: "mset m = mset m' \<Longrightarrow> smap_wf m \<Longrightarrow> json_map m = json_map m'"
  unfolding json_map_def by (simp add: sorted_bindings_unique)


subsection \<open>Strings and numbers in a text\<close>

datatype json =
    JNull
  | JBool bool
  | JNum string
  | JStr string
  | JArr "json list"
  | JObj "(string \<times> json) list"

definition json_space :: "char \<Rightarrow> bool" where
  "json_space c \<longleftrightarrow> c \<in> {CHR '' '', CHR 0x09, CHR 0x0A, CHR 0x0D}"

definition skip_ws :: "string \<Rightarrow> string" where
  "skip_ws s = dropWhile json_space s"

definition hex_val :: "char \<Rightarrow> nat option" where
  "hex_val c =
     (let n = (of_char c :: nat)
      in if 48 \<le> n \<and> n \<le> 57 then Some (n - 48)
         else if 97 \<le> n \<and> n \<le> 102 then Some (n - 87)
         else if 65 \<le> n \<and> n \<le> 70 then Some (n - 55)
         else None)"

fun hex4 :: "string \<Rightarrow> (nat \<times> string) option" where
  "hex4 (a # b # c # d # s) =
     (case (hex_val a, hex_val b, hex_val c, hex_val d) of
        (Some i, Some j, Some k, Some l) \<Rightarrow> Some (4096 * i + 256 * j + 16 * k + l, s)
      | _ \<Rightarrow> None)"
| "hex4 _ = None"

text \<open>The bytes of a code point in UTF-8.\<close>

definition utf8 :: "nat \<Rightarrow> string" where
  "utf8 r = map char_of
     (if r < 128 then [r]
      else if r < 2048 then [192 + r div 64, 128 + r mod 64]
      else if r < 65536 then [224 + r div 4096, 128 + r div 64 mod 64, 128 + r mod 64]
      else [240 + r div 262144, 128 + r div 4096 mod 64, 128 + r div 64 mod 64, 128 + r mod 64])"

text \<open>
  What follows a backslash: the bytes it stands for and the rest. Half of a surrogate pair stands
  for the replacement character unless the other half follows.
\<close>

definition escape_code :: "nat \<Rightarrow> string \<Rightarrow> string \<times> string" where
  "escape_code r s =
     (if \<not> (55296 \<le> r \<and> r < 57344) then (utf8 r, s)
      else (case (if prefix [CHR 0x5C, CHR ''u''] s then hex4 (drop 2 s) else None) of
              Some (r2, t) \<Rightarrow>
                if r < 56320 \<and> 56320 \<le> r2 \<and> r2 < 57344
                then (utf8 (65536 + (r - 55296) * 1024 + (r2 - 56320)), t)
                else (utf8 65533, s)
            | None \<Rightarrow> (utf8 65533, s)))"

definition json_escape :: "string \<Rightarrow> (string \<times> string) option" where
  "json_escape s =
     (case s of
        [] \<Rightarrow> None
      | c # t \<Rightarrow>
          if c = CHR ''u'' then map_option (\<lambda>(r, t'). escape_code r t') (hex4 t)
          else map_option (\<lambda>b. ([b], t))
                 (map_of [(CHR 0x22, CHR 0x22), (CHR 0x5C, CHR 0x5C), (CHR ''/'', CHR ''/''),
                          (CHR ''b'', CHR 0x08), (CHR ''f'', CHR 0x0C), (CHR ''n'', CHR 0x0A),
                          (CHR ''r'', CHR 0x0D), (CHR ''t'', CHR 0x09)] c))"

lemma hex4_shorter: "hex4 s = Some (r, t) \<Longrightarrow> length t < length s"
  by (induction s rule: hex4.induct) (auto split: option.splits)

lemma escape_code_shorter: "escape_code r s = (b, t) \<Longrightarrow> length t \<le> length s"
  by (auto simp: escape_code_def split: if_splits option.splits dest!: hex4_shorter)

lemma json_escape_shorter: "json_escape s = Some (b, t) \<Longrightarrow> length t < length s"
  by (cases s)
     (auto simp: json_escape_def split: if_splits dest!: hex4_shorter escape_code_shorter
        intro: le_less_trans [OF _ less_SucI])

text \<open>The characters of a string up to its closing quote, and the rest.\<close>

function json_chars :: "string \<Rightarrow> (string \<times> string) option" where
  "json_chars [] = None"
| "json_chars (c # s) =
     (if c = CHR 0x22 then Some ([], s)
      else if c = CHR 0x5C then
        (case json_escape s of
           None \<Rightarrow> None
         | Some (b, s') \<Rightarrow> map_option (\<lambda>(t, r). (b @ t, r)) (json_chars s'))
      else if (of_char c :: nat) < 32 then None
      else map_option (\<lambda>(t, r). (c # t, r)) (json_chars s))"
  by pat_completeness auto

termination
  by (relation "measure length") (auto dest: json_escape_shorter)

definition take_digits :: "string \<Rightarrow> (string \<times> string) option" where
  "take_digits s =
     (if takeWhile is_digit s = [] then None else Some (takeWhile is_digit s, dropWhile is_digit s))"

text \<open>The three parts of a number: digits without a leading zero, a fraction, an exponent.\<close>

definition int_part :: "string \<Rightarrow> (string \<times> string) option" where
  "int_part s = (if prefix ''0'' s then Some (''0'', tl s) else take_digits s)"

definition frac_part :: "string \<Rightarrow> (string \<times> string) option" where
  "frac_part s =
     (if prefix ''.'' s then map_option (\<lambda>(d, r). (CHR ''.'' # d, r)) (take_digits (tl s))
      else Some ([], s))"

definition exp_part :: "string \<Rightarrow> (string \<times> string) option" where
  "exp_part s =
     (if prefix ''e'' s \<or> prefix ''E'' s
      then (let n = (if prefix ''+'' (tl s) \<or> prefix ''-'' (tl s) then 2 else 1)
            in map_option (\<lambda>(d, r). (take n s @ d, r)) (take_digits (drop n s)))
      else Some ([], s))"

definition json_number :: "string \<Rightarrow> (string \<times> string) option" where
  "json_number s =
     (let m = (if prefix ''-'' s then 1 else 0)
      in case int_part (drop m s) of
           None \<Rightarrow> None
         | Some (i, s1) \<Rightarrow>
             (case frac_part s1 of
                None \<Rightarrow> None
              | Some (f, s2) \<Rightarrow>
                  (case exp_part s2 of
                     None \<Rightarrow> None
                   | Some (e, s3) \<Rightarrow> Some (take m s @ i @ f @ e, s3))))"

lemma take_digits_shorter: "take_digits s = Some (d, t) \<Longrightarrow> length t < length s"
proof -
  assume t: "take_digits s = Some (d, t)"
  then have "t = dropWhile is_digit s" "takeWhile is_digit s \<noteq> []"
    by (auto simp: take_digits_def split: if_splits)
  then show ?thesis
    by (cases s) (auto simp: less_Suc_eq_le length_dropWhile_le split: if_splits)
qed

lemma int_part_shorter: "int_part s = Some (i, t) \<Longrightarrow> length t < length s"
  by (cases s) (auto simp: int_part_def split: if_splits dest: take_digits_shorter)

lemma frac_part_shorter: "frac_part s = Some (f, t) \<Longrightarrow> length t \<le> length s"
  by (cases s) (auto simp: frac_part_def split: if_splits dest: take_digits_shorter)

lemma exp_part_shorter: "exp_part s = Some (e, t) \<Longrightarrow> length t \<le> length s"
  by (auto simp: exp_part_def Let_def split: if_splits dest!: take_digits_shorter)

lemma json_number_shorter: "json_number s = Some (d, t) \<Longrightarrow> length t < length s"
proof -
  assume "json_number s = Some (d, t)"
  then obtain i s1 f s2 e where
    "int_part (drop (if prefix ''-'' s then 1 else 0) s) = Some (i, s1)"
    "frac_part s1 = Some (f, s2)" "exp_part s2 = Some (e, t)"
    by (auto simp: json_number_def Let_def split: option.splits)
  then have "length s1 < length (drop (if prefix ''-'' s then 1 else 0) s)"
      "length s2 \<le> length s1" "length t \<le> length s2"
    by (blast dest: int_part_shorter frac_part_shorter exp_part_shorter)+
  then show ?thesis by simp
qed

lemma json_chars_shorter: "json_chars s = Some (t, r) \<Longrightarrow> length r < length s"
proof (induction s arbitrary: t rule: json_chars.induct)
  case (2 c s)
  then show ?case
    by (fastforce split: if_splits option.splits dest: json_escape_shorter)
qed simp


subsection \<open>Parsing a value\<close>

text \<open>
  \<open>json_value n d s\<close> parses the value at the start of \<open>s\<close>, which lies in \<open>d\<close> objects or
  arrays, and gives it with the rest of the text; \<open>json_elems\<close> and \<open>json_members\<close> parse what
  follows an opening bracket or a comma. Go refuses more than 10000 levels. The fuel \<open>n\<close> counts
  calls; one more than twice the length of the text is always enough (\<open>json_fuel\<close> below).
\<close>

definition max_nesting :: nat where
  "max_nesting = 10000"

definition json_literal :: "string \<Rightarrow> (json \<times> string) option" where
  "json_literal s =
     (if prefix ''true'' s then Some (JBool True, drop 4 s)
      else if prefix ''false'' s then Some (JBool False, drop 5 s)
      else if prefix ''null'' s then Some (JNull, drop 4 s)
      else map_option (\<lambda>(d, r). (JNum d, r)) (json_number s))"

text \<open>After a value: the separator that goes on, or the bracket that ends.\<close>

definition closes :: "char \<Rightarrow> string \<Rightarrow> string option" where
  "closes c s = (if prefix [c] (skip_ws s) then Some (tl (skip_ws s)) else None)"

fun json_value :: "nat \<Rightarrow> nat \<Rightarrow> string \<Rightarrow> (json \<times> string) option"
  and json_elems :: "nat \<Rightarrow> nat \<Rightarrow> string \<Rightarrow> (json list \<times> string) option"
  and json_members :: "nat \<Rightarrow> nat \<Rightarrow> string \<Rightarrow> ((string \<times> json) list \<times> string) option" where
  "json_value 0 d s = None"
| "json_value (Suc n) d s =
     (if prefix ''{'' s then
        (if d \<ge> max_nesting then None
         else (case closes (CHR ''}'') (tl s) of
                 Some r \<Rightarrow> Some (JObj [], r)
               | None \<Rightarrow> map_option (\<lambda>(ms, r). (JObj ms, r)) (json_members n (Suc d) (tl s))))
      else if prefix ''['' s then
        (if d \<ge> max_nesting then None
         else (case closes (CHR '']'') (tl s) of
                 Some r \<Rightarrow> Some (JArr [], r)
               | None \<Rightarrow> map_option (\<lambda>(vs, r). (JArr vs, r)) (json_elems n (Suc d) (tl s))))
      else if prefix [CHR 0x22] s then map_option (\<lambda>(t, r). (JStr t, r)) (json_chars (tl s))
      else json_literal s)"
| "json_elems 0 d s = None"
| "json_elems (Suc n) d s =
     (case json_value n d (skip_ws s) of
        None \<Rightarrow> None
      | Some (v, r) \<Rightarrow>
          (case closes (CHR '','') r of
             Some r' \<Rightarrow> map_option (\<lambda>(vs, r''). (v # vs, r'')) (json_elems n d r')
           | None \<Rightarrow> map_option (\<lambda>r'. ([v], r')) (closes (CHR '']'') r)))"
| "json_members 0 d s = None"
| "json_members (Suc n) d s =
     (case closes (CHR 0x22) s of
        None \<Rightarrow> None
      | Some s1 \<Rightarrow>
          (case json_chars s1 of
             None \<Rightarrow> None
           | Some (k, s2) \<Rightarrow>
               (case closes (CHR '':'') s2 of
                  None \<Rightarrow> None
                | Some s3 \<Rightarrow>
                    (case json_value n d (skip_ws s3) of
                       None \<Rightarrow> None
                     | Some (v, r) \<Rightarrow>
                         (case closes (CHR '','') r of
                            Some r' \<Rightarrow> map_option (\<lambda>(ms, r''). ((k, v) # ms, r'')) (json_members n d r')
                          | None \<Rightarrow> map_option (\<lambda>r'. ([(k, v)], r')) (closes (CHR ''}'') r))))))"

lemma length_skip_ws: "length (skip_ws s) \<le> length s"
  by (simp add: skip_ws_def length_dropWhile_le)

lemma closes_shorter: "closes c s = Some r \<Longrightarrow> length r < length s"
  using length_skip_ws [of s] by (auto simp: closes_def prefix_def split: if_splits)

lemma json_literal_shorter: "json_literal s = Some (v, r) \<Longrightarrow> length r < length s"
  by (auto simp: json_literal_def prefix_def split: if_splits dest: json_number_shorter)

lemma json_shorter:
  "json_value n d s = Some (v, r) \<Longrightarrow> length r < length s"
  "json_elems n d s = Some (vs, r) \<Longrightarrow> length r < length s"
  "json_members n d s = Some (ms, r) \<Longrightarrow> length r < length s"
proof (induction n d s and n d s and n d s arbitrary: v r and vs r and ms r
    rule: json_value_json_elems_json_members.induct)
  case (2 n d s)
  then show ?case
    by (cases s)
       (auto split: if_splits option.splits dest: closes_shorter json_chars_shorter json_literal_shorter
          intro: less_SucI)
next
  case (4 n d s)
  then show ?case
    using length_skip_ws [of s]
    by (fastforce split: option.splits dest: closes_shorter)
next
  case (6 n d s)
  from "6.prems" obtain s1 k s2 s3 v' r' where
    steps: "closes (CHR 0x22) s = Some s1" "json_chars s1 = Some (k, s2)" "closes (CHR '':'') s2 = Some s3"
      "json_value n d (skip_ws s3) = Some (v', r')"
    by (auto split: option.splits)
  have "length r' < length s"
    using "6.IH"(1) [OF steps(1,2) refl steps(3,4)] closes_shorter [OF steps(1)] closes_shorter [OF steps(3)]
      json_chars_shorter [OF steps(2)] length_skip_ws [of s3] by simp
  with "6.prems" steps "6.IH"(2) [OF steps(1,2) refl steps(3,4) refl] show ?case
    by (fastforce split: option.splits dest: closes_shorter)
qed simp_all

lemma next_part_cong:
  assumes "x = y"
    and "\<And>v r r'. x = Some (v, r) \<Longrightarrow> closes c r = Some r' \<Longrightarrow> f r' = f' r'"
  shows "(case x of None \<Rightarrow> None | Some (v, r) \<Rightarrow>
            (case closes c r of Some r' \<Rightarrow> map_option (g v) (f r') | None \<Rightarrow> h v r)) =
         (case y of None \<Rightarrow> None | Some (v, r) \<Rightarrow>
            (case closes c r of Some r' \<Rightarrow> map_option (g v) (f' r') | None \<Rightarrow> h v r))"
  using assms by (auto split: option.split)

text \<open>More fuel than twice the length of the text makes no difference.\<close>

lemma json_fuel:
  "2 * length s < n \<Longrightarrow> 2 * length s < n' \<Longrightarrow> json_value n d s = json_value n' d s"
  "Suc (2 * length s) < n \<Longrightarrow> Suc (2 * length s) < n' \<Longrightarrow> json_elems n d s = json_elems n' d s"
  "Suc (2 * length s) < n \<Longrightarrow> Suc (2 * length s) < n' \<Longrightarrow> json_members n d s = json_members n' d s"
proof (induction n d s and n d s and n d s arbitrary: n' and n' and n'
    rule: json_value_json_elems_json_members.induct)
  case (2 n d s)
  obtain m where n': "n' = Suc m" using "2.prems" by (cases n') auto
  have len: "2 * length (tl s) < n - 1 \<and> 2 * length (tl s) < m - 1" if "prefix [c] s" for c
    using that "2.prems" n' by (auto simp: prefix_def)
  have "json_members n (Suc d) (tl s) = json_members m (Suc d) (tl s)"
    if "prefix ''{'' s" "\<not> max_nesting \<le> d" "closes (CHR ''}'') (tl s) = None"
    using len [OF that(1)] by (intro "2.IH"(1) [OF that]) auto
  moreover have "json_elems n (Suc d) (tl s) = json_elems m (Suc d) (tl s)"
    if "\<not> prefix ''{'' s" "prefix ''['' s" "\<not> max_nesting \<le> d" "closes (CHR '']'') (tl s) = None"
    using len [OF that(2)] by (intro "2.IH"(2) [OF that]) auto
  ultimately show ?case
    unfolding n' json_value.simps by (simp split: option.split)
next
  case (4 n d s)
  obtain m where n': "n' = Suc m" using "4.prems" by (cases n') auto
  have "json_value n d (skip_ws s) = json_value m d (skip_ws s)"
    using "4.prems" n' length_skip_ws [of s] by (intro "4.IH"(1)) auto
  moreover have "json_elems n d r' = json_elems m d r'"
    if "json_value n d (skip_ws s) = Some (v, r)" "closes (CHR '','') r = Some r'" for v r r'
    using "4.prems" n' length_skip_ws [of s] that closes_shorter [OF that(2)] json_shorter(1) [OF that(1)]
    by (intro "4.IH"(2) [OF that(1) refl that(2)]) auto
  ultimately show ?case
    unfolding n' json_elems.simps by (rule next_part_cong)
next
  case (6 n d s)
  obtain m where n': "n' = Suc m" using "6.prems" by (cases n') auto
  show ?case
  proof (cases "closes (CHR 0x22) s")
    case s1: (Some s1)
    show ?thesis
    proof (cases "json_chars s1")
      case ks2: (Some p)
      obtain k s2 where p: "p = (k, s2)" by (cases p)
      show ?thesis
      proof (cases "closes (CHR '':'') s2")
        case s3: (Some s3)
        have len: "length s3 < length s"
          using closes_shorter [OF s1] json_chars_shorter [OF ks2 [unfolded p]] closes_shorter [OF s3] by simp
        have "json_value n d (skip_ws s3) = json_value m d (skip_ws s3)"
          using "6.prems" n' len length_skip_ws [of s3] by (intro "6.IH"(1) [OF s1 ks2 p [symmetric] s3]) auto
        moreover have "json_members n d r' = json_members m d r'"
          if "json_value n d (skip_ws s3) = Some (v, r)" "closes (CHR '','') r = Some r'" for v r r'
          using "6.prems" n' len length_skip_ws [of s3] that closes_shorter [OF that(2)] json_shorter(1) [OF that(1)]
          by (intro "6.IH"(2) [OF s1 ks2 p [symmetric] s3 that(1) refl that(2)]) auto
        ultimately show ?thesis
          unfolding n' json_members.simps s1 option.case ks2 p prod.case s3 by (rule next_part_cong)
      qed (use s1 ks2 p n' in simp)
    qed (use s1 n' in simp)
  qed (use n' in simp)
qed simp_all


subsection \<open>Decoding\<close>

text \<open>
  \<open>json_decode\<close> is \<open>Decoder.Decode\<close>: it reads the first value of the text and leaves the rest;
  \<open>json_unmarshal\<close> wants the whole text to be one value. The texts of syntax errors, which Go
  fills with the offending character, are not modelled.
\<close>

definition json_parse :: "string \<Rightarrow> (json \<times> string) option" where
  "json_parse s = json_value (Suc (2 * length s)) 0 (skip_ws s)"

definition json_syntax_error :: gerror where
  "json_syntax_error = Plain ''invalid character''"

definition json_decode :: "string \<Rightarrow> json res" where
  "json_decode s =
     (if skip_ws s = [] then Inl (Plain ''EOF'')
      else (case json_parse s of None \<Rightarrow> Inl json_syntax_error | Some (v, _) \<Rightarrow> Inr v))"

definition json_unmarshal :: "string \<Rightarrow> json res" where
  "json_unmarshal s =
     (case json_parse s of
        Some (v, r) \<Rightarrow> if skip_ws r = [] then Inr v else Inl json_syntax_error
      | None \<Rightarrow> Inl json_syntax_error)"

fun json_kind :: "json \<Rightarrow> string" where
  "json_kind JNull = ''null''"
| "json_kind (JBool _) = ''bool''"
| "json_kind (JNum _) = ''number''"
| "json_kind (JStr _) = ''string''"
| "json_kind (JArr _) = ''array''"
| "json_kind (JObj _) = ''object''"

definition type_error :: "string \<Rightarrow> json \<Rightarrow> string \<Rightarrow> gerror" where
  "type_error place v ty = Plain (sprintf [''json: cannot unmarshal '', json_kind v, place, '' of type '', ty])"

text \<open>
  A string stored into a string; \<open>null\<close> leaves the target as it is; anything else does not fit.
\<close>

fun into_string :: "json \<Rightarrow> string \<Rightarrow> string option" where
  "into_string (JStr s) _ = Some s"
| "into_string JNull old = Some old"
| "into_string _ _ = None"

text \<open>
  The decoder goes on after a value that does not fit, and reports the first one in the end. A
  map gets an entry per member, a later one replacing an earlier one of the same name.
\<close>

definition orelse_err :: "gerror option \<Rightarrow> gerror \<Rightarrow> gerror option" where
  "orelse_err err e = (case err of None \<Rightarrow> Some e | Some _ \<Rightarrow> err)"

definition map_member :: "smap \<times> gerror option \<Rightarrow> string \<times> json \<Rightarrow> smap \<times> gerror option" where
  "map_member = (\<lambda>(m, err) (k, v).
     (case into_string v [] of
        Some s \<Rightarrow> (mput m k s, err)
      | None \<Rightarrow> (mput m k [], orelse_err err (type_error '' into Go value'' v ''string''))))"

definition decode_map :: "json \<Rightarrow> smap res" where
  "decode_map v =
     (case v of
        JNull \<Rightarrow> Inr []
      | JObj ms \<Rightarrow>
          (case foldl map_member ([], None) ms of (m, None) \<Rightarrow> Inr m | (_, Some e) \<Rightarrow> Inl e)
      | _ \<Rightarrow> Inl (type_error '' into Go value'' v ''map[string]string''))"

text \<open>\<open>json.Unmarshal\<close> into a \<open>map[string]string\<close>.\<close>

definition json_strings :: "string \<Rightarrow> smap res" where
  "json_strings s = (case json_unmarshal s of Inl e \<Rightarrow> Inl e | Inr v \<Rightarrow> decode_map v)"

text \<open>
  A struct: per field its name in the text and how a value is stored into it, \<open>None\<close> when the
  value does not fit. A member is stored into the field of its name, or else into the first field
  whose name differs from it in the case of letters only; a strict decoder refuses other members.
\<close>

type_synonym 'r fields = "(string \<times> (json \<Rightarrow> 'r \<Rightarrow> 'r option)) list"

definition find_field :: "'r fields \<Rightarrow> string \<Rightarrow> (string \<times> (json \<Rightarrow> 'r \<Rightarrow> 'r option)) option" where
  "find_field fields k =
     (case find (\<lambda>(n, _). n = k) fields of
        Some f \<Rightarrow> Some f
      | None \<Rightarrow> find (\<lambda>(n, _). equal_fold n k) fields)"

definition struct_member ::
    "string \<Rightarrow> bool \<Rightarrow> 'r fields \<Rightarrow> 'r \<times> gerror option \<Rightarrow> string \<times> json \<Rightarrow> 'r \<times> gerror option" where
  "struct_member name strict fields = (\<lambda>(r, err) (k, v).
     (case find_field fields k of
        None \<Rightarrow>
          (r, if strict then orelse_err err (Plain (sprintf [''json: unknown field '', quote k])) else err)
      | Some (n, store) \<Rightarrow>
          (case store v r of
             Some r' \<Rightarrow> (r', err)
           | None \<Rightarrow>
               (r, orelse_err err
                     (type_error (sprintf ['' into Go struct field '', name, ''.'', n]) v ''string'')))))"

definition decode_struct :: "string \<Rightarrow> bool \<Rightarrow> 'r fields \<Rightarrow> 'r \<Rightarrow> json \<Rightarrow> 'r res" where
  "decode_struct name strict fields zero v =
     (case v of
        JNull \<Rightarrow> Inr zero
      | JObj ms \<Rightarrow>
          (case foldl (struct_member name strict fields) (zero, None) ms of
             (r, None) \<Rightarrow> Inr r
           | (_, Some e) \<Rightarrow> Inl e)
      | _ \<Rightarrow> Inl (type_error '' into Go value'' v (sprintf [''main.'', name])))"


text \<open>
  A struct of strings is described by its table: per field the name in the text, how the field is
  read and how it is set. Every field of the program's structs has the option \<open>omitempty\<close>.
\<close>

type_synonym 'r struct = "(string \<times> ('r \<Rightarrow> string) \<times> (string \<Rightarrow> 'r \<Rightarrow> 'r)) list"

definition string_fields :: "'r struct \<Rightarrow> 'r fields" where
  "string_fields table =
     map (\<lambda>(n, get, put). (n, \<lambda>v r. map_option (\<lambda>s. put s r) (into_string v (get r)))) table"

definition omit_empty :: "'r struct \<Rightarrow> 'r \<Rightarrow> smap" where
  "omit_empty table r = filter (\<lambda>(_, v). v \<noteq> []) (map (\<lambda>(n, get, _). (n, get r)) table)"

end
