(* ===== verification/DriverUtils.thy ===== *)
theory DriverUtils
  imports Csi S3Client SysCalls Json
begin

section \<open>Cluster and node utilities: pkg/utils/driver_utils.go\<close>

text \<open>
  The interface \<open>StatsUtils\<close> is a record of operations; \<open>DriverStatsUtils env\<close> is its
  implementation on the Kubernetes API and the node. The methods carry the prefix \<open>su_\<close>. A nil
  pointer that the code dereferences without a check is a panic.
\<close>

record ClusterNodeData =
  cn_region :: string
  cn_zone :: string
  cn_os :: string

record StatsUtils =
  BucketToDelete :: "string \<Rightarrow> string outcome run"
  FSInfo :: "string \<Rightarrow> (int \<times> int \<times> int \<times> int \<times> int \<times> int) outcome run"
  CheckMount :: "string \<Rightarrow> unit outcome run"
  GetTotalCapacityFromPV :: "string \<Rightarrow> quantity outcome run"
  GetBucketUsage :: "string \<Rightarrow> int outcome run"
  GetBucketNameFromPV :: "string \<Rightarrow> string outcome run"
  GetClusterNodeData :: "string \<Rightarrow> ClusterNodeData outcome run"
  GetEndpoints :: "(string \<times> string) outcome run"
  GetPVAttributes :: "string \<Rightarrow> smap outcome run"
  GetPVC :: "string \<Rightarrow> string \<Rightarrow> pvc outcome run"
  GetSecret :: "string \<Rightarrow> string \<Rightarrow> secret outcome run"
  GetPV :: "string \<Rightarrow> pv outcome run"

subsection \<open>Kubernetes API calls\<close>

definition CreateK8sClient :: "env \<Rightarrow> unit outcome run" where
  "CreateK8sClient env =
     attempt (ask_res (\<lambda>h. api_in_cluster_config (k8s env) h) (\<lambda>r. K8s (EvInClusterConfig r)))
       fail
       (\<lambda>_. attempt (ask_res (\<lambda>h. api_new_for_config (k8s env) h) (\<lambda>r. K8s (EvNewForConfig r)))
              fail ret)"

definition k8s_get_pv :: "env \<Rightarrow> string \<Rightarrow> pv outcome run" where
  "k8s_get_pv env n = ask_res (\<lambda>h. api_get_pv (k8s env) h n) (\<lambda>r. K8s (EvGetPV n r))"

definition su_GetPV :: "env \<Rightarrow> string \<Rightarrow> pv outcome run" where
  "su_GetPV env volumeID =
     attempt (CreateK8sClient env) fail
       (\<lambda>_. attempt (k8s_get_pv env volumeID)
          (\<lambda>err. fail (Plain (sprintf [''error getting PV: '', error_text err])))
          ret)"

definition su_GetPVC :: "env \<Rightarrow> string \<Rightarrow> string \<Rightarrow> pvc outcome run" where
  "su_GetPVC env pvcName pvcNamespace =
     attempt (CreateK8sClient env) fail
       (\<lambda>_. attempt (ask_res (\<lambda>h. api_get_pvc (k8s env) h pvcName pvcNamespace)
                       (\<lambda>r. K8s (EvGetPVC pvcName pvcNamespace r)))
          (\<lambda>err. fail (Plain (sprintf [''error getting PVC: '', error_text err])))
          ret)"

definition su_GetSecret :: "env \<Rightarrow> string \<Rightarrow> string \<Rightarrow> secret outcome run" where
  "su_GetSecret env secretName secretNamespace =
     attempt (CreateK8sClient env) fail
       (\<lambda>_. attempt (ask_res (\<lambda>h. api_get_secret (k8s env) h secretName secretNamespace)
                       (\<lambda>r. K8s (EvGetSecret secretName secretNamespace r)))
          fail ret)"

definition getNodeByName :: "env \<Rightarrow> string \<Rightarrow> node outcome run" where
  "getNodeByName env nodeName =
     attempt (CreateK8sClient env) fail
       (\<lambda>_. attempt (ask_res (\<lambda>h. api_get_node (k8s env) h nodeName) (\<lambda>r. K8s (EvGetNode nodeName r)))
          fail ret)"

definition getClusterType :: "env \<Rightarrow> string outcome run" where
  "getClusterType env =
     attempt (CreateK8sClient env) fail
       (\<lambda>_. attempt (ask_res (\<lambda>h. api_get_config_map (k8s env) h ''kube-system'' ''cluster-info'')
                       (\<lambda>r. K8s (EvGetConfigMap ''kube-system'' ''cluster-info'' r)))
          (\<lambda>err. fail (Plain (sprintf [''error getting ConfigMap: '', error_text err])))
          (\<lambda>configMap.
             (case json_strings (mget configMap ''cluster-config.json'') of
                Inl err \<Rightarrow> fail (Plain (sprintf [''error unmarshalling cluster config: '', error_text err]))
              | Inr clusterConfig \<Rightarrow> ret (mget clusterConfig ''cluster_type''))))"


subsection \<open>Methods of DriverStatsUtils\<close>

definition su_GetClusterNodeData :: "env \<Rightarrow> string \<Rightarrow> ClusterNodeData outcome run" where
  "su_GetClusterNodeData env nodeName =
     attempt (getNodeByName env nodeName) fail
       (\<lambda>node.
          (case (map_of (node_labels node) NodeRegionLabel, map_of (node_labels node) NodeZoneLabel) of
             (Some region, Some zone) \<Rightarrow>
               ret \<lparr> cn_region = region, cn_zone = zone, cn_os = node_os_image node \<rparr>
           | _ \<Rightarrow> fail (Plain (sprintf [''one or few required node label(s) is/are missing ['', NodeRegionLabel,
                    '', '', NodeZoneLabel, '']. Node Labels Found = [#'', show_map (node_labels node), '']'']))))"

definition su_GetEndpoints :: "env \<Rightarrow> (string \<times> string) outcome run" where
  "su_GetEndpoints env =
     attempt (getClusterType env) fail
       (\<lambda>clusterType.
          if contains (to_lower clusterType) ''vpc''
          then ret (PrivateIAMEndpoint, ResourceConfigEPDirect)
          else ret (PublicIAMEndpoint, ResourceConfigEPPrivate))"

definition su_BucketToDelete :: "env \<Rightarrow> string \<Rightarrow> string outcome run" where
  "su_BucketToDelete env volumeID =
     attempt (CreateK8sClient env) fail
       (\<lambda>_. attempt (k8s_get_pv env volumeID) fail
          (\<lambda>p. attempt (deref_ptr (pv_csi p)) fail
             (\<lambda>csi.
                if mget (volume_attributes csi) ''userProvidedBucket'' \<noteq> ''true''
                then ret (mget (volume_attributes csi) ''bucketName'')
                else ret [])))"

definition su_FSInfo :: "env \<Rightarrow> string \<Rightarrow> (int \<times> int \<times> int \<times> int \<times> int \<times> int) outcome run" where
  "su_FSInfo env path = ask_res (\<lambda>h. sys_fs_info (fs env) h path) (\<lambda>r. Fs (EvFsInfo path r))"

definition su_CheckMount :: "env \<Rightarrow> string \<Rightarrow> unit outcome run" where
  "su_CheckMount env targetPath =
     do {
       (out, err) \<leftarrow> sys_run_mountpoint env targetPath;
       (case err of
          None \<Rightarrow> ret ()
        | Some e \<Rightarrow>
            (if has_suffix (trim_space out) ''No such file or directory''
             then attempt (MkdirAll env targetPath) fail ret
             else fail e))
     }"

definition su_GetTotalCapacityFromPV :: "env \<Rightarrow> string \<Rightarrow> quantity outcome run" where
  "su_GetTotalCapacityFromPV env volumeID =
     attempt (su_GetPV env volumeID) fail (\<lambda>p. ret (pv_capacity p))"

definition fetchSecretUsingPV :: "env \<Rightarrow> string \<Rightarrow> secret outcome run" where
  "fetchSecretUsingPV env volumeID =
     attempt (su_GetPV env volumeID) fail
       (\<lambda>p. attempt (deref_ptr (pv_csi p)) fail
          (\<lambda>csi. attempt (deref_ptr (csi_secret_ref csi)) fail
             (\<lambda>(secretName, ns).
                if secretName = []
                then fail (Plain ''secret details not found in the PV, could not fetch the secret'')
                else
                  (let secretNamespace = (if ns = [] then DefaultNamespace else ns)
                   in attempt (su_GetSecret env secretName secretNamespace)
                        (\<lambda>err. fail (Plain (sprintf [''error getting Secret: '', error_text err])))
                        ret))))"

definition su_GetBucketUsage :: "env \<Rightarrow> string \<Rightarrow> int outcome run" where
  "su_GetBucketUsage env volumeID =
     attempt (su_GetEndpoints env) fail
       (\<lambda>(_, ep). attempt (fetchSecretUsingPV env volumeID) fail
          (\<lambda>secret.
             (let rc = \<lparr> rc_api_key = mget (secret_data secret) ''apiKey'', rc_iam_url = IAMEP, rc_url = ep \<rparr>
              in attempt (rc_New env rc) fail
                   (\<lambda>_. attempt (rc_GetBucketConfig env rc (mget (secret_data secret) ''bucketName'')) fail
                      deref_ptr))))"

definition su_GetBucketNameFromPV :: "env \<Rightarrow> string \<Rightarrow> string outcome run" where
  "su_GetBucketNameFromPV env volumeID =
     attempt (su_GetPV env volumeID) fail
       (\<lambda>p. attempt (deref_ptr (pv_csi p)) fail
          (\<lambda>csi. ret (mget (volume_attributes csi) ''bucketName'')))"

definition su_GetPVAttributes :: "env \<Rightarrow> string \<Rightarrow> smap outcome run" where
  "su_GetPVAttributes env volumeID =
     attempt (su_GetPV env volumeID) fail
       (\<lambda>p. attempt (deref_ptr (pv_csi p)) fail (\<lambda>csi. ret (volume_attributes csi)))"

definition DriverStatsUtils :: "env \<Rightarrow> StatsUtils" where
  "DriverStatsUtils env =
     \<lparr> BucketToDelete = su_BucketToDelete env,
       FSInfo = su_FSInfo env,
       CheckMount = su_CheckMount env,
       GetTotalCapacityFromPV = su_GetTotalCapacityFromPV env,
       GetBucketUsage = su_GetBucketUsage env,
       GetBucketNameFromPV = su_GetBucketNameFromPV env,
       GetClusterNodeData = su_GetClusterNodeData env,
       GetEndpoints = su_GetEndpoints env,
       GetPVAttributes = su_GetPVAttributes env,
       GetPVC = su_GetPVC env,
       GetSecret = su_GetSecret env,
       GetPV = su_GetPV env \<rparr>"

lemmas su_defs =
  su_GetPV_def su_GetPVC_def su_GetSecret_def getNodeByName_def getClusterType_def
  su_GetClusterNodeData_def su_GetEndpoints_def su_BucketToDelete_def su_FSInfo_def
  su_CheckMount_def su_GetTotalCapacityFromPV_def fetchSecretUsingPV_def su_GetBucketUsage_def
  su_GetBucketNameFromPV_def su_GetPVAttributes_def CreateK8sClient_def k8s_get_pv_def
  sys_run_mountpoint_def MkdirAll_def deref_ptr_def


subsection \<open>Masking of secrets in logged requests\<close>

text \<open>
  The three cases of \<open>ReplaceAndReturnCopy\<close> run the same loop over the secrets of the request;
  \<open>mask_secrets\<close> is that loop. The copy always has a non-nil map.
\<close>

definition masked_keys :: "string list" where
  "masked_keys = [''accessKey'', ''secretKey'', ''apiKey'', ''kpRootKeyCRN'']"

definition mask_secrets :: "nmap \<Rightarrow> nmap" where
  "mask_secrets secretMap =
     Some (map (\<lambda>(k, v). if k \<in> set masked_keys then (k, ''xxxxxxx'') else (k, v)) (deref secretMap))"

fun ReplaceAndReturnCopy :: "any_request \<Rightarrow> any_request res" where
  "ReplaceAndReturnCopy (CreateReq r) = Inr (CreateReq (r\<lparr> cv_secrets := mask_secrets (cv_secrets r) \<rparr>))"
| "ReplaceAndReturnCopy (DeleteReq r) = Inr (DeleteReq (r\<lparr> dv_secrets := mask_secrets (dv_secrets r) \<rparr>))"
| "ReplaceAndReturnCopy (PublishReq r) = Inr (PublishReq (r\<lparr> np_secrets := mask_secrets (np_secrets r) \<rparr>))"
| "ReplaceAndReturnCopy OtherReq = Inl (Plain ''unsupported request type'')"

lemma lookup_mask_secrets:
  "map_of (deref (mask_secrets m)) k =
     map_option (\<lambda>v. if k \<in> set masked_keys then ''xxxxxxx'' else v) (map_of (deref m) k)"
proof -
  have "map_of (map (\<lambda>(k, v). if k \<in> set masked_keys then (k, ''xxxxxxx'') else (k, v)) xs) k =
     map_option (\<lambda>v. if k \<in> set masked_keys then ''xxxxxxx'' else v) (map_of xs k)" for xs
    by (induction xs) auto
  then show ?thesis by (simp add: mask_secrets_def)
qed

text \<open>
  What the copy holds for the secrets \<open>m\<close> of a request: the same names in the same order, the four
  credentials replaced, every other value as it was.
\<close>

definition masks :: "smap \<Rightarrow> smap \<Rightarrow> bool" where
  "masks m m' \<longleftrightarrow>
     map fst m' = map fst m \<and>
     (\<forall>k. map_of m' k =
        (if k \<in> {''accessKey'', ''secretKey'', ''apiKey'', ''kpRootKeyCRN''}
         then map_option (\<lambda>_. ''xxxxxxx'') (map_of m k) else map_of m k))"

lemma masks_mask_secrets: "\<exists>m'. mask_secrets m = Some m' \<and> masks (deref m) m'"
proof -
  obtain m' where m': "mask_secrets m = Some m'"
    by (simp add: mask_secrets_def)
  have "map fst (deref (mask_secrets m)) = map fst (deref m)"
    by (simp add: mask_secrets_def case_prod_beta comp_def if_distrib [of fst] cong: if_cong)
  moreover have "map_of (deref (mask_secrets m)) k =
      (if k \<in> {''accessKey'', ''secretKey'', ''apiKey'', ''kpRootKeyCRN''}
       then map_option (\<lambda>_. ''xxxxxxx'') (map_of (deref m) k) else map_of (deref m) k)" for k
    by (simp only: lookup_mask_secrets masked_keys_def)
       (simp add: option.map_ident cong: option.map_cong)
  ultimately show ?thesis
    by (simp add: m' masks_def)
qed

text \<open>
  C40. The copy of a request that is logged is the request with other secrets: every other field is
  kept; the secrets have the same names; the values of the names \<open>accessKey\<close>, \<open>secretKey\<close>,
  \<open>apiKey\<close> and \<open>kpRootKeyCRN\<close> are replaced and every other value is the request's own, among them
  \<open>resourceConfigApiKey\<close>. A request of another type, and only that, gives an error.
\<close>

theorem ReplaceAndReturnCopy_masks:
  "case req of
     CreateReq r \<Rightarrow>
       \<exists>m. ReplaceAndReturnCopy req = Inr (CreateReq (r\<lparr> cv_secrets := Some m \<rparr>)) \<and> masks (deref (cv_secrets r)) m
   | DeleteReq r \<Rightarrow>
       \<exists>m. ReplaceAndReturnCopy req = Inr (DeleteReq (r\<lparr> dv_secrets := Some m \<rparr>)) \<and> masks (deref (dv_secrets r)) m
   | PublishReq r \<Rightarrow>
       \<exists>m. ReplaceAndReturnCopy req = Inr (PublishReq (r\<lparr> np_secrets := Some m \<rparr>)) \<and> masks (deref (np_secrets r)) m
   | OtherReq \<Rightarrow> ReplaceAndReturnCopy req = Inl (Plain ''unsupported request type'')"
proof (cases req)
  case (CreateReq r)
  then show ?thesis using masks_mask_secrets [of "cv_secrets r"] by auto
next
  case (DeleteReq r)
  then show ?thesis using masks_mask_secrets [of "dv_secrets r"] by auto
next
  case (PublishReq r)
  then show ?thesis using masks_mask_secrets [of "np_secrets r"] by auto
qed simp


subsection \<open>What each method sends\<close>

lemma yields_CreateK8sClient:
  "yields (CreateK8sClient env) (\<lambda>r es. (\<forall>e \<in> set es. is_k8s e) \<and> (\<forall>p. r \<noteq> Panic p))"
  unfolding CreateK8sClient_def
  by (rule yields_attempt_fail [OF yields_reply])
     (auto intro!: yields_attempt_fail [OF yields_reply] yields_ret)

lemma yields_su_GetPV:
  "yields (su_GetPV env v)
     (\<lambda>r es. (\<forall>e \<in> set es. is_k8s e) \<and> (\<forall>p. r \<noteq> Panic p) \<and>
        (\<forall>p. r = Ret p \<longrightarrow> es \<noteq> [] \<and> last es = K8s (EvGetPV v (Inr p))))"
  unfolding su_GetPV_def k8s_get_pv_def
  by (rule yields_attempt_fail [OF yields_CreateK8sClient])
     (auto intro!: yields_attempt [OF yields_reply] yields_ret yields_fail)

lemma yields_getNodeByName:
  "yields (getNodeByName env n) (\<lambda>r es. (\<forall>e \<in> set es. is_k8s e) \<and> (\<forall>p. r \<noteq> Panic p))"
  unfolding getNodeByName_def
  by (rule yields_attempt_fail [OF yields_CreateK8sClient])
     (auto intro!: yields_attempt [OF yields_reply] yields_ret yields_fail)

lemma yields_getClusterType:
  "yields (getClusterType env) (\<lambda>r es. (\<forall>e \<in> set es. is_k8s e) \<and> (\<forall>p. r \<noteq> Panic p))"
  unfolding getClusterType_def
  by (rule yields_attempt_fail [OF yields_CreateK8sClient])
     (auto split: sum.split intro!: yields_attempt [OF yields_reply] yields_ret yields_fail)

lemma yields_su_CheckMount:
  "yields (su_CheckMount env p)
     (\<lambda>r es. (\<forall>e \<in> set es. is_fs e \<and> removes e = None) \<and> (\<forall>p. r \<noteq> Panic p) \<and>
        (r = Ret () \<longrightarrow>
           (\<exists>out. es = [Fs (EvMountpoint p (out, None))]) \<or> Fs (EvMkdirAll p (Inr ())) \<in> set es))"
  unfolding su_CheckMount_def sys_run_mountpoint_def MkdirAll_def
  by (rule yields_bind [where R = "\<lambda>x es. es = [Fs (EvMountpoint p x)]"])
     (auto split: option.split intro!: yields_ask yields_attempt_fail [OF yields_reply] yields_ret yields_fail)


text \<open>
  A lookup in the persistent volume: what it returns comes from the API's last reply, and it
  panics exactly when that volume has no CSI part.
\<close>

definition pv_lookup :: "string \<Rightarrow> (csi_source \<Rightarrow> 'a) \<Rightarrow> 'a outcome \<Rightarrow> event list \<Rightarrow> bool" where
  "pv_lookup v f r es \<longleftrightarrow>
     (\<forall>e \<in> set es. is_k8s e) \<and>
     (case r of
        Ret x \<Rightarrow> es \<noteq> [] \<and>
          (\<exists>p csi. last es = K8s (EvGetPV v (Inr p)) \<and> pv_csi p = Some csi \<and> x = f csi)
      | Fail _ \<Rightarrow> True
      | Panic _ \<Rightarrow> es \<noteq> [] \<and> (\<exists>p. last es = K8s (EvGetPV v (Inr p)) \<and> pv_csi p = None))"

lemma yields_pv_lookup:
  "yields (attempt (su_GetPV env v) fail (\<lambda>p. attempt (deref_ptr (pv_csi p)) fail (\<lambda>csi. ret (f csi))))
     (pv_lookup v f)"
  by (rule yields_attempt_fail [OF yields_su_GetPV])
     (auto simp: pv_lookup_def deref_ptr_def split: option.split intro!: yields_ret yields_panic)

text \<open>
  Where the usage of volume \<open>v\<close> comes from: the secret that its persistent volume refers to names
  the key and the bucket, and \<open>n\<close> is what the resource configuration answered for them.
\<close>

definition secret_of_pv :: "string \<Rightarrow> secret \<Rightarrow> event list \<Rightarrow> bool" where
  "secret_of_pv v s es \<longleftrightarrow>
     (\<exists>p csi name ns. K8s (EvGetPV v (Inr p)) \<in> set es \<and> pv_csi p = Some csi \<and>
        csi_secret_ref csi = Some (name, ns) \<and>
        K8s (EvGetSecret name (if ns = [] then DefaultNamespace else ns) (Inr s)) \<in> set es)"

definition used_bytes :: "string \<Rightarrow> int \<Rightarrow> event list \<Rightarrow> bool" where
  "used_bytes v n es \<longleftrightarrow>
     (\<exists>s rc. secret_of_pv v s es \<and> rc_api_key rc = mget (secret_data s) ''apiKey'' \<and>
        Cos (EvGetBucketConfig rc (mget (secret_data s) ''bucketName'') (Inr (Some n))) \<in> set es)"

text \<open>A reply that lacks the part that the usage is read from.\<close>

fun lacks_part :: "string \<Rightarrow> event \<Rightarrow> bool" where
  "lacks_part v (K8s (EvGetPV v' (Inr p))) \<longleftrightarrow>
     v' = v \<and> (case pv_csi p of None \<Rightarrow> True | Some csi \<Rightarrow> csi_secret_ref csi = None)"
| "lacks_part _ (Cos (EvGetBucketConfig _ _ (Inr n))) \<longleftrightarrow> n = None"
| "lacks_part _ _ \<longleftrightarrow> False"

lemma secret_of_pv_mono: "secret_of_pv v s es \<Longrightarrow> set es \<subseteq> set es' \<Longrightarrow> secret_of_pv v s es'"
  unfolding secret_of_pv_def by blast

lemma used_bytes_mono: "used_bytes v n es \<Longrightarrow> set es \<subseteq> set es' \<Longrightarrow> used_bytes v n es'"
  unfolding used_bytes_def by (meson secret_of_pv_mono subsetD)

definition usage_post :: "string \<Rightarrow> int outcome \<Rightarrow> event list \<Rightarrow> bool" where
  "usage_post v r es \<longleftrightarrow>
     (\<forall>e \<in> set es. is_k8s e \<or> is_cos e \<and> \<not> is_delete e) \<and>
     (case r of Ret n \<Rightarrow> used_bytes v n es | Fail _ \<Rightarrow> True | Panic _ \<Rightarrow> list_ex (lacks_part v) es)"

lemma yields_su_GetEndpoints:
  "yields (su_GetEndpoints env) (\<lambda>r es. (\<forall>e \<in> set es. is_k8s e) \<and> (\<forall>p. r \<noteq> Panic p))"
  unfolding su_GetEndpoints_def
  by (rule yields_attempt_fail [OF yields_getClusterType]) (auto intro!: yields_ret)

lemma yields_su_GetSecret:
  "yields (su_GetSecret env n ns)
     (\<lambda>r es. (\<forall>e \<in> set es. is_k8s e) \<and> (\<forall>p. r \<noteq> Panic p) \<and>
        (\<forall>s. r = Ret s \<longrightarrow> es \<noteq> [] \<and> last es = K8s (EvGetSecret n ns (Inr s))))"
  unfolding su_GetSecret_def
  by (rule yields_attempt_fail [OF yields_CreateK8sClient])
     (auto intro!: yields_attempt [OF yields_reply] yields_ret yields_fail)

lemma yields_fetchSecretUsingPV:
  "yields (fetchSecretUsingPV env v)
     (\<lambda>r es. (\<forall>e \<in> set es. is_k8s e) \<and>
        (case r of Ret s \<Rightarrow> secret_of_pv v s es | Fail _ \<Rightarrow> True | Panic _ \<Rightarrow> list_ex (lacks_part v) es))"
  unfolding fetchSecretUsingPV_def
proof (rule yields_attempt_fail [OF yields_su_GetPV], goal_cases)
  case (1 p es)
  then have k: "\<forall>e \<in> set es. is_k8s e" and p: "K8s (EvGetPV v (Inr p)) \<in> set es"
    by (auto dest: last_in_set)
  have lacks: "list_ex (lacks_part v) es" if "lacks_part v (K8s (EvGetPV v (Inr p)))"
    unfolding list_ex_iff using p that by (rule rev_bexI)
  show ?case
  proof (cases "\<exists>csi name ns. pv_csi p = Some csi \<and> csi_secret_ref csi = Some (name, ns) \<and> name \<noteq> []")
    case False
    then show ?thesis
      using k lacks by (auto simp: deref_ptr_def split: option.split intro!: yields_panic yields_fail)
  next
    case True
    then obtain csi name ns where csi: "pv_csi p = Some csi" "csi_secret_ref csi = Some (name, ns)" "name \<noteq> []"
      by blast
    have "secret_of_pv v s (es @ es')"
      if "es' \<noteq> []" "last es' = K8s (EvGetSecret name (if ns = [] then DefaultNamespace else ns) (Inr s))" for s es'
      unfolding secret_of_pv_def using p csi that by (metis Un_iff last_in_set set_append)
    then show ?thesis
      using k csi(3) unfolding csi deref_ptr_def option.case attempt_simps prod.case Let_def
      by (auto intro!: yields_attempt [OF yields_su_GetSecret] yields_ret yields_fail)
  qed
qed auto

lemma yields_su_GetBucketUsage: "yields (su_GetBucketUsage env v) (usage_post v)"
  unfolding su_GetBucketUsage_def
proof (rule yields_attempt_fail [OF yields_su_GetEndpoints], goal_cases)
  case (1 eps es)
  obtain iam ep where eps: "eps = (iam, ep)" by (cases eps)
  have es: "\<forall>e \<in> set es. is_k8s e" using 1 by simp
  show ?case
    unfolding eps prod.case
  proof (rule yields_attempt_fail [OF yields_fetchSecretUsingPV], goal_cases)
    case (1 s es')
    have "secret_of_pv v s (es @ es' @ es'')" for es''
      using 1 by (auto intro: secret_of_pv_mono)
    then have used: "used_bytes v n (es @ es' @ es'')"
      if "Cos (EvGetBucketConfig rc (mget (secret_data s) ''bucketName'') (Inr (Some n))) \<in> set es''"
        "rc_api_key rc = mget (secret_data s) ''apiKey''" for n rc es''
      unfolding used_bytes_def using that by auto
    have own: "\<forall>e \<in> set (es @ es'). is_k8s e"
      using 1 es by auto
    show ?case
      unfolding Let_def rc_New_def rc_GetBucketConfig_def deref_ptr_def usage_post_def
      using own used
      by (auto split: option.split intro!: yields_panic yields_ret yields_attempt_fail [OF yields_reply])
  qed (use es in \<open>auto simp: usage_post_def\<close>)
qed (auto simp: usage_post_def)


subsection \<open>The contract of StatsUtils\<close>

text \<open>
  What the controller and the node server rely on: the lookups talk to the Kubernetes API only and
  do not panic; what they return is the API's last reply; a bucket is to be deleted only when the
  persistent volume names it and does not mark it as the user's.
\<close>

locale stats_utils =
  fixes su :: StatsUtils
  assumes bucket: "yields (BucketToDelete su v)
       (\<lambda>r es. (\<forall>e \<in> set es. is_k8s e) \<and>
          (\<forall>b. r = Ret b \<longrightarrow> es \<noteq> [] \<and>
             (\<exists>p csi. last es = K8s (EvGetPV v (Inr p)) \<and> pv_csi p = Some csi \<and>
                b = (if mget (volume_attributes csi) ''userProvidedBucket'' \<noteq> ''true''
                     then mget (volume_attributes csi) ''bucketName'' else []))))"
    and pv: "yields (GetPV su v)
       (\<lambda>r es. (\<forall>e \<in> set es. is_k8s e) \<and> (\<forall>p. r \<noteq> Panic p) \<and>
          (\<forall>p. r = Ret p \<longrightarrow> es \<noteq> [] \<and> last es = K8s (EvGetPV v (Inr p))))"
    and pvc: "yields (GetPVC su n ns)
       (\<lambda>r es. (\<forall>e \<in> set es. is_k8s e) \<and> (\<forall>p. r \<noteq> Panic p) \<and>
          (\<forall>p. r = Ret p \<longrightarrow> es \<noteq> [] \<and> last es = K8s (EvGetPVC n ns (Inr p))))"
    and secret: "yields (GetSecret su n ns)
       (\<lambda>r es. (\<forall>e \<in> set es. is_k8s e) \<and> (\<forall>p. r \<noteq> Panic p) \<and>
          (\<forall>s. r = Ret s \<longrightarrow> es \<noteq> [] \<and> last es = K8s (EvGetSecret n ns (Inr s))))"
    and attributes: "yields (GetPVAttributes su v) (pv_lookup v volume_attributes)"
    and bucket_name: "yields (GetBucketNameFromPV su v)
       (pv_lookup v (\<lambda>csi. mget (volume_attributes csi) ''bucketName''))"
    and capacity: "yields (GetTotalCapacityFromPV su v)
       (\<lambda>r es. (\<forall>e \<in> set es. is_k8s e) \<and> (\<forall>p. r \<noteq> Panic p) \<and>
          (\<forall>q. r = Ret q \<longrightarrow> es \<noteq> [] \<and> (\<exists>p. last es = K8s (EvGetPV v (Inr p)) \<and> q = pv_capacity p)))"
    and usage: "yields (GetBucketUsage su v) (usage_post v)"
    and fs_info: "yields (FSInfo su path) (\<lambda>r es. \<exists>x. es = [Fs (EvFsInfo path x)] \<and> r = of_res x)"
    and node_data: "yields (GetClusterNodeData su n)
       (\<lambda>r es. (\<forall>e \<in> set es. is_k8s e) \<and> (\<forall>p. r \<noteq> Panic p))"
    and endpoints: "yields (GetEndpoints su)
       (\<lambda>r es. (\<forall>e \<in> set es. is_k8s e) \<and> (\<forall>p. r \<noteq> Panic p))"
    and check_mount: "yields (CheckMount su p)
       (\<lambda>r es. (\<forall>e \<in> set es. is_fs e \<and> removes e = None) \<and> (\<forall>p. r \<noteq> Panic p) \<and>
          (r = Ret () \<longrightarrow>
             (\<exists>out. es = [Fs (EvMountpoint p (out, None))]) \<or> Fs (EvMkdirAll p (Inr ())) \<in> set es))"
begin

lemma k8s_not_cos: "is_k8s e \<Longrightarrow> \<not> is_cos e"
  by (cases e) auto

lemma bucket_no_cos: "yields (BucketToDelete su v) (\<lambda>_ es. \<forall>e \<in> set es. \<not> is_cos e)"
  by (rule yields_mono [OF bucket]) (auto dest: k8s_not_cos)

lemma pv_no_cos: "yields (GetPV su v) (\<lambda>_ es. \<forall>e \<in> set es. \<not> is_cos e)"
  by (rule yields_mono [OF pv]) (auto dest: k8s_not_cos)

lemma pvc_no_cos: "yields (GetPVC su n ns) (\<lambda>_ es. \<forall>e \<in> set es. \<not> is_cos e)"
  by (rule yields_mono [OF pvc]) (auto dest: k8s_not_cos)

lemma secret_no_cos: "yields (GetSecret su n ns) (\<lambda>_ es. \<forall>e \<in> set es. \<not> is_cos e)"
  by (rule yields_mono [OF secret]) (auto dest: k8s_not_cos)

end

interpretation su: stats_utils "DriverStatsUtils env" for env
proof unfold_locales
  fix v n ns p
  show "yields (BucketToDelete (DriverStatsUtils env) v)
       (\<lambda>r es. (\<forall>e \<in> set es. is_k8s e) \<and>
          (\<forall>b. r = Ret b \<longrightarrow> es \<noteq> [] \<and>
             (\<exists>p csi. last es = K8s (EvGetPV v (Inr p)) \<and> pv_csi p = Some csi \<and>
                b = (if mget (volume_attributes csi) ''userProvidedBucket'' \<noteq> ''true''
                     then mget (volume_attributes csi) ''bucketName'' else []))))"
    unfolding DriverStatsUtils_def StatsUtils.simps su_BucketToDelete_def k8s_get_pv_def
    by (rule yields_attempt_fail [OF yields_CreateK8sClient])
       (auto simp: deref_ptr_def split: option.split
         intro!: yields_attempt_fail [OF yields_reply] yields_panic yields_ret)
  show "yields (GetPV (DriverStatsUtils env) v)
       (\<lambda>r es. (\<forall>e \<in> set es. is_k8s e) \<and> (\<forall>p. r \<noteq> Panic p) \<and>
          (\<forall>p. r = Ret p \<longrightarrow> es \<noteq> [] \<and> last es = K8s (EvGetPV v (Inr p))))"
    unfolding DriverStatsUtils_def StatsUtils.simps by (rule yields_su_GetPV)
  show "yields (GetPVC (DriverStatsUtils env) n ns)
       (\<lambda>r es. (\<forall>e \<in> set es. is_k8s e) \<and> (\<forall>p. r \<noteq> Panic p) \<and>
          (\<forall>p. r = Ret p \<longrightarrow> es \<noteq> [] \<and> last es = K8s (EvGetPVC n ns (Inr p))))"
    unfolding DriverStatsUtils_def StatsUtils.simps su_GetPVC_def
    by (rule yields_attempt_fail [OF yields_CreateK8sClient])
       (auto intro!: yields_attempt [OF yields_reply] yields_ret yields_fail)
  show "yields (GetSecret (DriverStatsUtils env) n ns)
       (\<lambda>r es. (\<forall>e \<in> set es. is_k8s e) \<and> (\<forall>p. r \<noteq> Panic p) \<and>
          (\<forall>s. r = Ret s \<longrightarrow> es \<noteq> [] \<and> last es = K8s (EvGetSecret n ns (Inr s))))"
    unfolding DriverStatsUtils_def StatsUtils.simps by (rule yields_su_GetSecret)
  show "yields (GetPVAttributes (DriverStatsUtils env) v) (pv_lookup v volume_attributes)"
    "yields (GetBucketNameFromPV (DriverStatsUtils env) v)
       (pv_lookup v (\<lambda>csi. mget (volume_attributes csi) ''bucketName''))"
    unfolding DriverStatsUtils_def StatsUtils.simps su_GetBucketNameFromPV_def su_GetPVAttributes_def
    by (rule yields_pv_lookup)+
  show "yields (GetTotalCapacityFromPV (DriverStatsUtils env) v)
       (\<lambda>r es. (\<forall>e \<in> set es. is_k8s e) \<and> (\<forall>p. r \<noteq> Panic p) \<and>
          (\<forall>q. r = Ret q \<longrightarrow> es \<noteq> [] \<and> (\<exists>p. last es = K8s (EvGetPV v (Inr p)) \<and> q = pv_capacity p)))"
    unfolding DriverStatsUtils_def StatsUtils.simps su_GetTotalCapacityFromPV_def
    by (rule yields_attempt_fail [OF yields_su_GetPV]) (auto intro!: yields_ret)
  show "yields (GetBucketUsage (DriverStatsUtils env) v) (usage_post v)"
    by (simp add: DriverStatsUtils_def yields_su_GetBucketUsage)
  show "yields (FSInfo (DriverStatsUtils env) path) (\<lambda>r es. \<exists>x. es = [Fs (EvFsInfo path x)] \<and> r = of_res x)" for path
    by (auto simp: DriverStatsUtils_def su_FSInfo_def intro: yields_ask_res)
  show "yields (GetClusterNodeData (DriverStatsUtils env) n)
       (\<lambda>r es. (\<forall>e \<in> set es. is_k8s e) \<and> (\<forall>p. r \<noteq> Panic p))"
    unfolding DriverStatsUtils_def StatsUtils.simps su_GetClusterNodeData_def
    by (rule yields_attempt_fail [OF yields_getNodeByName])
       (auto split: option.split intro!: yields_ret yields_fail)
  show "yields (GetEndpoints (DriverStatsUtils env))
       (\<lambda>r es. (\<forall>e \<in> set es. is_k8s e) \<and> (\<forall>p. r \<noteq> Panic p))"
    unfolding DriverStatsUtils_def StatsUtils.simps by (rule yields_su_GetEndpoints)
  show "yields (CheckMount (DriverStatsUtils env) p)
       (\<lambda>r es. (\<forall>e \<in> set es. is_fs e \<and> removes e = None) \<and> (\<forall>p. r \<noteq> Panic p) \<and>
          (r = Ret () \<longrightarrow>
             (\<exists>out. es = [Fs (EvMountpoint p (out, None))]) \<or> Fs (EvMkdirAll p (Inr ())) \<in> set es))"
    unfolding DriverStatsUtils_def StatsUtils.simps by (rule yields_su_CheckMount)
qed

end
