(* ===== verification/Controller.thy ===== *)
theory Controller
  imports DriverUtils Sha256
begin

section \<open>The controller service: pkg/driver/controllerserver.go\<close>

text \<open>
  \<open>CreateVolume\<close> is split where the code is: checks of the request, the secret, the quota and
  versioning options, the credentials, then the bucket. The interfaces that the server holds
  (\<open>utils.StatsUtils\<close>, \<open>s3client.ObjectStorageSessionFactory\<close>) are fields of
  \<open>controllerServer\<close>. What the handlers promise is proved in \<open>ControllerContract\<close>.
\<close>


subsection \<open>State\<close>

type_synonym session_factory =
  "string \<Rightarrow> string \<Rightarrow> ObjectStorageCredentials \<Rightarrow> ObjectStorageSession outcome run"

record controllerServer =
  cs_iamEndpoint :: string
  cs_Stats :: StatsUtils
  cs_cosSession :: session_factory

definition newControllerServer :: "env \<Rightarrow> string \<Rightarrow> controllerServer" where
  "newControllerServer env iam =
     \<lparr> cs_iamEndpoint = iam, cs_Stats = DriverStatsUtils env,
       cs_cosSession = NewObjectStorageSession env \<rparr>"

abbreviation invalid :: "string \<Rightarrow> gerror" where
  "invalid m \<equiv> Status InvalidArgument m"


subsection \<open>Helpers\<close>

definition sanitizeVolumeID :: "string \<Rightarrow> string res" where
  "sanitizeVolumeID volumeID =
     (let v = to_lower volumeID
      in Inr (if length v > 63 then sha256_hex v else v))"

definition getTempBucketName :: "env \<Rightarrow> string \<Rightarrow> string \<Rightarrow> string run" where
  "getTempBucketName env mounterType volumeID =
     do {
       timestamp \<leftarrow> sys_time env;
       State_Monad.return (mounterType @ timestamp @ ''-'' @ volumeID)
     }"

definition createBucket :: "ObjectStorageSession \<Rightarrow> string \<Rightarrow> string \<Rightarrow> unit outcome run" where
  "createBucket sess bucketName kpRootKeyCrn =
     (let check = attempt (CheckBucketAccess sess bucketName)
                    (\<lambda>_. fail (Plain ''unable to access the bucket'')) ret
      in attempt (CreateBucket sess bucketName kpRootKeyCrn)
           (\<lambda>err. case err of
              SmithyErr code _ \<Rightarrow>
                (if code = ''BucketAlreadyExists'' then check
                 else fail (Plain ''unable to create the bucket''))
            | _ \<Rightarrow> fail (Plain ''unable to create the bucket''))
           (\<lambda>_. check))"

definition custom_secret_keys :: "string list" where
  "custom_secret_keys =
     [''accessKey'', ''secretKey'', ''apiKey'', ''kpRootKeyCRN'', ''serviceId'', ''bucketName'',
      ''iamEndpoint'', ''cosEndpoint'', ''locationConstraint'', BucketVersioning, ''objectPath'',
      ResourceConfigApiKey, QuotaLimitKey]"

definition parseCustomSecret :: "secret \<Rightarrow> smap" where
  "parseCustomSecret s =
     foldl (\<lambda>m (k, v). mput m k v) [] (map (\<lambda>k. (k, mget (secret_data s) k)) custom_secret_keys)"

definition getObjectStorageCredentialsFromSecret ::
    "smap \<Rightarrow> string \<Rightarrow> ObjectStorageCredentials res" where
  "getObjectStorageCredentialsFromSecret secretMap iamEP =
     (let iamEndpoint = (if mget secretMap ''iamEndpoint'' = [] then iamEP else mget secretMap ''iamEndpoint'');
          apiKey = mget secretMap ''apiKey'';
          serviceInstanceID = mget secretMap ''serviceId'';
          accessKey = mget secretMap ''accessKey'';
          secretKey = mget secretMap ''secretKey''
      in if serviceInstanceID = [] then
           (if accessKey = [] \<or> secretKey = []
            then Inl (Status Unauthenticated ''Valid access credentials are not provided in the secret| serviceId/accessKey/secretKey unknown'')
            else Inr \<lparr> cred_AuthType = ''hmac'', cred_AccessKey = accessKey, cred_SecretKey = secretKey,
                       cred_APIKey = apiKey, cred_ServiceInstanceID = serviceInstanceID,
                       cred_KpRootKeyCRN = [], cred_IAMEndpoint = iamEndpoint \<rparr>)
         else Inr \<lparr> cred_AuthType = ''iam'', cred_AccessKey = [], cred_SecretKey = [],
                    cred_APIKey = apiKey, cred_ServiceInstanceID = serviceInstanceID,
                    cred_KpRootKeyCRN = [], cred_IAMEndpoint = iamEndpoint \<rparr>)"


subsection \<open>CreateVolume: what the request and the secret ask for\<close>

definition check_capabilities :: "VolumeCapability list option \<Rightarrow> unit res" where
  "check_capabilities caps =
     (case caps of
        None \<Rightarrow> Inl (invalid ''Volume Capabilities missing in request'')
      | Some cs \<Rightarrow>
          (if list_ex (\<lambda>c. cap_type c = Block) cs
           then Inl (invalid ''Volume type block Volume not supported'') else Inr ()))"

text \<open>
  The branch for a request without secrets: the secret named by the annotation of the claim. The
  result is the secret's parameters, the parameters with \<open>objectPath\<close>, and the name of the
  secret. The nil error that two of the messages print is \<open><nil>\<close>.
\<close>

definition custom_secret ::
    "controllerServer \<Rightarrow> smap \<Rightarrow> (smap \<times> smap \<times> string) outcome run" where
  "custom_secret cs params =
     (let pvcName = mget params PVCNameKey;
          ns = mget params PVCNamespaceKey
      in if pvcName = []
         then fail (invalid ''pvcName not specified, could not fetch the secret <nil>'')
         else
           (let pvcNamespace = (if ns = [] then DefaultNamespace else ns)
            in attempt (GetPVC (cs_Stats cs) pvcName pvcNamespace)
                 (\<lambda>err. fail (invalid (sprintf [''PVC resource not found '', error_text err])))
                 (\<lambda>pvcRes.
                    (let customSecretName = mget (pvc_annotations pvcRes) SecretNameKey
                     in if customSecretName = []
                        then fail (invalid ''secretName annotation 'cos.csi.driver/secret' not specified in the PVC annotations, could not fetch the secret <nil>'')
                        else
                          attempt (GetSecret (cs_Stats cs) customSecretName pvcNamespace)
                            (\<lambda>err. fail (invalid (sprintf [''error getting Secret: '', error_text err])))
                            (\<lambda>s.
                               (let secretMapCustom = parseCustomSecret s
                                in ret (secretMapCustom,
                                        (case map_of secretMapCustom ''objectPath'' of
                                           Some objectPath \<Rightarrow> mput params ''objectPath'' objectPath
                                         | None \<Rightarrow> params),
                                        customSecretName)))))))"

definition check_quota :: "smap \<Rightarrow> int \<Rightarrow> bool res" where
  "check_quota secretMap requiredBytes =
     (case map_of secretMap QuotaLimitKey of
        None \<Rightarrow> Inr False
      | Some quotaLimitStr \<Rightarrow>
          (if quotaLimitStr = [] then Inr False
           else
             (case parse_bool quotaLimitStr of
                None \<Rightarrow> Inl (invalid (sprintf [''invalid quotaLimit value '', quote quotaLimitStr, '': must be 'true' or '', squote ''false'']))
              | Some False \<Rightarrow> Inr False
              | Some True \<Rightarrow>
                  (if mget secretMap ResourceConfigApiKey = []
                   then Inl (invalid ''resourceConfigApiKey missing in secret, cannot set quota limit for bucket'')
                   else if requiredBytes \<le> 0
                   then Inl (invalid ''enable quotaLimit requested but no positive storage size requested in PVC'')
                   else Inr True))))"

text \<open>The value of the secret, which is then also put into the parameters, or the parameter.\<close>

definition prefer_secret :: "string \<Rightarrow> smap \<Rightarrow> smap \<Rightarrow> string \<times> smap" where
  "prefer_secret k secretMap params =
     (let v = mget secretMap k in if v = [] then (mget params k, params) else (v, mput params k v))"

definition pick_versioning :: "smap \<Rightarrow> smap \<Rightarrow> string \<Rightarrow> string res" where
  "pick_versioning secretMap params customSecretName =
     (let val1 = mget secretMap BucketVersioning;
          val2 = mget params BucketVersioning
      in if val1 \<noteq> [] then
           (let enable = to_lower (trim_space val1)
            in if enable \<noteq> ''true'' \<and> enable \<noteq> ''false''
               then Inl (invalid (sprintf [''Invalid BucketVersioning value in secret: '', customSecretName, ''. Value set '', val1, ''. Must be 'true' or '', squote ''false'']))
               else Inr enable)
         else if val2 \<noteq> [] then
           (let enable = to_lower (trim_space val2)
            in if enable \<noteq> ''true'' \<and> enable \<noteq> ''false''
               then Inl (invalid (sprintf [''Invalid bucketVersioning value in storage class: '', val2, ''. Must be 'true' or '', squote ''false'']))
               else Inr enable)
         else Inr [])"


subsection \<open>CreateVolume: the bucket\<close>

text \<open>
  \<open>bucket_options\<close> collects the local variables that the two branches of the code use. The
  flag \<open>own\<close> says whether the bucket is deleted when a later step fails: the branch for a
  provided bucket reads \<open>params["userProvidedBucket"] == "false"\<close>, the other always deletes.
\<close>

record bucket_options =
  bo_endPoint :: string
  bo_kpRootKeyCrn :: string
  bo_iamEndpoint :: string
  bo_quotaLimitEnabled :: bool
  bo_quotaBytes :: int
  bo_resConfApikey :: string
  bo_bucketVersioning :: string

definition apply_quota :: "ObjectStorageSession \<Rightarrow> bucket_options \<Rightarrow> bool \<Rightarrow> string \<Rightarrow> unit outcome run" where
  "apply_quota sess o' own bucketName =
     (if bo_quotaLimitEnabled o' then
        attempt (UpdateQuotaLimit sess (bo_quotaBytes o') (bo_resConfApikey o') bucketName
                   (bo_endPoint o') (bo_iamEndpoint o'))
          (\<lambda>err.
             (let e = Status Internal (sprintf [''failed to set bucket quota limit: '', error_text err])
              in if own
                 then attempt (DeleteBucket sess bucketName) (\<lambda>delErr. fail e) (\<lambda>_. fail e)
                 else fail e))
          ret
      else ret ())"

definition apply_versioning ::
    "ObjectStorageSession \<Rightarrow> bucket_options \<Rightarrow> bool \<Rightarrow> string \<Rightarrow> string \<Rightarrow> unit outcome run" where
  "apply_versioning sess o' own what bucketName =
     (if bo_bucketVersioning o' \<noteq> [] then
        (let enable = (to_lower (trim_space (bo_bucketVersioning o')) = ''true'')
         in attempt (SetBucketVersioning sess bucketName enable)
              (\<lambda>err.
                 (let e = Status Internal (sprintf [''failed to set versioning '', dec_bool enable, '' for '', what, '' '', bucketName, '': '', error_text err])
                  in if own
                     then attempt (DeleteBucket sess bucketName)
                            (\<lambda>err1. fail (Status Internal (sprintf [''cannot set versioning: '', error_text err, '' and cannot delete '', what, '' '', bucketName, '': '', error_text err1])))
                            (\<lambda>_. fail e)
                     else fail e))
              ret)
      else ret ())"

definition provided_bucket ::
    "ObjectStorageSession \<Rightarrow> bucket_options \<Rightarrow> string \<Rightarrow> smap \<Rightarrow> smap outcome run" where
  "provided_bucket sess o' bucketName params =
     attempt
       (attempt (CheckBucketAccess sess bucketName)
          (\<lambda>_. attempt (createBucket sess bucketName (bo_kpRootKeyCrn o'))
             (\<lambda>err. fail (Status PermissionDenied (sprintf [error_text err, '': '', bucketName])))
             (\<lambda>_. ret (mput params ''userProvidedBucket'' ''false'')))
          (\<lambda>_. ret params))
       fail
       (\<lambda>params.
          (let own = (mget params ''userProvidedBucket'' = ''false'')
           in attempt (apply_quota sess o' own bucketName) fail
                (\<lambda>_. attempt (apply_versioning sess o' own ''bucket'' bucketName) fail
                   (\<lambda>_. ret (mput params ''bucketName'' bucketName)))))"

definition temp_bucket ::
    "env \<Rightarrow> ObjectStorageSession \<Rightarrow> bucket_options \<Rightarrow> string \<Rightarrow> string \<Rightarrow> smap \<Rightarrow> smap outcome run" where
  "temp_bucket env sess o' mounter volumeID params =
     do {
       tempBucketName \<leftarrow> getTempBucketName env mounter volumeID;
       (if tempBucketName = []
        then fail (Status PermissionDenied (sprintf [''Unable to access the bucket: '', tempBucketName]))
        else
          attempt (createBucket sess tempBucketName (bo_kpRootKeyCrn o'))
            (\<lambda>err. fail (Status PermissionDenied (sprintf [error_text err, '': '', tempBucketName])))
            (\<lambda>_. attempt (apply_quota sess o' True tempBucketName) fail
               (\<lambda>_. attempt (apply_versioning sess o' True ''temp bucket'' tempBucketName) fail
                  (\<lambda>_. ret (mput (mput params ''userProvidedBucket'' ''false'') ''bucketName'' tempBucketName)))))
     }"


subsection \<open>The handlers\<close>

text \<open>
  \<open>create_from_secret\<close> is \<open>CreateVolume\<close> from the point where the secret's parameters
  are known.
\<close>

definition create_from_secret ::
    "env \<Rightarrow> controllerServer \<Rightarrow> CreateVolumeRequest \<Rightarrow> string \<Rightarrow> smap \<times> smap \<times> string
     \<Rightarrow> CreateVolumeResponse outcome run" where
  "create_from_secret env cs req volumeID = (\<lambda>(secretMap, params, customSecretName).
     attempt (lift_res (check_quota secretMap (required_bytes req))) fail (\<lambda>quotaLimitEnabled.
     (let (endPoint, params) = prefer_secret ''cosEndpoint'' secretMap params
      in if endPoint = [] then fail (invalid ''cosEndpoint unknown'') else
     (let (locationConstraint, params) = prefer_secret ''locationConstraint'' secretMap params
      in if locationConstraint = [] then fail (invalid ''locationConstraint unknown'') else
     (let (mounter, params) = prefer_secret ''mounter'' secretMap params;
          bucketName = mget secretMap ''bucketName''
      in attempt (lift_res (pick_versioning secretMap params customSecretName)) fail (\<lambda>bucketVersioning.
         (case getObjectStorageCredentialsFromSecret secretMap (cs_iamEndpoint cs) of
            Inl err \<Rightarrow> fail (invalid (sprintf [''Error in getting credentials '', error_text err]))
          | Inr creds \<Rightarrow>
              attempt (cs_cosSession cs endPoint locationConstraint creds) fail (\<lambda>sess.
                (let params = mput params ''userProvidedBucket'' ''true'';
                     o' = \<lparr> bo_endPoint = endPoint, bo_kpRootKeyCrn = mget secretMap ''kpRootKeyCRN'',
                            bo_iamEndpoint = cred_IAMEndpoint creds,
                            bo_quotaLimitEnabled = quotaLimitEnabled,
                            bo_quotaBytes = required_bytes req,
                            bo_resConfApikey = mget secretMap ResourceConfigApiKey,
                            bo_bucketVersioning = bucketVersioning \<rparr>
                 in attempt
                      (if bucketName \<noteq> [] then provided_bucket sess o' bucketName params
                       else temp_bucket env sess o' mounter volumeID params)
                      fail
                      (\<lambda>params. ret \<lparr> vol_id = volumeID, vol_capacity = required_bytes req,
                                      vol_context = params \<rparr>))))))))))"

definition CreateVolume ::
    "env \<Rightarrow> controllerServer \<Rightarrow> CreateVolumeRequest \<Rightarrow> CreateVolumeResponse outcome run" where
  "CreateVolume env cs req =
     (case ReplaceAndReturnCopy (CreateReq req) of
        Inl err \<Rightarrow> fail (invalid (sprintf [''Error in modifying requests '', error_text err]))
      | Inr _ \<Rightarrow>
     (case sanitizeVolumeID (cv_name req) of
        Inl err \<Rightarrow> fail (invalid (sprintf [''Error in sanitizeVolumeID '', error_text err]))
      | Inr volumeID \<Rightarrow>
     (if volumeID = [] then fail (invalid ''Volume name missing in request'')
      else
        attempt (lift_res (check_capabilities (cv_capabilities req))) fail (\<lambda>_.
          (let params = deref (cv_parameters req);
               secretMap = deref (cv_secrets req)
           in attempt
                (if secretMap = [] then custom_secret cs params else ret (secretMap, params, []))
                fail
                (create_from_secret env cs req volumeID))))))"

text \<open>
  \<open>DeleteVolume\<close>: the secret, the endpoint and the location come from the request, or from the
  persistent volume and the secret that it names; then the bucket.
\<close>

definition delete_secret ::
    "controllerServer \<Rightarrow> string \<Rightarrow> smap \<Rightarrow> (smap \<times> string \<times> string) outcome run" where
  "delete_secret cs volumeID secretMap =
     (if secretMap = [] then
        attempt (GetPV (cs_Stats cs) volumeID) fail (\<lambda>p.
        attempt (deref_ptr (pv_csi p)) fail (\<lambda>csi.
        attempt (deref_ptr (csi_secret_ref csi)) fail (\<lambda>(secretName, ns).
          if secretName = []
          then fail (invalid ''Secret details not found, could not fetch the secret <nil>'')
          else
            attempt (if ns = [] then deref_ptr (pv_claim_ns p) else ret ns) fail (\<lambda>secretNamespace.
            attempt (GetSecret (cs_Stats cs) secretName secretNamespace)
              (\<lambda>err. fail (invalid (sprintf [''error getting Secret: '', error_text err])))
              (\<lambda>s. ret (parseCustomSecret s,
                         mget (volume_attributes csi) ''cosEndpoint'',
                         mget (volume_attributes csi) ''locationConstraint''))))))
      else ret (secretMap, mget secretMap ''cosEndpoint'', mget secretMap ''locationConstraint''))"

definition delete_own_bucket ::
    "controllerServer \<Rightarrow> string \<Rightarrow> ObjectStorageSession \<Rightarrow> unit outcome run" where
  "delete_own_bucket cs volumeID sess =
     attempt (BucketToDelete (cs_Stats cs) volumeID)
       (\<lambda>_. ret ())
       (\<lambda>bucketToDelete.
          if bucketToDelete \<noteq> []
          then attempt (DeleteBucket sess bucketToDelete) (\<lambda>_. ret ()) ret
          else ret ())"

definition DeleteVolume :: "controllerServer \<Rightarrow> DeleteVolumeRequest \<Rightarrow> unit outcome run" where
  "DeleteVolume cs req =
     (case ReplaceAndReturnCopy (DeleteReq req) of
        Inl err \<Rightarrow> fail (invalid (sprintf [''Error in modifying requests '', error_text err]))
      | Inr _ \<Rightarrow>
     (let volumeID = dv_volume_id req
      in if volumeID = [] then fail (invalid ''Volume ID missing in request'')
         else
           attempt (delete_secret cs volumeID (deref (dv_secrets req))) fail
             (\<lambda>(secretMap, endPoint, locationConstraint).
                (case getObjectStorageCredentialsFromSecret secretMap (cs_iamEndpoint cs) of
                   Inl err \<Rightarrow> fail (invalid (sprintf [''Error in getting credentials '', error_text err]))
                 | Inr creds \<Rightarrow>
                     attempt (cs_cosSession cs endPoint locationConstraint creds) fail
                       (delete_own_bucket cs volumeID)))))"

definition volumeCapabilities :: "access_mode list" where
  "volumeCapabilities = [SINGLE_NODE_WRITER]"

definition isValidVolumeCapabilities :: "VolumeCapability list \<Rightarrow> bool" where
  "isValidVolumeCapabilities volCaps =
     foldl (\<lambda>foundAll c. if list_ex (\<lambda>m. m = GetMode c) volumeCapabilities then foundAll else False)
       True volCaps"

text \<open>The result is the field \<open>Confirmed\<close> of the response, which may be nil.\<close>

definition ValidateVolumeCapabilities :: "ValidateRequest \<Rightarrow> VolumeCapability list option res" where
  "ValidateVolumeCapabilities req =
     (if vv_volume_id req = [] then Inl (invalid ''Volume ID missing in request'')
      else if vv_capabilities req = [] then Inl (invalid ''Volume capabilities missing in request'')
      else Inr (if isValidVolumeCapabilities (vv_capabilities req)
                then Some (vv_capabilities req) else None))"

definition controllerCapabilities :: "controller_cap list" where
  "controllerCapabilities = [CREATE_DELETE_VOLUME]"

definition ControllerGetCapabilities :: "controller_cap list" where
  "ControllerGetCapabilities = controllerCapabilities"

text \<open>The remaining calls of the service only answer that they are not implemented.\<close>

abbreviation unimplemented :: "string \<Rightarrow> 'a outcome run" where
  "unimplemented call \<equiv> fail (Status Unimplemented call)"

definition ControllerPublishVolume :: "unit outcome run" where
  "ControllerPublishVolume = unimplemented ''ControllerPublishVolume''"

definition ControllerUnpublishVolume :: "unit outcome run" where
  "ControllerUnpublishVolume = unimplemented ''ControllerUnpublishVolume''"

definition ListVolumes :: "unit outcome run" where
  "ListVolumes = unimplemented ''ListVolumes''"

definition GetCapacity :: "unit outcome run" where
  "GetCapacity = unimplemented ''GetCapacity''"

definition CreateSnapshot :: "unit outcome run" where
  "CreateSnapshot = unimplemented ''CreateSnapshot''"

definition DeleteSnapshot :: "unit outcome run" where
  "DeleteSnapshot = unimplemented ''DeleteSnapshot''"

definition ListSnapshots :: "unit outcome run" where
  "ListSnapshots = unimplemented ''ListSnapshots''"

definition ControllerExpandVolume :: "unit outcome run" where
  "ControllerExpandVolume = unimplemented ''ControllerExpandVolume''"

definition ControllerGetVolume :: "unit outcome run" where
  "ControllerGetVolume = unimplemented ''ControllerGetVolume''"

definition ControllerModifyVolume :: "unit outcome run" where
  "ControllerModifyVolume = unimplemented ''ControllerModifyVolume''"


subsection \<open>Lemmas on the helpers\<close>

text \<open>
  A volume id is at most 64 bytes, it is the lower-case name when that has at most 63 bytes and
  its SHA-256 hash, of 64 bytes, otherwise; it is never empty for a name that is not, and the id of
  a short id is that id again.
\<close>

theorem sanitizeVolumeID_spec:
  "\<exists>v. sanitizeVolumeID name = Inr v \<and> length v \<le> 64 \<and> to_lower v = v \<and>
       (v = [] \<longleftrightarrow> name = []) \<and>
       v = (if length name \<le> 63 then to_lower name else sha256_hex (to_lower name)) \<and>
       (length v = 64 \<longleftrightarrow> length name > 63) \<and>
       sanitizeVolumeID v = (if length name \<le> 63 then Inr v else Inr (sha256_hex v))"
  by (auto simp: sanitizeVolumeID_def Let_def)

lemma custom_secret_keys_distinct: "distinct custom_secret_keys"
  by (simp add: custom_secret_keys_def key_defs)

lemma map_of_map_keys: "map_of (map (\<lambda>k. (k, f k)) ks) k = (if k \<in> set ks then Some (f k) else None)"
  by (induction ks) auto

lemma lookup_parseCustomSecret:
  "map_of (parseCustomSecret s) k =
     (if k \<in> set custom_secret_keys then Some (mget (secret_data s) k) else None)"
proof -
  have "rev (map (\<lambda>k. (k, mget (secret_data s) k)) custom_secret_keys)
      = map (\<lambda>k. (k, mget (secret_data s) k)) (rev custom_secret_keys)"
    by (simp add: rev_map)
  then show ?thesis
    unfolding parseCustomSecret_def gm.lookup_puts by (simp add: map_of_map_keys)
qed

text \<open>
  The custom secret's parameters always have the thirteen known keys, each with the value of
  the secret or the empty string, and no other key of the secret: the test for a missing
  \<open>objectPath\<close> in \<open>CreateVolume\<close> never fails, and an option such as \<open>mounter\<close> in a
  custom secret is ignored.
\<close>

theorem parseCustomSecret_spec:
  "smap_wf (parseCustomSecret s) \<and>
   (\<forall>k. map_of (parseCustomSecret s) k =
      (if k \<in> set custom_secret_keys
       then Some (case map_of (secret_data s) k of Some v \<Rightarrow> v | None \<Rightarrow> []) else None)) \<and>
   mget (parseCustomSecret s) ''mounter'' = []"
proof -
  have "smap_wf (parseCustomSecret s)"
    unfolding parseCustomSecret_def by (rule gm.wf_puts) simp
  moreover have "''mounter'' \<notin> set custom_secret_keys"
    by (simp add: custom_secret_keys_def key_defs)
  ultimately show ?thesis
    by (simp add: lookup_parseCustomSecret mget_def)
qed

text \<open>
  Credentials are made exactly when the secret has a service instance id, or both an access key
  and a secret key; a service instance id selects IAM and drops the keys; the IAM endpoint of the
  driver is used when the secret has none.
\<close>

theorem credentials_spec:
  "case getObjectStorageCredentialsFromSecret m iam of
     Inl e \<Rightarrow> mget m ''serviceId'' = [] \<and> (mget m ''accessKey'' = [] \<or> mget m ''secretKey'' = [])
   | Inr c \<Rightarrow>
       cred_IAMEndpoint c = (if mget m ''iamEndpoint'' = [] then iam else mget m ''iamEndpoint'') \<and>
       (if mget m ''serviceId'' \<noteq> []
        then conn_creds (session_conn ep lc c)
               = IamCreds (cred_IAMEndpoint c @ ''/identity/token'') (mget m ''apiKey'') (mget m ''serviceId'')
        else mget m ''accessKey'' \<noteq> [] \<and> mget m ''secretKey'' \<noteq> [] \<and>
             conn_creds (session_conn ep lc c) = StaticCreds (mget m ''accessKey'') (mget m ''secretKey''))"
  by (simp add: getObjectStorageCredentialsFromSecret_def session_conn_def Let_def)

lemma foldl_all: "foldl (\<lambda>b c. if P c then b else False) b cs = (b \<and> (\<forall>c \<in> set cs. P c))"
  by (induction cs arbitrary: b) auto

text \<open>
  \<open>ValidateVolumeCapabilities\<close> confirms exactly the non-empty requests for a volume id in
  which every capability has the access mode \<open>SINGLE_NODE_WRITER\<close>.
\<close>

theorem ValidateVolumeCapabilities_confirms:
  "ValidateVolumeCapabilities req = Inr (Some caps) \<longleftrightarrow>
     vv_volume_id req \<noteq> [] \<and> vv_capabilities req \<noteq> [] \<and> caps = vv_capabilities req \<and>
     list_all (\<lambda>c. cap_mode c = Some SINGLE_NODE_WRITER) caps"
proof -
  have "SINGLE_NODE_WRITER = GetMode c \<longleftrightarrow> cap_mode c = Some SINGLE_NODE_WRITER" for c
    by (auto simp: GetMode_def split: option.splits)
  then have "isValidVolumeCapabilities cs = list_all (\<lambda>c. cap_mode c = Some SINGLE_NODE_WRITER) cs" for cs
    by (simp add: isValidVolumeCapabilities_def volumeCapabilities_def foldl_all list_all_iff)
  then show ?thesis
    by (auto simp: ValidateVolumeCapabilities_def)
qed

end
