(* ===== verification/MounterUtils.thy ===== *)
theory MounterUtils
  imports SysCalls
begin

section \<open>Mounting and unmounting with FUSE: pkg/mounter/utils/mounter_utils.go\<close>

text \<open>
  The interface \<open>MounterUtils\<close> is a record; \<open>MounterOptsUtils env\<close> is its implementation.

  \<open>FuseMount\<close> runs three goroutines that meet at two channels of capacity one: the caller in
  its \<open>select\<close>, one that waits for the command, and \<open>waitForMount\<close>, which polls. The state
  of the three is \<open>fuse_state\<close>; an action of one of them is a \<open>fuse_action\<close>;
  \<open>fuse_act\<close> performs it. \<open>fuse_run\<close> lets the scheduler choose among the actions that are
  enabled until the caller has returned. Its fuel is \<open>fuse_fuel\<close>; the theorems show that the
  fuel never runs out, whatever the scheduler chooses.
\<close>

record MounterUtils =
  mu_FuseUnmount :: "string \<Rightarrow> unit outcome run"
  mu_FuseMount :: "string \<Rightarrow> string \<Rightarrow> string list \<Rightarrow> unit outcome run"


subsection \<open>Is the path a mount point\<close>

definition isMountpoint :: "env \<Rightarrow> string \<Rightarrow> bool res run" where
  "isMountpoint env pathname =
     do {
       (out, err) \<leftarrow> sys_run_mountpoint env pathname;
       let outStr = to_lower (trim_space out);
       State_Monad.return
         (case err of
            Some e \<Rightarrow>
              (if has_suffix outStr ''transport endpoint is not connected'' then Inr True
               else if has_suffix outStr ''is not a mountpoint'' then Inr False
               else Inl (Plain (sprintf [''failed to check mountpoint for path '', squote pathname, '', error: '',
                      error_text e, '', output: '', out])))
          | None \<Rightarrow> Inr (has_suffix outStr ''is a mountpoint''))
     }"


subsection \<open>FuseMount\<close>

datatype main_pc = Selecting | AwaitMount | Returned "unit res"

datatype poller = PollDelay | PollAt nat | PollDone

record fuse_state =
  fm_main :: main_pc
  fm_waiting :: bool
  fm_waitCh :: "unit res option"
  fm_poller :: poller
  fm_mountCh :: "unit res option"
  fm_cancelled :: bool

datatype fuse_action = ActWait | ActDelay | ActPoll | ActRecvWait | ActRecvMount

definition fuse_init :: fuse_state where
  "fuse_init = \<lparr> fm_main = Selecting, fm_waiting = True, fm_waitCh = None,
                 fm_poller = PollDelay, fm_mountCh = None, fm_cancelled = False \<rparr>"

text \<open>The poll delay, interval and time limit of \<open>waitForMount\<close>, in milliseconds.\<close>

definition poll_delay :: nat where
  "poll_delay = 2000"

definition poll_limit :: nat where
  "poll_limit = 30000"

fun fuse_enabled :: "fuse_state \<Rightarrow> fuse_action \<Rightarrow> bool" where
  "fuse_enabled s ActWait = fm_waiting s"
| "fuse_enabled s ActDelay = (fm_poller s = PollDelay)"
| "fuse_enabled s ActPoll = (case fm_poller s of PollAt _ \<Rightarrow> True | _ \<Rightarrow> False)"
| "fuse_enabled s ActRecvWait = (fm_main s = Selecting \<and> fm_waitCh s \<noteq> None)"
| "fuse_enabled s ActRecvMount = ((fm_main s = Selecting \<or> fm_main s = AwaitMount) \<and> fm_mountCh s \<noteq> None)"

definition enabled_actions :: "fuse_state \<Rightarrow> fuse_action list" where
  "enabled_actions s =
     filter (fuse_enabled s) [ActWait, ActDelay, ActPoll, ActRecvWait, ActRecvMount]"

text \<open>
  The deferred call: the context is cancelled when the caller returns without the mount.
\<close>

definition fuse_return :: "unit res \<Rightarrow> fuse_state \<Rightarrow> fuse_state run" where
  "fuse_return r s =
     (case r of
        Inr _ \<Rightarrow> State_Monad.return (s\<lparr> fm_main := Returned r \<rparr>)
      | Inl _ \<Rightarrow>
          do {
            _ \<leftarrow> ctx_cancel;
            State_Monad.return (s\<lparr> fm_main := Returned r, fm_cancelled := True \<rparr>)
          })"

definition poll_once :: "env \<Rightarrow> string \<Rightarrow> nat \<Rightarrow> fuse_state \<Rightarrow> fuse_state run" where
  "poll_once env path elapsed s =
     (if fm_cancelled s
      then State_Monad.return
             (s\<lparr> fm_mountCh := Some (Inl (CtxErr ''context canceled'')), fm_poller := PollDone \<rparr>)
      else
        do {
          r \<leftarrow> k8s_IsMountPoint env path;
          (if r = Inr True
           then State_Monad.return (s\<lparr> fm_mountCh := Some (Inr ()), fm_poller := PollDone \<rparr>)
           else
             do {
               _ \<leftarrow> time_Sleep Interval;
               let elapsed' = elapsed + Interval;
               State_Monad.return
                 (if elapsed' \<ge> poll_limit
                  then s\<lparr> fm_mountCh := Some (Inl (Plain (sprintf
                             [''timeout waiting for mount. Last check response: isMount='',
                              dec_bool (case r of Inr b \<Rightarrow> b | Inl _ \<Rightarrow> False), '', err='',
                              (case r of Inl e \<Rightarrow> error_text e | Inr _ \<Rightarrow> ''<nil>''),
                              '', timeout=3m0s'']))), fm_poller := PollDone \<rparr>
                  else s\<lparr> fm_poller := PollAt elapsed' \<rparr>)
             })
        })"

fun fuse_act :: "env \<Rightarrow> string \<Rightarrow> string \<Rightarrow> fuse_action \<Rightarrow> fuse_state \<Rightarrow> fuse_state run" where
  "fuse_act env path comm ActWait s =
     do {
       r \<leftarrow> cmd_Wait env comm;
       State_Monad.return (s\<lparr> fm_waiting := False, fm_waitCh := Some r \<rparr>)
     }"
| "fuse_act env path comm ActDelay s =
     do {
       _ \<leftarrow> time_Sleep poll_delay;
       State_Monad.return (s\<lparr> fm_poller := PollAt 0 \<rparr>)
     }"
| "fuse_act env path comm ActPoll s =
     (case fm_poller s of PollAt n \<Rightarrow> poll_once env path n s | _ \<Rightarrow> State_Monad.return s)"
| "fuse_act env path comm ActRecvWait s =
     (case fm_waitCh s of
        None \<Rightarrow> State_Monad.return s
      | Some (Inr _) \<Rightarrow> State_Monad.return (s\<lparr> fm_main := AwaitMount, fm_waitCh := None \<rparr>)
      | Some (Inl e) \<Rightarrow>
          do {
            m \<leftarrow> isMountpoint env path;
            fuse_return
              (if m = Inr True then Inr ()
               else Inl (Plain (sprintf [squote comm, '' mount failed: '', error_text e])))
              (s\<lparr> fm_waitCh := None \<rparr>)
          })"
| "fuse_act env path comm ActRecvMount s =
     (case fm_mountCh s of
        None \<Rightarrow> State_Monad.return s
      | Some r \<Rightarrow>
          fuse_return
            (case r of
               Inr u \<Rightarrow> Inr u
             | Inl e \<Rightarrow>
                 (if fm_main s = Selecting
                  then Inl (Plain (sprintf [squote comm, '' mount failed: '', error_text e]))
                  else Inl e))
            (s\<lparr> fm_mountCh := None \<rparr>))"

fun fuse_run :: "env \<Rightarrow> string \<Rightarrow> string \<Rightarrow> nat \<Rightarrow> fuse_state \<Rightarrow> fuse_state option run" where
  "fuse_run env path comm 0 s = State_Monad.return None"
| "fuse_run env path comm (Suc n) s =
     (case fm_main s of
        Returned _ \<Rightarrow> State_Monad.return (Some s)
      | _ \<Rightarrow>
          (let as = enabled_actions s
           in if as = [] then State_Monad.return None
              else
                do {
                  k \<leftarrow> go_schedule env;
                  s' \<leftarrow> fuse_act env path comm (as ! (k mod length as)) s;
                  fuse_run env path comm n s'
                }))"

text \<open>
  One step for the wait, one for the delay, at most sixty polls, two receptions, and one to see
  that the caller has returned.
\<close>

definition fuse_fuel :: nat where
  "fuse_fuel = 66"

definition FuseMount :: "env \<Rightarrow> string \<Rightarrow> string \<Rightarrow> string list \<Rightarrow> unit outcome run" where
  "FuseMount env path comm args =
     attempt (cmd_Start env comm args)
       (\<lambda>err. State_Monad.bind ctx_cancel
          (\<lambda>_. fail (Plain (sprintf [''FuseMount: '', squote comm, '' command start failed: '', error_text err]))))
       (\<lambda>_. do {
          s \<leftarrow> fuse_run env path comm fuse_fuel fuse_init;
          (case s of
             Some s' \<Rightarrow> (case fm_main s' of Returned r \<Rightarrow> lift_res r | _ \<Rightarrow> panic ''all goroutines are asleep'')
           | None \<Rightarrow> panic ''all goroutines are asleep'')
        })"


subsection \<open>FuseMount returns, and what it has seen\<close>

fun poll_work :: "poller \<Rightarrow> nat" where
  "poll_work PollDelay = 62"
| "poll_work (PollAt n) = (poll_limit - n) div Interval + 1"
| "poll_work PollDone = 0"

fun main_work :: "main_pc \<Rightarrow> nat" where
  "main_work Selecting = 2"
| "main_work AwaitMount = 1"
| "main_work (Returned _) = 0"

definition fuse_work :: "fuse_state \<Rightarrow> nat" where
  "fuse_work s = (if fm_waiting s then 1 else 0) + poll_work (fm_poller s) + main_work (fm_main s)"

text \<open>An event in which the operating system says that \<open>path\<close> is mounted.\<close>

fun seen_mounted :: "string \<Rightarrow> event \<Rightarrow> bool" where
  "seen_mounted path (Proc (EvIsMountPoint p r)) \<longleftrightarrow> p = path \<and> r = Inr True"
| "seen_mounted path (Fs (EvMountpoint p (out, err))) \<longleftrightarrow> p = path \<and>
     (case err of
        Some _ \<Rightarrow> has_suffix (to_lower (trim_space out)) ''transport endpoint is not connected''
      | None \<Rightarrow> has_suffix (to_lower (trim_space out)) ''is a mountpoint'')"
| "seen_mounted path _ \<longleftrightarrow> False"

fun is_poll :: "event \<Rightarrow> bool" where
  "is_poll (Proc (EvIsMountPoint _ _)) = True"
| "is_poll _ = False"

definition polls :: "event list \<Rightarrow> nat" where
  "polls es = length (filter is_poll es)"

lemma polls_simps [simp]: "polls [] = 0" "polls (es @ es') = polls es + polls es'"
  "polls (e # es) = (if is_poll e then Suc (polls es) else polls es)"
  by (simp_all add: polls_def)

text \<open>
  The invariant: while the caller waits, the context is live, and the poller has either not
  finished or its result is in the channel; a success in the channel, or returned, has been seen;
  a failure that was returned cancelled the context.
\<close>

definition fuse_inv :: "string \<Rightarrow> fuse_state \<Rightarrow> event list \<Rightarrow> bool" where
  "fuse_inv path s es \<longleftrightarrow>
     (case fm_poller s of
        PollDelay \<Rightarrow> polls es = 0
      | PollAt n \<Rightarrow> n = Interval * polls es \<and> n < poll_limit
      | PollDone \<Rightarrow> polls es \<le> 60) \<and>
     (fm_mountCh s = Some (Inr ()) \<longrightarrow> list_ex (seen_mounted path) es) \<and>
     (case fm_main s of
        Returned (Inr _) \<Rightarrow> list_ex (seen_mounted path) es \<and> Proc EvCancel \<notin> set es
      | Returned (Inl _) \<Rightarrow> es \<noteq> [] \<and> last es = Proc EvCancel
      | _ \<Rightarrow> \<not> fm_cancelled s \<and> Proc EvCancel \<notin> set es \<and> (fm_poller s = PollDone \<longleftrightarrow> fm_mountCh s \<noteq> None))"

definition waiting_main :: "fuse_state \<Rightarrow> bool" where
  "waiting_main s \<longleftrightarrow> fm_main s = Selecting \<or> fm_main s = AwaitMount"

lemma waiting_main_cases: "waiting_main s \<or> (\<exists>r. fm_main s = Returned r)"
  by (cases "fm_main s") (auto simp: waiting_main_def)

lemma enabled_actionsD: "a \<in> set (enabled_actions s) \<Longrightarrow> fuse_enabled s a"
  unfolding enabled_actions_def set_filter by blast

text \<open>Progress: as long as the caller has not returned, some goroutine can go on.\<close>

lemma enabled_nonempty:
  assumes "fuse_inv path s es" and "waiting_main s"
  shows "enabled_actions s \<noteq> []"
proof (cases "fm_poller s")
  case PollDelay
  then show ?thesis by (simp add: enabled_actions_def)
next
  case (PollAt n)
  then show ?thesis by (simp add: enabled_actions_def)
next
  case PollDone
  with assms have "fm_mountCh s \<noteq> None"
    by (auto simp: fuse_inv_def waiting_main_def)
  with assms(2) have "fuse_enabled s ActRecvMount"
    by (auto simp: waiting_main_def)
  then show ?thesis by (simp add: enabled_actions_def del: fuse_enabled.simps)
qed

lemma isMountpoint_yields:
  "yields (isMountpoint env path)
     (\<lambda>r es. (\<exists>x. es = [Fs (EvMountpoint path x)]) \<and> (r = Inr True \<longrightarrow> list_ex (seen_mounted path) es))"
  unfolding isMountpoint_def sys_fs_defs Let_def
  by (rule yields_bind [OF yields_ask [where Q = "\<lambda>x es. es = [Fs (EvMountpoint path x)]"]])
     (auto intro!: yields_return split: option.splits if_splits)

lemma fuse_return_yields:
  "yields (fuse_return r s)
     (\<lambda>s' es. fm_main s' = Returned r \<and> fm_poller s' = fm_poller s \<and> fm_waiting s' = fm_waiting s \<and>
        fm_mountCh s' = fm_mountCh s \<and> es = (if is_err r then [Proc EvCancel] else []))"
  unfolding fuse_return_def ctx_cancel_def
  by (auto split: sum.split intro!: yields_return yields_bind [OF yields_tell [where Q = "\<lambda>_ es. es = [Proc EvCancel]"]])

lemma poll_work_at: "k < 60 \<Longrightarrow> poll_work (PollAt (Interval * k)) = 61 - k"
proof -
  assume "k < 60"
  have "(30000::nat) - 500 * k = 500 * (60 - k)" by simp
  then have "(poll_limit - Interval * k) div Interval = 60 - k"
    by (simp add: poll_limit_def Interval_def)
  with \<open>k < 60\<close> show ?thesis by simp
qed

lemma poll_limit_iff: "Interval * k < poll_limit \<longleftrightarrow> k < 60"
  by (simp add: poll_limit_def Interval_def)

lemma poll_once_yields:
  assumes inv: "fuse_inv path s es" and w: "waiting_main s" and at: "fm_poller s = PollAt n"
  shows "yields (poll_once env path n s) (\<lambda>s' es'. fuse_inv path s' (es @ es') \<and> fuse_work s' < fuse_work s)"
proof -
  from inv at have n: "n = Interval * polls es" "polls es < 60" and live: "fm_mountCh s = None" "\<not> fm_cancelled s"
    using w by (auto simp: fuse_inv_def waiting_main_def poll_limit_iff)
  have work: "poll_work (PollAt n) = 61 - polls es"
    using n poll_work_at by simp
  have limit: "poll_limit \<le> n + Interval \<longleftrightarrow> \<not> Suc (polls es) < 60"
    using poll_limit_iff [of "Suc (polls es)"] n(1) by (simp add: not_less [symmetric] add.commute)
  have next_work: "poll_work (PollAt (n + Interval)) = 60 - polls es" if "Suc (polls es) < 60"
    using poll_work_at [OF that] n(1) by (simp add: add.commute)
  let ?post = "\<lambda>s' es'. fuse_inv path s' (es @ es') \<and> fuse_work s' < fuse_work s"
  have main: "Proc EvCancel \<notin> set es" "fm_main s = Selecting \<or> fm_main s = AwaitMount"
    using inv w by (auto simp: fuse_inv_def waiting_main_def)
  have done': "?post (s\<lparr> fm_mountCh := Some r, fm_poller := PollDone \<rparr>) es1"
    if "polls es1 \<le> 1" "Proc EvCancel \<notin> set es1" "r = Inr () \<Longrightarrow> list_ex (seen_mounted path) es1" for r es1
    using main n(2) work that at live(2) by (elim disjE) (auto simp: fuse_inv_def fuse_work_def)
  have timed_out: "?post (s\<lparr> fm_mountCh := Some (Inl e), fm_poller := PollDone \<rparr>) es1"
    if "polls es1 \<le> 1" "Proc EvCancel \<notin> set es1" for e es1
    using done' [of es1 "Inl e"] that by simp
  have again: "?post (s\<lparr> fm_poller := PollAt (n + Interval) \<rparr>) es1"
    if "polls es1 = 1" "Proc EvCancel \<notin> set es1" "Suc (polls es) < 60" for es1
    using main n work that at live next_work [OF that(3)] limit
    by (elim disjE) (auto simp: fuse_inv_def fuse_work_def)
  show ?thesis
    unfolding poll_once_def time_Sleep_def k8s_IsMountPoint_def Let_def if_not_P [OF live(2)]
  proof (rule yields_bind [OF yields_ask [where Q = "\<lambda>r es'. es' = [Proc (EvIsMountPoint path r)]"]], simp)
    fix r and es1 :: "event list"
    assume es1: "es1 = [Proc (EvIsMountPoint path r)]"
    let ?next = "if poll_limit \<le> n + Interval
        then s\<lparr> fm_mountCh := Some (Inl (Plain (sprintf
                   [''timeout waiting for mount. Last check response: isMount='',
                    dec_bool (case r of Inr b \<Rightarrow> b | Inl _ \<Rightarrow> False), '', err='',
                    (case r of Inl e \<Rightarrow> error_text e | Inr _ \<Rightarrow> ''<nil>''), '', timeout=3m0s'']))),
                fm_poller := PollDone \<rparr>
        else s\<lparr> fm_poller := PollAt (n + Interval) \<rparr>"
    have "?post ?next (es1 @ [Proc (EvSleep Interval)])"
    proof (cases "poll_limit \<le> n + Interval")
      case True
      then show ?thesis using timed_out [of "es1 @ [Proc (EvSleep Interval)]"] by (simp add: es1)
    next
      case False
      with limit have "Suc (polls es) < 60" by simp
      then show ?thesis using again [of "es1 @ [Proc (EvSleep Interval)]"] False by (simp add: es1)
    qed
    moreover have "?post (s\<lparr> fm_mountCh := Some (Inr ()), fm_poller := PollDone \<rparr>) es1" if "r = Inr True"
      using done' [of es1 "Inr ()"] that by (simp add: es1)
    ultimately show "yields
      (if r = Inr True then State_Monad.return (s\<lparr> fm_mountCh := Some (Inr ()), fm_poller := PollDone \<rparr>)
       else do { _ \<leftarrow> tell (Proc (EvSleep Interval)); State_Monad.return ?next })
      (\<lambda>s' es'. ?post s' (es1 @ es'))"
      by (auto intro!: yields_return
          yields_bind [OF yields_tell [where Q = "\<lambda>_ es'. es' = [Proc (EvSleep Interval)]"]] simp del: if_split)
  qed
qed

lemma fuse_return_inv:
  assumes inv: "fuse_inv path s es" and w: "waiting_main s"
    and s0: "fm_poller s0 = fm_poller s" "fm_waiting s0 = fm_waiting s"
      "fm_mountCh s0 = fm_mountCh s \<or> fm_mountCh s0 = None"
    and es1: "polls es1 = 0" "Proc EvCancel \<notin> set es1"
    and seen: "r = Inr () \<Longrightarrow> list_ex (seen_mounted path) (es @ es1)"
  shows "yields (fuse_return r s0) (\<lambda>s' es'. fuse_inv path s' (es @ es1 @ es') \<and> fuse_work s' < fuse_work s)"
proof (rule yields_mono [OF fuse_return_yields], elim conjE)
  fix s' :: fuse_state and es'
  assume s': "fm_main s' = Returned r" "fm_poller s' = fm_poller s0" "fm_waiting s' = fm_waiting s0"
      "fm_mountCh s' = fm_mountCh s0"
    and es': "es' = (if is_err r then [Proc EvCancel] else [])"
  have polls: "polls (es @ es1 @ es') = polls es"
    using es1 es' by simp
  have "fuse_work s' < fuse_work s"
    using s' s0 w by (auto simp: fuse_work_def waiting_main_def)
  moreover have "fm_mountCh s' = Some (Inr ()) \<longrightarrow> list_ex (seen_mounted path) (es @ es1 @ es')"
    using inv s'(4) s0(3) by (auto simp: fuse_inv_def)
  moreover have "case fm_poller s' of
        PollDelay \<Rightarrow> polls (es @ es1 @ es') = 0
      | PollAt n \<Rightarrow> n = Interval * polls (es @ es1 @ es') \<and> n < poll_limit
      | PollDone \<Rightarrow> polls (es @ es1 @ es') \<le> 60"
    using inv s'(2) s0(1) unfolding polls by (simp add: fuse_inv_def)
  moreover have "Proc EvCancel \<notin> set es"
    using inv w by (auto simp: fuse_inv_def waiting_main_def)
  ultimately show "fuse_inv path s' (es @ es1 @ es') \<and> fuse_work s' < fuse_work s"
    using s'(1) es' es1(2) seen by (cases r; cases "fm_poller s'") (simp_all add: fuse_inv_def)
qed

lemma fuse_act_yields:
  assumes inv: "fuse_inv path s es" and w: "waiting_main s" and en: "fuse_enabled s a"
  shows "yields (fuse_act env path comm a s) (\<lambda>s' es'. fuse_inv path s' (es @ es') \<and> fuse_work s' < fuse_work s)"
proof (cases a)
  case ActWait
  with inv w en show ?thesis
    by (auto simp: cmd_Wait_def fuse_inv_def fuse_work_def waiting_main_def
        intro!: yields_return yields_bind [OF yields_ask [where Q = "\<lambda>r es'. es' = [Proc (EvCmdWait comm r)]"]]
        split: poller.splits)
next
  case ActDelay
  with inv w en show ?thesis
    by (auto simp: time_Sleep_def fuse_inv_def fuse_work_def waiting_main_def poll_limit_def Interval_def
        intro!: yields_return yields_bind [OF yields_tell [where Q = "\<lambda>_ es'. es' = [Proc (EvSleep poll_delay)]"]])
next
  case ActPoll
  with en obtain n where n: "fm_poller s = PollAt n"
    by (auto split: poller.splits)
  then show ?thesis
    using poll_once_yields [OF inv w n] ActPoll by simp
next
  case ActRecvWait
  with en obtain r where r: "fm_waitCh s = Some r" and sel: "fm_main s = Selecting" by auto
  show ?thesis
  proof (cases r)
    case (Inr u)
    with inv sel ActRecvWait r show ?thesis
      by (cases "fm_poller s") (auto simp: fuse_inv_def fuse_work_def intro!: yields_return)
  next
    case (Inl e)
    have "yields (do {
            m \<leftarrow> isMountpoint env path;
            fuse_return
              (if m = Inr True then Inr ()
               else Inl (Plain (sprintf [squote comm, '' mount failed: '', error_text e])))
              (s\<lparr> fm_waitCh := None \<rparr>)
          }) (\<lambda>s' es'. fuse_inv path s' (es @ es') \<and> fuse_work s' < fuse_work s)"
      by (rule yields_bind [OF isMountpoint_yields], rule fuse_return_inv [OF inv w])
         (auto split: if_splits)
    with ActRecvWait r Inl show ?thesis by simp
  qed
next
  case ActRecvMount
  with en obtain r where r: "fm_mountCh s = Some r" by auto
  have "list_ex (seen_mounted path) es" if "r = Inr ()"
    using inv r that by (simp add: fuse_inv_def)
  then have "yields (fuse_return
            (case r of
               Inr u \<Rightarrow> Inr u
             | Inl e \<Rightarrow>
                 (if fm_main s = Selecting
                  then Inl (Plain (sprintf [squote comm, '' mount failed: '', error_text e]))
                  else Inl e))
            (s\<lparr> fm_mountCh := None \<rparr>))
     (\<lambda>s' es'. fuse_inv path s' (es @ [] @ es') \<and> fuse_work s' < fuse_work s)"
    by (intro fuse_return_inv [OF inv w]) (auto split: sum.splits if_splits)
  with ActRecvMount r show ?thesis by simp
qed

lemma fuse_run_yields:
  assumes "fuse_inv path s es" and "fuse_work s < n"
  shows "yields (fuse_run env path comm n s)
     (\<lambda>r es'. \<exists>s' x. r = Some s' \<and> fm_main s' = Returned x \<and> fuse_inv path s' (es @ es'))"
  using assms
proof (induction n arbitrary: s es)
  case (Suc n)
  show ?case
  proof (cases "waiting_main s")
    case False
    then obtain x where "fm_main s = Returned x" using waiting_main_cases by blast
    then show ?thesis using Suc.prems(1) by (auto intro!: yields_return)
  next
    case True
    let ?as = "enabled_actions s"
    have ne: "?as \<noteq> []" by (rule enabled_nonempty [OF Suc.prems(1) True])
    have en: "fuse_enabled s (?as ! (k mod length ?as))" for k
      using nth_mem [of "k mod length ?as" ?as] ne by (intro enabled_actionsD) simp
    have inv_k: "fuse_inv path s (es @ [Proc (EvSchedule k)])" for k
      using Suc.prems(1) True by (auto simp: fuse_inv_def waiting_main_def split: poller.splits)
    have "yields (do {
                  k \<leftarrow> go_schedule env;
                  s' \<leftarrow> fuse_act env path comm (?as ! (k mod length ?as)) s;
                  fuse_run env path comm n s'
                })
     (\<lambda>r es'. \<exists>s' x. r = Some s' \<and> fm_main s' = Returned x \<and> fuse_inv path s' (es @ es'))"
      unfolding go_schedule_def
    proof (rule yields_bind [OF yields_ask [where Q = "\<lambda>k es'. es' = [Proc (EvSchedule k)]"]], simp)
      fix k :: nat and es1 :: "event list"
      assume es1: "es1 = [Proc (EvSchedule k)]"
      show "yields (do {
                  s' \<leftarrow> fuse_act env path comm (?as ! (k mod length ?as)) s;
                  fuse_run env path comm n s'
                })
         (\<lambda>r es'. \<exists>s' x. r = Some s' \<and> fm_main s' = Returned x \<and> fuse_inv path s' (es @ es1 @ es'))"
      proof (rule yields_bind [OF fuse_act_yields [OF inv_k True en]], elim conjE)
        fix s' es2
        assume "fuse_inv path s' ((es @ [Proc (EvSchedule k)]) @ es2)" and "fuse_work s' < fuse_work s"
        with Suc.prems(2) have "fuse_inv path s' (es @ es1 @ es2)" "fuse_work s' < n"
          by (simp_all add: es1)
        from Suc.IH [OF this]
        show "yields (fuse_run env path comm n s')
           (\<lambda>r es'. \<exists>s' x. r = Some s' \<and> fm_main s' = Returned x \<and> fuse_inv path s' (es @ es1 @ es2 @ es'))"
          by simp
      qed
    qed
    then show ?thesis
      using True ne by (auto simp: waiting_main_def Let_def)
  qed
qed simp

lemma FuseMount_yields:
  "yields (FuseMount env path comm args)
     (\<lambda>r es. polls es \<le> 60 \<and>
        (case r of
           Ret _ \<Rightarrow> list_ex (seen_mounted path) es \<and> Proc EvCancel \<notin> set es
         | Fail _ \<Rightarrow> es \<noteq> [] \<and> last es = Proc EvCancel
         | Panic _ \<Rightarrow> False))"
proof -
  have start: "fuse_inv path fuse_init []" "fuse_work fuse_init < fuse_fuel"
    by (simp_all add: fuse_inv_def fuse_init_def fuse_work_def fuse_fuel_def poll_limit_def Interval_def)
  have bound: "polls es \<le> 60" if "fuse_inv path s es" for s es
    using that by (auto simp: fuse_inv_def poll_limit_iff split: poller.splits)
  show ?thesis
    unfolding FuseMount_def cmd_Start_def
  proof (rule yields_attempt [OF yields_reply])
    fix u es
    assume "\<exists>x. es = [Proc (EvCmdStart comm args x)] \<and> Ret u = of_res x"
    then obtain x where es: "es = [Proc (EvCmdStart comm args x)]" by blast
    show "yields (do {
          s \<leftarrow> fuse_run env path comm fuse_fuel fuse_init;
          (case s of
             Some s' \<Rightarrow> (case fm_main s' of Returned r \<Rightarrow> lift_res r | _ \<Rightarrow> panic ''all goroutines are asleep'')
           | None \<Rightarrow> panic ''all goroutines are asleep'')
        })
      (\<lambda>r es'. polls (es @ es') \<le> 60 \<and>
        (case r of
           Ret _ \<Rightarrow> list_ex (seen_mounted path) (es @ es') \<and> Proc EvCancel \<notin> set (es @ es')
         | Fail _ \<Rightarrow> es @ es' \<noteq> [] \<and> last (es @ es') = Proc EvCancel
         | Panic _ \<Rightarrow> False))"
    proof (rule yields_bind [OF fuse_run_yields [OF start]], elim exE conjE)
      fix r es' s' x
      assume r: "r = Some s'" and ret: "fm_main s' = Returned x" and inv: "fuse_inv path s' ([] @ es')"
      then show "yields (case r of
             Some s' \<Rightarrow> (case fm_main s' of Returned r \<Rightarrow> lift_res r | _ \<Rightarrow> panic ''all goroutines are asleep'')
           | None \<Rightarrow> panic ''all goroutines are asleep'')
         (\<lambda>r es''. polls (es @ es' @ es'') \<le> 60 \<and>
            (case r of
               Ret _ \<Rightarrow> list_ex (seen_mounted path) (es @ es' @ es'') \<and> Proc EvCancel \<notin> set (es @ es' @ es'')
             | Fail _ \<Rightarrow> es @ es' @ es'' \<noteq> [] \<and> last (es @ es' @ es'') = Proc EvCancel
             | Panic _ \<Rightarrow> False))"
        using bound [OF inv] es
        by (auto simp: fuse_inv_def split: sum.splits outcome.splits intro!: yields_lift_res)
    qed
  qed (auto simp: ctx_cancel_def intro!: yields_fail yields_bind [OF yields_tell [where Q = "\<lambda>_ es. es = [Proc EvCancel]"]])
qed

text \<open>
  C19. \<open>FuseMount\<close> always returns, whatever the scheduler, the command and the mount table do: it
  polls at most sixty times. It reports success only after the operating system has said, during
  the call, that the path is a mount point, and then leaves the command running; when it reports a
  failure its last act was to cancel the command.
\<close>

theorem FuseMount_returns:
  "yields (FuseMount env path comm args)
     (\<lambda>r es. polls es \<le> 60 \<and>
        (case r of
           Ret _ \<Rightarrow> list_ex (seen_mounted path) es \<and> Proc EvCancel \<notin> set es
         | Fail _ \<Rightarrow> es \<noteq> [] \<and> last es = Proc EvCancel
         | Panic _ \<Rightarrow> False))"
  by (rule FuseMount_yields)


subsection \<open>FuseUnmount\<close>

definition getCmdLine :: "env \<Rightarrow> nat \<Rightarrow> string outcome run" where
  "getCmdLine env pid = read_cmdline env pid"

fun find_in_processes :: "env \<Rightarrow> string \<Rightarrow> nat list \<Rightarrow> nat option outcome run" where
  "find_in_processes env path [] = ret None"
| "find_in_processes env path (pid # pids) =
     attempt (getCmdLine env pid)
       (\<lambda>_. find_in_processes env path pids)
       (\<lambda>cmdLine.
          if contains cmdLine path
          then attempt (os_FindProcess env pid) fail (\<lambda>_. ret (Some pid))
          else find_in_processes env path pids)"

definition findFuseMountProcess :: "env \<Rightarrow> string \<Rightarrow> nat option outcome run" where
  "findFuseMountProcess env path =
     attempt (ps_Processes env) fail (find_in_processes env path)"

definition ErrTimeoutWaitProcess :: gerror where
  "ErrTimeoutWaitProcess = Plain ''timeout waiting for process to end''"

text \<open>
  The recursion of the code ends at \<open>backoff = 120\<close> or when the process is gone; started above
  120 it need not end. It is a partial function of the history: no value is a call that never
  returns.
\<close>

partial_function (option) wait_process ::
    "env \<Rightarrow> nat \<Rightarrow> int \<Rightarrow> hist \<Rightarrow> (unit outcome \<times> hist) option" where
  "wait_process env pid backoff h =
     (if backoff = 120 then Some (Fail ErrTimeoutWaitProcess, h)
      else
        (case run_state (getCmdLine env pid) h of
           (Ret cmdLine, h1) \<Rightarrow>
             (if cmdLine = [] then Some (Ret (), h1)
              else
                (case run_state (process_Signal env pid) h1 of
                   (Ret _, h2) \<Rightarrow> wait_process env pid (backoff + 1) (h2 @ [Proc (EvSleep 500)])
                 | (_, h2) \<Rightarrow> Some (Ret (), h2)))
         | (_, h1) \<Rightarrow> Some (Ret (), h1)))"

definition never_returns :: string where
  "never_returns = ''the call does not return''"

definition waitForProcess :: "env \<Rightarrow> nat \<Rightarrow> int \<Rightarrow> unit outcome run" where
  "waitForProcess env pid backoff =
     State (\<lambda>h. case wait_process env pid backoff h of
                  Some x \<Rightarrow> x | None \<Rightarrow> (Panic never_returns, h))"

text \<open>The three attempts to unmount: standard, lazy, forced.\<close>

definition unmount_attempts :: "env \<Rightarrow> string \<Rightarrow> unit outcome run" where
  "unmount_attempts env path =
     attempt (syscall_Unmount env path NoFlag)
       (\<lambda>_. attempt (syscall_Unmount env path MNT_DETACH)
          (\<lambda>_. attempt (syscall_Unmount env path MNT_FORCE)
             (\<lambda>err. fail (Plain (sprintf [''all unmount attempts failed for '', path, '': '', error_text err])))
             ret)
          ret)
       ret"

text \<open>The part of \<open>FuseUnmount\<close> that waits for the FUSE process.\<close>

definition reap :: "env \<Rightarrow> string \<Rightarrow> unit outcome run" where
  "reap env path =
     attempt (findFuseMountProcess env path)
       (\<lambda>_. ret ())
       (\<lambda>process.
          case process of
            None \<Rightarrow> ret ()
          | Some pid \<Rightarrow>
              attempt (waitForProcess env pid 1)
                (\<lambda>err. if err = ErrTimeoutWaitProcess then process_Kill env pid else fail err)
                ret)"

definition FuseUnmount :: "env \<Rightarrow> string \<Rightarrow> unit outcome run" where
  "FuseUnmount env path =
     do {
       m \<leftarrow> isMountpoint env path;
       attempt
         (if m \<noteq> Inr False
          then unmount_attempts env path
          else ret ())
         fail
         (\<lambda>_. reap env path)
     }"

definition MounterOptsUtils :: "env \<Rightarrow> MounterUtils" where
  "MounterOptsUtils env = \<lparr> mu_FuseUnmount = FuseUnmount env, mu_FuseMount = FuseMount env \<rparr>"


subsection \<open>The events of an unmount\<close>

fun is_sleep :: "event \<Rightarrow> bool" where
  "is_sleep (Proc (EvSleep _)) = True"
| "is_sleep _ = False"

text \<open>The unmount calls of a sequence of events: the path, the flag, and whether it succeeded.\<close>

fun unmounts :: "event list \<Rightarrow> (string \<times> umount_flag \<times> bool) list" where
  "unmounts [] = []"
| "unmounts (Proc (EvUnmount p f r) # es) = (p, f, \<not> is_err r) # unmounts es"
| "unmounts (e # es) = unmounts es"

lemma unmounts_append [simp]: "unmounts (es @ es') = unmounts es @ unmounts es'"
  by (induction es rule: unmounts.induct) simp_all

fun not_mounted :: "string \<Rightarrow> event \<Rightarrow> bool" where
  "not_mounted path (Fs (EvMountpoint p (out, err))) \<longleftrightarrow> p = path \<and>
     (case err of
        Some _ \<Rightarrow> \<not> has_suffix (to_lower (trim_space out)) ''transport endpoint is not connected'' \<and>
                 has_suffix (to_lower (trim_space out)) ''is not a mountpoint''
      | None \<Rightarrow> \<not> has_suffix (to_lower (trim_space out)) ''is a mountpoint'')"
| "not_mounted path _ \<longleftrightarrow> False"

fun kills :: "event \<Rightarrow> nat option" where
  "kills (Proc (EvKill pid _)) = Some pid"
| "kills _ = None"

fun kill_error :: "event \<Rightarrow> gerror option" where
  "kill_error (Proc (EvKill _ (Inl e))) = Some e"
| "kill_error _ = None"

fun names_path :: "string \<Rightarrow> nat \<Rightarrow> event \<Rightarrow> bool" where
  "names_path path pid (Proc (EvCmdline p (Inr c))) \<longleftrightarrow> p = pid \<and> contains c path"
| "names_path path pid _ \<longleftrightarrow> False"

text \<open>The process answered a signal.\<close>

definition answers_signal :: "nat \<Rightarrow> event \<Rightarrow> bool" where
  "answers_signal pid e \<longleftrightarrow> e = Proc (EvSignal pid (Inr ()))"

definition kill_allowed :: "string \<Rightarrow> event list \<Rightarrow> event \<Rightarrow> bool" where
  "kill_allowed path es e =
     (case kills e of None \<Rightarrow> True
      | Some pid \<Rightarrow> list_ex (names_path path pid) es \<and> length (filter is_sleep es) = 119 \<and>
          119 \<le> length (filter (answers_signal pid) es))"

lemma kill_error_kills: "kills e = None \<Longrightarrow> kill_error e = None"
  by (cases e rule: kill_error.cases) auto

fun local_event :: "event \<Rightarrow> bool" where
  "local_event (Fs _) = True"
| "local_event (Proc _) = True"
| "local_event _ = False"

definition quiet :: "event list \<Rightarrow> bool" where
  "quiet es \<longleftrightarrow> (\<forall>e \<in> set es. kills e = None \<and> local_event e) \<and> unmounts es = []"

lemma quiet_simps [simp]:
  "quiet []" "quiet (es @ es') \<longleftrightarrow> quiet es \<and> quiet es'"
  "quiet (e # es) \<longleftrightarrow> kills e = None \<and> local_event e \<and> unmounts [e] = [] \<and> quiet es"
proof -
  have "unmounts (e # es) = unmounts [e] @ unmounts es"
    using unmounts_append [of "[e]" es] by simp
  then show "quiet (e # es) \<longleftrightarrow> kills e = None \<and> local_event e \<and> unmounts [e] = [] \<and> quiet es"
    by (auto simp: quiet_def)
qed (auto simp: quiet_def)


subsection \<open>Waiting for a process\<close>

text \<open>One step of the loop, as events: what was read, and the signal.\<close>

lemma wait_process_step:
  assumes "backoff \<noteq> 120"
  shows "wait_process env pid backoff h =
    (case sys_cmdline (proc env) h pid of
       Inl e \<Rightarrow> Some (Ret (), h @ [Proc (EvCmdline pid (Inl e))])
     | Inr c \<Rightarrow>
         (let h1 = h @ [Proc (EvCmdline pid (Inr c))]
          in if c = [] then Some (Ret (), h1)
             else
               (case sys_signal (proc env) h1 pid of
                  Inl e \<Rightarrow> Some (Ret (), h1 @ [Proc (EvSignal pid (Inl e))])
                | Inr u \<Rightarrow> wait_process env pid (backoff + 1)
                             (h1 @ [Proc (EvSignal pid (Inr u)), Proc (EvSleep 500)]))))"
  using assms
  by (subst wait_process.simps)
     (simp add: getCmdLine_def sys_proc_defs Let_def split: sum.split)

text \<open>
  From a back-off of at most 120 the loop ends, after at most \<open>120 - backoff\<close> pauses, and after
  exactly that many, each after an answered signal, when it times out.
\<close>

definition timed_out :: "nat \<Rightarrow> nat \<Rightarrow> event list \<Rightarrow> bool" where
  "timed_out pid k es \<longleftrightarrow> length (filter is_sleep es) = k \<and> length (filter (answers_signal pid) es) = k"

lemma wait_process_ends:
  assumes "backoff = 120 - int k"
  shows "\<exists>r es. wait_process env pid backoff h = Some (r, h @ es) \<and>
           quiet es \<and> length (filter is_sleep es) \<le> k \<and>
           (r = Ret () \<or> r = Fail ErrTimeoutWaitProcess \<and> timed_out pid k es)"
  using assms
proof (induction k arbitrary: backoff h)
  case 0
  then show ?case by (simp add: wait_process.simps timed_out_def)
next
  case (Suc k)
  have ne: "backoff \<noteq> 120" and nxt: "backoff + 1 = 120 - int k"
    using Suc.prems by simp_all
  show ?case
  proof (cases "sys_cmdline (proc env) h pid")
    case (Inl e)
    then show ?thesis by (simp add: wait_process_step [OF ne])
  next
    case (Inr c)
    let ?h1 = "h @ [Proc (EvCmdline pid (Inr c))]"
    show ?thesis
    proof (cases "c = [] \<or> (\<exists>e. sys_signal (proc env) ?h1 pid = Inl e)")
      case True
      then show ?thesis using Inr by (auto simp: wait_process_step [OF ne] Let_def)
    next
      case False
      then obtain u where u: "sys_signal (proc env) ?h1 pid = Inr u"
        by (cases "sys_signal (proc env) ?h1 pid") auto
      let ?es = "[Proc (EvCmdline pid (Inr c)), Proc (EvSignal pid (Inr u)), Proc (EvSleep 500)]"
      obtain r es where "wait_process env pid (backoff + 1) (h @ ?es) = Some (r, (h @ ?es) @ es)"
        and "quiet es" and "length (filter is_sleep es) \<le> k"
        and "r = Ret () \<or> r = Fail ErrTimeoutWaitProcess \<and> timed_out pid k es"
        using Suc.IH [OF nxt] by blast
      then show ?thesis
        using False Inr u
        by (intro exI [of _ r] exI [of _ "?es @ es"]) (auto simp: wait_process_step [OF ne] Let_def timed_out_def answers_signal_def)
    qed
  qed
qed

lemma waitForProcess_yields:
  "yields (waitForProcess env pid 1)
     (\<lambda>r es. quiet es \<and> length (filter is_sleep es) \<le> 119 \<and>
        (r = Ret () \<or> r = Fail ErrTimeoutWaitProcess \<and> timed_out pid 119 es))"
proof (rule yieldsI)
  fix h
  obtain r es where "wait_process env pid 1 h = Some (r, h @ es)" and "quiet es"
    and "length (filter is_sleep es) \<le> 119"
    and "r = Ret () \<or> r = Fail ErrTimeoutWaitProcess \<and> timed_out pid 119 es"
    using wait_process_ends [of 1 119 env pid h] by auto
  then show "\<exists>r es. run_state (waitForProcess env pid 1) h = (r, h @ es) \<and>
      quiet es \<and> length (filter is_sleep es) \<le> 119 \<and>
      (r = Ret () \<or> r = Fail ErrTimeoutWaitProcess \<and> timed_out pid 119 es)"
    by (auto simp: waitForProcess_def)
qed

text \<open>
  \<open>waitForProcess\<close>, as \<open>FuseUnmount\<close> calls it, always returns: it pauses at most 119 times
  for half a second, and reports a time-out only after all of them.
\<close>

theorem waitForProcess_returns:
  "yields (waitForProcess env pid 1)
     (\<lambda>r es. length (filter is_sleep es) \<le> 119 \<and>
        (r = Ret () \<or> r = Fail ErrTimeoutWaitProcess \<and> length (filter is_sleep es) = 119))"
  by (rule yields_mono [OF waitForProcess_yields]) (auto simp: timed_out_def)


subsection \<open>What FuseUnmount does\<close>

lemma find_in_processes_yields:
  "yields (find_in_processes env path pids)
     (\<lambda>r es. quiet es \<and> filter is_sleep es = [] \<and> (\<forall>p. r \<noteq> Panic p) \<and>
        (\<forall>pid. r = Ret (Some pid) \<longrightarrow> list_ex (names_path path pid) es))"
proof (induction pids)
  case Nil
  then show ?case by (auto intro!: yields_ret)
next
  case (Cons pid pids)
  show ?case
    unfolding find_in_processes.simps getCmdLine_def sys_proc_defs
    by (rule yields_attempt [OF yields_reply])
       (auto intro!: yields_mono [OF Cons.IH] yields_attempt_fail [OF yields_reply] yields_ret)
qed

lemma unmount_attempts_yields:
  "yields (unmount_attempts env path)
     (\<lambda>r es. (\<forall>e \<in> set es. kills e = None) \<and> filter is_sleep es = [] \<and>
        (unmounts es, r) \<in>
          {([(path, NoFlag, True)], Ret ()),
           ([(path, NoFlag, False), (path, MNT_DETACH, True)], Ret ()),
           ([(path, NoFlag, False), (path, MNT_DETACH, False), (path, MNT_FORCE, True)], Ret ())} \<union>
          {([(path, NoFlag, False), (path, MNT_DETACH, False), (path, MNT_FORCE, False)], Fail (Plain m)) | m. True})"
  unfolding unmount_attempts_def sys_proc_defs
  by (rule yields_attempt [OF yields_reply];
      (rule yields_attempt [OF yields_reply])?; (rule yields_attempt [OF yields_reply])?)
     (auto intro!: yields_ret yields_fail)

lemma kill_allowed_prefix:
  "kill_allowed path es e \<Longrightarrow> filter is_sleep pre = [] \<Longrightarrow> kill_allowed path (pre @ es) e"
  by (auto simp: kill_allowed_def split: option.splits)

lemma kill_allowed_None: "kills e = None \<Longrightarrow> kill_allowed path es e"
  by (simp add: kill_allowed_def)

lemma quiet_unmounts: "quiet es \<Longrightarrow> unmounts es = []"
  by (simp add: quiet_def)

lemma quiet_kills: "quiet es \<Longrightarrow> \<forall>e \<in> set es. kill_allowed path es' e"
  by (simp add: quiet_def kill_allowed_None)

lemma quiet_kill_error: "quiet es \<Longrightarrow> \<forall>e \<in> set es. kill_error e = None"
  by (simp add: quiet_def kill_error_kills)

text \<open>How the wait for the process ends: without an error, or with the error of the kill, the last call.\<close>

definition reaped :: "unit outcome \<Rightarrow> event list \<Rightarrow> bool" where
  "reaped r es \<longleftrightarrow>
     (case r of
        Ret _ \<Rightarrow> list_all (\<lambda>e. kill_error e = None) es
      | Fail e \<Rightarrow> es \<noteq> [] \<and> kill_error (last es) = Some e
      | Panic _ \<Rightarrow> False)"

lemma reaped_prefix: "reaped r es \<Longrightarrow> \<forall>e \<in> set pre. kill_error e = None \<Longrightarrow> reaped r (pre @ es)"
  by (auto simp: reaped_def list_all_iff split: outcome.splits)

lemma reap_yields:
  "yields (reap env path) (\<lambda>r es. unmounts es = [] \<and> (\<forall>e \<in> set es. kill_allowed path es e) \<and> reaped r es)"
proof -
  have find: "yields (findFuseMountProcess env path)
     (\<lambda>r es. quiet es \<and> filter is_sleep es = [] \<and> (\<forall>p. r \<noteq> Panic p) \<and>
        (\<forall>pid. r = Ret (Some pid) \<longrightarrow> list_ex (names_path path pid) es))"
    unfolding findFuseMountProcess_def ps_Processes_def
    by (rule yields_attempt_fail [OF yields_reply]) (auto intro!: yields_mono [OF find_in_processes_yields])
  have over: "unmounts es = [] \<and> (\<forall>e \<in> set es. kill_allowed path es e) \<and> reaped (Ret ()) es" if "quiet es" for es
    using that by (simp add: quiet_unmounts quiet_kills reaped_def list_all_iff quiet_kill_error)
  show ?thesis
    unfolding reap_def
  proof (rule yields_attempt [OF find])
    fix x es
    assume x: "quiet es \<and> filter is_sleep es = [] \<and> (\<forall>p. Ret x \<noteq> Panic p) \<and>
        (\<forall>pid. Ret x = Ret (Some pid) \<longrightarrow> list_ex (names_path path pid) es)"
    show "yields (case x of None \<Rightarrow> ret () | Some pid \<Rightarrow>
              attempt (waitForProcess env pid 1)
                (\<lambda>err. if err = ErrTimeoutWaitProcess then process_Kill env pid else fail err) ret)
        (\<lambda>r es'. unmounts (es @ es') = [] \<and> (\<forall>e \<in> set (es @ es'). kill_allowed path (es @ es') e) \<and>
           reaped r (es @ es'))"
    proof (cases x)
      case None
      with x over [of es] show ?thesis
        by (simp add: yields_ret)
    next
      case (Some pid)
      with x have named: "list_ex (names_path path pid) es" by simp
      have "yields (attempt (waitForProcess env pid 1)
                (\<lambda>err. if err = ErrTimeoutWaitProcess then process_Kill env pid else fail err) ret)
         (\<lambda>r es'. unmounts (es @ es') = [] \<and> (\<forall>e \<in> set (es @ es'). kill_allowed path (es @ es') e) \<and>
           reaped r (es @ es'))"
      proof (rule yields_attempt [OF waitForProcess_yields])
        fix u es1
        assume "quiet es1 \<and> length (filter is_sleep es1) \<le> 119 \<and>
          (Ret u = Ret () \<or> Ret u = Fail ErrTimeoutWaitProcess \<and> timed_out pid 119 es1)"
        with x have "quiet (es @ es1)" by simp
        from over [OF this] show "yields (ret u)
          (\<lambda>r es'. unmounts (es @ es1 @ es') = [] \<and>
             (\<forall>e \<in> set (es @ es1 @ es'). kill_allowed path (es @ es1 @ es') e) \<and> reaped r (es @ es1 @ es'))"
          by (intro yields_ret) simp
      next
        fix e es1
        assume 1: "quiet es1 \<and> length (filter is_sleep es1) \<le> 119 \<and>
          (Fail e = Ret () \<or> Fail e = Fail ErrTimeoutWaitProcess \<and> timed_out pid 119 es1)"
        then have e: "e = ErrTimeoutWaitProcess" and t: "timed_out pid 119 es1"
          and q: "quiet (es @ es1)" using x by auto
        have "kill_allowed path (es @ es1 @ [Proc (EvKill pid y)]) (Proc (EvKill pid y))" for y
          using x named t by (simp add: kill_allowed_def timed_out_def)
        moreover have "reaped (of_res y) ((es @ es1) @ [Proc (EvKill pid y)])" for y
          using quiet_kill_error [OF q] by (cases y) (auto simp: reaped_def list_all_iff)
        ultimately show "yields (if e = ErrTimeoutWaitProcess then process_Kill env pid else fail e)
          (\<lambda>r es'. unmounts (es @ es1 @ es') = [] \<and>
             (\<forall>e \<in> set (es @ es1 @ es'). kill_allowed path (es @ es1 @ es') e) \<and> reaped r (es @ es1 @ es'))"
          using quiet_unmounts [OF q] quiet_kills [OF q] unfolding if_P [OF e] process_Kill_def
          by (intro yields_ask_res) auto
      qed simp
      with Some show ?thesis by simp
    qed
  next
    fix e es
    assume "quiet es \<and> filter is_sleep es = [] \<and> (\<forall>p. Fail e \<noteq> Panic p) \<and>
        (\<forall>pid. Fail e = Ret (Some pid) \<longrightarrow> list_ex (names_path path pid) es)"
    with over [of es] show "yields (ret ())
        (\<lambda>r es'. unmounts (es @ es') = [] \<and> (\<forall>e \<in> set (es @ es'). kill_allowed path (es @ es') e) \<and>
           reaped r (es @ es'))"
      by (intro yields_ret) simp
  qed simp
qed

definition unmount_spec :: "string \<Rightarrow> unit outcome \<Rightarrow> event list \<Rightarrow> bool" where
  "unmount_spec path r es \<longleftrightarrow>
     list_all (kill_allowed path es) es \<and> es \<noteq> [] \<and>
     (if not_mounted path (hd es) then unmounts es = [] \<and> reaped r es
      else
        unmounts es \<in>
          {[(path, NoFlag, True)],
           [(path, NoFlag, False), (path, MNT_DETACH, True)],
           [(path, NoFlag, False), (path, MNT_DETACH, False), (path, MNT_FORCE, True)]} \<and> reaped r es \<or>
        unmounts es = [(path, NoFlag, False), (path, MNT_DETACH, False), (path, MNT_FORCE, False)] \<and>
          (\<exists>m. r = Fail (Plain m)) \<and> list_all (\<lambda>e. kills e = None) es)"

lemma isMountpoint_not_mounted:
  "yields (isMountpoint env path)
     (\<lambda>m es. (\<exists>x. es = [Fs (EvMountpoint path x)]) \<and> (m = Inr False \<longleftrightarrow> not_mounted path (hd es)))"
  unfolding isMountpoint_def sys_fs_defs Let_def
  by (rule yields_bind [OF yields_ask [where Q = "\<lambda>x es. es = [Fs (EvMountpoint path x)]"]])
     (auto intro!: yields_return split: option.splits if_splits)

lemma FuseUnmount_yields: "yields (FuseUnmount env path) (unmount_spec path)"
  unfolding FuseUnmount_def
proof (rule yields_bind [OF isMountpoint_not_mounted], elim conjE exE)
  fix m es x
  assume es: "es = [Fs (EvMountpoint path x)]" and m: "m = Inr False \<longleftrightarrow> not_mounted path (hd es)"
  let ?first = "\<lambda>r us. us \<in>
          {[(path, NoFlag, True)],
           [(path, NoFlag, False), (path, MNT_DETACH, True)],
           [(path, NoFlag, False), (path, MNT_DETACH, False), (path, MNT_FORCE, True)]} \<and> r = Ret () \<or>
      us = [(path, NoFlag, False), (path, MNT_DETACH, False), (path, MNT_FORCE, False)] \<and> (\<exists>m. r = Fail (Plain m))"
  have "yields (if m \<noteq> Inr False then unmount_attempts env path else ret ())
     (\<lambda>r es1. (\<forall>e \<in> set es1. kills e = None) \<and> filter is_sleep es1 = [] \<and>
        (if m = Inr False then unmounts es1 = [] \<and> r = Ret () else ?first r (unmounts es1)))"
    by (auto intro!: yields_ret yields_mono [OF unmount_attempts_yields])
  then show "yields (attempt (if m \<noteq> Inr False then unmount_attempts env path else ret ()) fail (\<lambda>_. reap env path))
      (\<lambda>r es'. unmount_spec path r (es @ es'))"
  proof (rule yields_attempt, goal_cases)
    case (1 u es1)
    then have none: "\<forall>e \<in> set (es @ es1). kills e = None" and sleeps: "filter is_sleep (es @ es1) = []"
      by (auto simp: es)
    show ?case
    proof (rule yields_mono [OF reap_yields], elim conjE)
      fix r es2
      assume 2: "unmounts es2 = []" "\<forall>e \<in> set es2. kill_allowed path es2 e" "reaped r es2"
      have "list_all (kill_allowed path ((es @ es1) @ es2)) ((es @ es1) @ es2)"
        using none 2(2) kill_allowed_prefix [OF _ sleeps] by (auto simp: list_all_iff kill_allowed_None)
      moreover have "reaped r ((es @ es1) @ es2)"
        using none by (intro reaped_prefix [OF 2(3)]) (simp add: kill_error_kills)
      ultimately show "unmount_spec path r (es @ es1 @ es2)"
        using 1 2(1) m by (auto simp: unmount_spec_def es)
    qed
  next
    case (2 e es1)
    then show ?case
      using m by (intro yields_fail) (auto simp: unmount_spec_def es list_all_iff kill_allowed_None split: if_splits)
  qed (auto split: if_splits)
qed



subsection \<open>The contract of MounterUtils\<close>

text \<open>
  What the mounters and the mounter service rely on: a mount that is reported was seen, it starts no
  command but the given one, both calls return without a panic, and neither talks to the object
  store or to Kubernetes.
\<close>

fun starts :: "event \<Rightarrow> (string \<times> string list) option" where
  "starts (Proc (EvCmdStart comm args _)) = Some (comm, args)"
| "starts _ = None"

definition runs_only :: "string \<Rightarrow> string list \<Rightarrow> event \<Rightarrow> bool" where
  "runs_only comm args e \<longleftrightarrow> local_event e \<and> (starts e = None \<or> starts e = Some (comm, args))"

lemma runs_only_simps [simp]:
  "runs_only comm args (Fs f)"
  "runs_only comm args (Proc p) \<longleftrightarrow> starts (Proc p) = None \<or> starts (Proc p) = Some (comm, args)"
  by (simp_all add: runs_only_def)

locale mounter_utils =
  fixes mu :: MounterUtils
  assumes mount: "yields (mu_FuseMount mu path comm args)
       (\<lambda>r es. list_all (runs_only comm args) es \<and>
          (case r of Ret _ \<Rightarrow> list_ex (seen_mounted path) es | Fail _ \<Rightarrow> True | Panic _ \<Rightarrow> False))"
    and unmount: "yields (mu_FuseUnmount mu path)
       (\<lambda>r es. list_all local_event es \<and> (case r of Panic _ \<Rightarrow> False | _ \<Rightarrow> True))"
begin

lemma unmount_total: "yields (mu_FuseUnmount mu path) (\<lambda>r _. \<forall>p. r \<noteq> Panic p)"
  by (rule yields_mono [OF unmount]) (auto split: outcome.splits)

lemma mount_total: "yields (mu_FuseMount mu path comm args) (\<lambda>r _. \<forall>p. r \<noteq> Panic p)"
  by (rule yields_mono [OF mount]) (auto split: outcome.splits)

end

lemma emits_fuse_run: "emits (runs_only comm args) (fuse_run env path comm n s)"
proof (induction n arbitrary: s)
  case 0
  then show ?case by (simp add: emits_return)
next
  case (Suc n)
  have "emits (runs_only comm args) (isMountpoint env path)"
    unfolding isMountpoint_def sys_fs_defs Let_def by (auto intro!: emits_intros emits_ask)
  then have "emits (runs_only comm args) (fuse_act env path comm a s)" for a
    by (cases a)
       (auto simp: poll_once_def fuse_return_def sys_proc_defs tell_def Let_def
          intro!: emits_intros emits_ask split: poller.splits)
  with Suc.IH show ?case
    by (auto simp: go_schedule_def Let_def intro!: emits_intros emits_ask split: main_pc.splits)
qed

lemma emits_FuseMount: "emits (runs_only comm args) (FuseMount env path comm args)"
  by (auto simp: FuseMount_def cmd_Start_def ctx_cancel_def tell_def
      intro!: emits_intros emits_ask emits_ask_res emits_fuse_run split: option.split main_pc.split)

lemma emits_find_in_processes: "emits local_event (find_in_processes env path pids)"
  by (induction pids)
     (auto simp: getCmdLine_def sys_proc_defs intro!: emits_intros emits_ask_res)

lemma emits_FuseUnmount: "emits local_event (FuseUnmount env path)"
proof -
  have "emits local_event (waitForProcess env pid 1)" for pid
    unfolding emits_iff_yields by (rule yields_mono [OF waitForProcess_yields]) (simp add: quiet_def)
  then show ?thesis
    by (auto simp: FuseUnmount_def isMountpoint_def unmount_attempts_def reap_def findFuseMountProcess_def
        sys_proc_defs sys_fs_defs Let_def
        intro!: emits_intros emits_ask emits_ask_res emits_find_in_processes)
qed

interpretation mou: mounter_utils "MounterOptsUtils env" for env
proof unfold_locales
  fix path comm args
  have impl: "mu_FuseMount (MounterOptsUtils env) = FuseMount env"
    "mu_FuseUnmount (MounterOptsUtils env) = FuseUnmount env"
    by (simp_all add: MounterOptsUtils_def)
  have "yields (FuseMount env path comm args)
     (\<lambda>r es. (\<forall>e \<in> set es. runs_only comm args e) \<and> polls es \<le> 60 \<and>
        (case r of
           Ret _ \<Rightarrow> list_ex (seen_mounted path) es \<and> Proc EvCancel \<notin> set es
         | Fail _ \<Rightarrow> es \<noteq> [] \<and> last es = Proc EvCancel
         | Panic _ \<Rightarrow> False))"
    by (rule yields_conj [OF emits_FuseMount [unfolded emits_iff_yields] FuseMount_yields])
  then show "yields (mu_FuseMount (MounterOptsUtils env) path comm args)
       (\<lambda>r es. list_all (runs_only comm args) es \<and>
          (case r of Ret _ \<Rightarrow> list_ex (seen_mounted path) es | Fail _ \<Rightarrow> True | Panic _ \<Rightarrow> False))"
    unfolding impl
    by (rule yields_mono) (auto simp: list_all_iff split: outcome.splits)
  show "yields (mu_FuseUnmount (MounterOptsUtils env) path)
       (\<lambda>r es. list_all local_event es \<and> (case r of Panic _ \<Rightarrow> False | _ \<Rightarrow> True))"
    unfolding impl
    by (rule yields_mono [OF yields_conj [OF emits_FuseUnmount [unfolded emits_iff_yields] FuseUnmount_yields]])
       (auto simp: unmount_spec_def reaped_def list_all_iff split: outcome.splits if_splits)
qed

end
