(* ===== verification/StringSet.thy ===== *)
theory StringSet
  imports GoStrings
begin

section \<open>The string set of pkg/utils/set.go\<close>

text \<open>
  \<open>Set\<close> is a struct around a map from strings to the empty struct, modelled by the list of the
  map's keys. The interface that its clients rely on is the locale \<open>string_set\<close>; the operations
  of the source are an instance of it.
\<close>

record Set =
  set_m :: "string list"

definition NewSet :: Set where
  "NewSet = \<lparr> set_m = [] \<rparr>"

definition Add :: "Set \<Rightarrow> string \<Rightarrow> Set" where
  "Add s key = s\<lparr> set_m := List.insert key (set_m s) \<rparr>"

definition NewSetWithValues :: "string list \<Rightarrow> Set" where
  "NewSetWithValues vs = \<lparr> set_m = fold List.insert vs [] \<rparr>"

definition Contains :: "Set \<Rightarrow> string \<Rightarrow> bool" where
  "Contains s key \<longleftrightarrow> key \<in> set (set_m s)"

definition Remove :: "Set \<Rightarrow> string \<Rightarrow> Set res" where
  "Remove s key =
     (if key \<notin> set (set_m s)
      then Inl (Plain (sprintf [''remove error: item '', squote key, '' doesn'', [CHR 0x27], ''t exist in the set'']))
      else Inr (s\<lparr> set_m := removeAll key (set_m s) \<rparr>))"

definition Size :: "Set \<Rightarrow> nat" where
  "Size s = length (set_m s)"

definition set_inv :: "Set \<Rightarrow> bool" where
  "set_inv s \<longleftrightarrow> distinct (set_m s)"

text \<open>The contract of a set, with the abstract value \<open>elems\<close>.\<close>

locale string_set =
  fixes empty :: "'s"
    and add :: "'s \<Rightarrow> string \<Rightarrow> 's"
    and remove :: "'s \<Rightarrow> string \<Rightarrow> 's res"
    and contains :: "'s \<Rightarrow> string \<Rightarrow> bool"
    and size :: "'s \<Rightarrow> nat"
    and elems :: "'s \<Rightarrow> string set"
    and inv :: "'s \<Rightarrow> bool"
  assumes elems_empty: "elems empty = {}"
    and inv_empty: "inv empty"
    and elems_add: "elems (add s k) = insert k (elems s)"
    and inv_add: "inv s \<Longrightarrow> inv (add s k)"
    and remove_missing: "k \<notin> elems s \<Longrightarrow> is_err (remove s k)"
    and remove_present: "k \<in> elems s \<Longrightarrow> \<exists>s'. remove s k = Inr s' \<and> elems s' = elems s - {k}"
    and inv_remove: "inv s \<Longrightarrow> remove s k = Inr s' \<Longrightarrow> inv s'"
    and contains_elems: "contains s k \<longleftrightarrow> k \<in> elems s"
    and size_elems: "inv s \<Longrightarrow> size s = card (elems s)"
    and finite_elems: "finite (elems s)"
begin

lemma contains_add: "contains (add s k) k' \<longleftrightarrow> k' = k \<or> contains s k'"
  by (simp add: contains_elems elems_add)

lemma add_remove_size:
  assumes "inv s" and "\<not> contains s k"
  shows "\<exists>s'. remove (add s k) k = Inr s' \<and> elems s' = elems s \<and> size s' = size s"
proof -
  have "k \<in> elems (add s k)" by (simp add: elems_add)
  then obtain s' where s': "remove (add s k) k = Inr s'" "elems s' = elems (add s k) - {k}"
    using remove_present by blast
  have "inv s'" using inv_remove [OF inv_add [OF assms(1)] s'(1)] .
  moreover have "elems s' = elems s"
    using s'(2) assms(2) by (simp add: elems_add contains_elems)
  ultimately show ?thesis using s'(1) assms(1) by (auto simp: size_elems)
qed

lemma elems_adds: "elems (foldl add s ks) = elems s \<union> set ks"
  by (induction ks arbitrary: s) (auto simp: elems_add)

end

definition set_elems :: "Set \<Rightarrow> string set" where
  "set_elems s = set (set_m s)"

interpretation gs: string_set NewSet Add Remove Contains Size set_elems set_inv
  by unfold_locales
     (auto simp: NewSet_def Add_def Remove_def Contains_def Size_def set_elems_def set_inv_def
       distinct_card distinct_removeAll split: if_splits)

lemma set_m_NewSetWithValues: "set (set_m (NewSetWithValues vs)) = set vs"
proof -
  have "set (fold List.insert vs xs) = set vs \<union> set xs" for xs
    by (induction vs arbitrary: xs) auto
  then show ?thesis by (simp add: NewSetWithValues_def)
qed

lemma Contains_NewSetWithValues: "Contains (NewSetWithValues vs) k \<longleftrightarrow> k \<in> set vs"
  by (simp add: Contains_def set_m_NewSetWithValues)

end
