(* ===== verification/JsonRoundTrip.thy ===== *)
theory JsonRoundTrip
  imports Json
begin

section \<open>What the encoder prints, the decoder reads\<close>

text \<open>
  \<open>json_text\<close> prints any value as the encoder prints objects of strings. Parsing the text of a
  value without numbers, not nested too deeply, gives the value back (\<open>json_value_text\<close>), so the
  decoders recover the bindings that were encoded (\<open>json_strings_object\<close>). The locale
  \<open>json_struct\<close> carries this over to a struct whose fields are strings.
\<close>

subsection \<open>Strings\<close>

lemma hex_val_digit: "i < 16 \<Longrightarrow> hex_val (hex_digit i) = Some i"
proof -
  assume "i < 16"
  moreover have "list_all (\<lambda>i. hex_val (hex_digit i) = Some i) [0..<16]" by code_simp
  ultimately show ?thesis by (simp add: list_all_iff)
qed

text \<open>Every character is printed as something that is read back as that character.\<close>

lemma json_escape_hex:
  assumes "(of_char c :: nat) < 128"
  shows "json_escape (''u00'' @ json_hex (of_char c) @ s) = Some ([c], s)"
proof -
  have "hex_val (CHR ''0'') = Some 0" by (simp add: hex_val_def)
  moreover have "of_char c div 16 < (16 :: nat)" using assms by simp
  ultimately show ?thesis
    using assms by (simp add: json_hex_def json_escape_def hex_val_digit escape_code_def utf8_def)
qed

lemma json_chars_json_char:
  "json_chars (json_char c @ s) = map_option (\<lambda>(t, r). (c # t, r)) (json_chars s)"
proof -
  have esc: "json_chars (CHR 0x5C # e @ s) = map_option (\<lambda>(t, r). (c # t, r)) (json_chars s)"
    if "json_escape (e @ s) = Some ([c], s)" for e
    using that by simp
  consider (short) e where "json_char c = [CHR 0x5C, e]" "json_escape (e # s) = Some ([c], s)"
    | (hex) "json_char c = CHR 0x5C # ''u00'' @ json_hex (of_char c)" "(of_char c :: nat) < 128"
    | (plain) "json_char c = [c]" "c \<noteq> CHR 0x22" "c \<noteq> CHR 0x5C" "\<not> (of_char c :: nat) < 32"
  proof -
    have byte: "c = char_of n" if "(of_char c :: nat) = n" for n
      using that by auto
    show thesis
    proof (cases "c \<in> {CHR 0x22, CHR 0x5C, CHR 0x08, CHR 0x09, CHR 0x0A, CHR 0x0C, CHR 0x0D}")
      case True
      then show thesis
        by (elim insertE) (use short in \<open>simp_all add: json_char_def json_escape_def\<close>)
    next
      case False
      then have "(of_char c :: nat) \<notin> {8, 9, 10, 12, 13}"
        by (auto dest!: byte simp: char_of_def bit_Suc_0_iff)
      with False have j: "json_char c =
          (if (of_char c :: nat) < 32 \<or> c = CHR ''<'' \<or> c = CHR ''>'' \<or> c = CHR ''&''
           then CHR 0x5C # ''u00'' @ json_hex (of_char c) else [c])"
        by (simp add: json_char_def Let_def)
      show thesis
      proof (cases "(of_char c :: nat) < 32 \<or> c = CHR ''<'' \<or> c = CHR ''>'' \<or> c = CHR ''&''")
        case True
        then have "(of_char c :: nat) < 128" by auto
        with True j show thesis by (intro hex) auto
      next
        case more: False
        with False j show thesis by (intro plain) auto
      qed
    qed
  qed
  then show ?thesis
  proof cases
    case (short e)
    then show ?thesis using esc [of "[e]"] by simp
  next
    case hex
    then show ?thesis
      using esc [of "''u00'' @ json_hex (of_char c)"] json_escape_hex [of c s] by simp
  qed simp
qed

lemma json_chars_string:
  "json_chars (concat (map json_char s) @ CHR 0x22 # r) = Some (s, r)"
  by (induction s) (simp_all add: json_chars_json_char)

lemma json_chars_tl_string: "json_chars (tl (json_string s @ r)) = Some (s, r)"
  using json_chars_string [of s r] by (simp add: json_string_def)

subsection \<open>Values\<close>

fun json_text :: "json \<Rightarrow> string" where
  "json_text JNull = ''null''"
| "json_text (JBool b) = (if b then ''true'' else ''false'')"
| "json_text (JNum d) = d"
| "json_text (JStr s) = json_string s"
| "json_text (JArr vs) = ''['' @ join '','' (map json_text vs) @ '']''"
| "json_text (JObj ms) = ''{'' @ join '','' (map (\<lambda>m. json_string (fst m) @ '':'' @ json_text (snd m)) ms) @ ''}''"

text \<open>\<open>nests d v\<close>: the value \<open>v\<close>, inside \<open>d\<close> others, is not too deep, and has no numbers.\<close>

fun nests :: "nat \<Rightarrow> json \<Rightarrow> bool" where
  "nests d (JNum _) = False"
| "nests d (JArr vs) = (d < max_nesting \<and> (\<forall>v \<in> set vs. nests (Suc d) v))"
| "nests d (JObj ms) = (d < max_nesting \<and> (\<forall>m \<in> set ms. nests (Suc d) (snd m)))"
| "nests d _ = True"


lemma json_text_start:
  assumes "nests d v"
  shows "skip_ws (json_text v @ r) = json_text v @ r"
    and "prefix [CHR 0x22] (json_text v @ r) \<longleftrightarrow> (\<exists>s. v = JStr s)"
    and "prefix ''{'' (json_text v @ r) \<longleftrightarrow> (\<exists>ms. v = JObj ms)"
    and "prefix ''['' (json_text v @ r) \<longleftrightarrow> (\<exists>vs. v = JArr vs)"
    and "\<not> prefix ''}'' (json_text v @ r)"
    and "\<not> prefix '']'' (json_text v @ r)"
  using assms by (cases v; simp add: skip_ws_def json_space_def json_string_def)+

lemma json_string_start:
  "skip_ws (json_string s @ r) = json_string s @ r"
  "closes (CHR 0x22) (json_string s @ r) = Some (tl (json_string s @ r))"
  "\<not> prefix ''}'' (json_string s @ r)"
  by (simp_all add: skip_ws_def json_space_def json_string_def closes_def)

lemma closes_here [simp]: "\<not> json_space x \<Longrightarrow> closes c (x # r) = (if x = c then Some r else None)"
  by (auto simp: closes_def skip_ws_def)

lemma closes_other: "skip_ws s = s \<Longrightarrow> \<not> prefix [c] s \<Longrightarrow> closes c s = None"
  by (simp add: closes_def)

lemma not_space [simp]:
  "\<not> json_space (CHR '','')" "\<not> json_space (CHR ''}'')" "\<not> json_space (CHR '']'')" "\<not> json_space (CHR '':'')"
  by (simp_all add: json_space_def)

text \<open>\<open>reads f t x\<close>: with enough fuel, \<open>f\<close> reads the text \<open>t\<close> as \<open>x\<close> whatever follows it.\<close>

definition reads :: "(nat \<Rightarrow> string \<Rightarrow> ('a \<times> string) option) \<Rightarrow> string \<Rightarrow> 'a \<Rightarrow> bool" where
  "reads f t x \<longleftrightarrow> (\<exists>n0. \<forall>n \<ge> n0. \<forall>r. f n (t @ r) = Some (x, r))"

lemma readsI: "(\<And>n r. n \<ge> n0 \<Longrightarrow> f n (t @ r) = Some (x, r)) \<Longrightarrow> reads f t x"
  unfolding reads_def by blast

lemma readsI_Suc:
  assumes "\<And>n r. n \<ge> n0 \<Longrightarrow> f (Suc n) (t @ r) = Some (x, r)"
  shows "reads f t x"
proof (rule readsI [where ?n0.0 = "Suc n0"])
  fix n r
  assume "Suc n0 \<le> n"
  then obtain m where "n = Suc m" "n0 \<le> m" by (cases n) auto
  with assms show "f n (t @ r) = Some (x, r)" by simp
qed

lemma reads_elems:
  assumes "vs \<noteq> []" and "\<forall>v \<in> set vs. nests d v \<and> reads (\<lambda>n. json_value n d) (json_text v) v"
  shows "reads (\<lambda>n. json_elems n d) (join '','' (map json_text vs) @ '']'') vs"
  using assms
proof (induction vs rule: list_nonempty_induct)
  case (single v)
  then obtain n0 where n0: "\<forall>n \<ge> n0. \<forall>r. json_value n d (json_text v @ r) = Some (v, r)"
    by (auto simp: reads_def)
  have nv: "nests d v" using single by simp
  show ?case
  proof (rule readsI_Suc)
    fix n r
    assume "n0 \<le> n"
    with n0 nv show "json_elems (Suc n) d ((join '','' (map json_text [v]) @ '']'') @ r) = Some ([v], r)"
      by (simp add: json_text_start(1))
  qed
next
  case (cons v vs)
  then obtain n0 where n0: "\<forall>n \<ge> n0. \<forall>r. json_value n d (json_text v @ r) = Some (v, r)"
    by (auto simp: reads_def)
  from cons obtain n1 where n1: "\<forall>n \<ge> n1. \<forall>r. json_elems n d (join '','' (map json_text vs) @ '']'' @ r) = Some (vs, r)"
    by (auto simp: reads_def)
  have nv: "nests d v" using cons by simp
  have join: "join '','' (map json_text (v # vs)) = json_text v @ '','' @ join '','' (map json_text vs)"
    using cons(1) by (cases vs) auto
  show ?case
  proof (rule readsI_Suc)
    fix n r
    assume "max n0 n1 \<le> n"
    with n0 n1 nv show "json_elems (Suc n) d ((join '','' (map json_text (v # vs)) @ '']'') @ r) = Some (v # vs, r)"
      unfolding join by (simp add: json_text_start(1))
  qed
qed

abbreviation member_text :: "string \<times> json \<Rightarrow> string" where
  "member_text m \<equiv> json_string (fst m) @ '':'' @ json_text (snd m)"

lemma reads_member:
  assumes "nests d v" and "\<forall>n \<ge> n0. \<forall>r. json_value n d (json_text v @ r) = Some (v, r)" and "n0 \<le> n"
  shows "json_members (Suc n) d (member_text (k, v) @ x # r) =
     (if x = CHR '','' then map_option (\<lambda>(ms, r'). ((k, v) # ms, r')) (json_members n d r)
      else if x = CHR ''}'' then Some ([(k, v)], r) else json_members (Suc n) d (member_text (k, v) @ x # r))"
  using assms
  by (simp add: json_string_start json_chars_tl_string json_text_start(1))

lemma reads_members:
  assumes "ms \<noteq> []" and "\<forall>m \<in> set ms. nests d (snd m) \<and> reads (\<lambda>n. json_value n d) (json_text (snd m)) (snd m)"
  shows "reads (\<lambda>n. json_members n d) (join '','' (map member_text ms) @ ''}'') ms"
  using assms
proof (induction ms rule: list_nonempty_induct)
  case (single m)
  obtain k v where m: "m = (k, v)" by (cases m)
  with single obtain n0 where n0: "\<forall>n \<ge> n0. \<forall>r. json_value n d (json_text v @ r) = Some (v, r)"
    by (auto simp: reads_def)
  have nv: "nests d v" using single m by simp
  show ?case
  proof (rule readsI_Suc)
    fix n r
    assume "n0 \<le> n"
    then show "json_members (Suc n) d ((join '','' (map member_text [m]) @ ''}'') @ r) = Some ([m], r)"
      using reads_member [OF nv n0, of n k "CHR ''}''" r] by (simp add: m)
  qed
next
  case (cons m ms)
  obtain k v where m: "m = (k, v)" by (cases m)
  with cons obtain n0 where n0: "\<forall>n \<ge> n0. \<forall>r. json_value n d (json_text v @ r) = Some (v, r)"
    by (auto simp: reads_def)
  from cons obtain n1 where n1: "\<forall>n \<ge> n1. \<forall>r. json_members n d (join '','' (map member_text ms) @ ''}'' @ r) = Some (ms, r)"
    by (auto simp: reads_def)
  have nv: "nests d v" using cons m by simp
  have join: "join '','' (map member_text (m # ms)) = member_text (k, v) @ CHR '','' # join '','' (map member_text ms)"
    using cons(1) m by (cases ms) auto
  show ?case
  proof (rule readsI_Suc)
    fix n r
    assume "max n0 n1 \<le> n"
    then show "json_members (Suc n) d ((join '','' (map member_text (m # ms)) @ ''}'') @ r) = Some (m # ms, r)"
      using reads_member [OF nv n0, of n k "CHR '',''" "join '','' (map member_text ms) @ ''}'' @ r"] n1
      unfolding join by (simp add: m)
  qed
qed

text \<open>Parsing inverts printing.\<close>

lemma reads_array:
  assumes "d < max_nesting"
    and "\<forall>v \<in> set vs. nests (Suc d) v \<and> reads (\<lambda>n. json_value n (Suc d)) (json_text v) v"
  shows "reads (\<lambda>n. json_value n d) (json_text (JArr vs)) (JArr vs)"
proof (cases vs)
  case Nil
  show ?thesis
    by (rule readsI_Suc) (use assms(1) Nil in simp)
next
  case (Cons v vs')
  then have "vs \<noteq> []" by simp
  from reads_elems [OF this assms(2)] obtain n0 where
    n0: "\<forall>n \<ge> n0. \<forall>r. json_elems n (Suc d) (join '','' (map json_text vs) @ '']'' @ r) = Some (vs, r)"
    by (auto simp: reads_def)
  have start: "closes (CHR '']'') (join '','' (map json_text vs) @ '']'' @ r) = None" for r
    using json_text_start(1,6) [of "Suc d" v] assms(2) Cons
    by (cases vs') (auto intro: closes_other)
  show ?thesis
    by (rule readsI_Suc [where ?n0.0 = n0]) (use assms(1) start n0 in simp)
qed

lemma reads_object:
  assumes "d < max_nesting"
    and "\<forall>m \<in> set ms. nests (Suc d) (snd m) \<and> reads (\<lambda>n. json_value n (Suc d)) (json_text (snd m)) (snd m)"
  shows "reads (\<lambda>n. json_value n d) (json_text (JObj ms)) (JObj ms)"
proof (cases ms)
  case Nil
  show ?thesis
    by (rule readsI_Suc) (use assms(1) Nil in simp)
next
  case (Cons m ms')
  then have "ms \<noteq> []" by simp
  from reads_members [OF this assms(2)] obtain n0 where
    n0: "\<forall>n \<ge> n0. \<forall>r. json_members n (Suc d) (join '','' (map member_text ms) @ ''}'' @ r) = Some (ms, r)"
    by (auto simp: reads_def)
  have start: "closes (CHR ''}'') (join '','' (map member_text ms) @ ''}'' @ r) = None" for r
    using json_string_start(1,3) Cons
    by (cases ms') (auto intro: closes_other)
  show ?thesis
    by (rule readsI_Suc [where ?n0.0 = n0]) (use assms(1) start n0 in simp)
qed

lemma reads_atoms:
  "reads (\<lambda>n. json_value n d) (json_text JNull) JNull"
  "reads (\<lambda>n. json_value n d) (json_text (JBool b)) (JBool b)"
  "reads (\<lambda>n. json_value n d) (json_text (JStr s)) (JStr s)"
proof -
  show "reads (\<lambda>n. json_value n d) (json_text JNull) JNull"
    "reads (\<lambda>n. json_value n d) (json_text (JBool b)) (JBool b)"
    by (rule readsI_Suc; simp add: json_literal_def)+
  show "reads (\<lambda>n. json_value n d) (json_text (JStr s)) (JStr s)"
    by (rule readsI_Suc) (use json_text_start [of d "JStr s"] in \<open>simp add: json_chars_tl_string\<close>)
qed

lemma reads_value: "nests d v \<Longrightarrow> reads (\<lambda>n. json_value n d) (json_text v) v"
proof (induction d v rule: nests.induct)
  case (2 d vs)
  then show ?case by (intro reads_array) auto
next
  case (3 d ms)
  then show ?case by (intro reads_object) auto
qed (auto simp only: reads_atoms nests.simps)

lemma parse_text:
  assumes "nests 0 v"
  shows "json_parse (json_text v @ r) = Some (v, r)"
proof -
  obtain n0 where "\<forall>n \<ge> n0. \<forall>r. json_value n 0 (json_text v @ r) = Some (v, r)"
    using reads_value [OF assms] by (auto simp: reads_def)
  then have "json_value (max n0 (Suc (2 * length (json_text v @ r)))) 0 (json_text v @ r) = Some (v, r)"
    by simp
  moreover have "json_value (max n0 (Suc (2 * length (json_text v @ r)))) 0 (json_text v @ r)
      = json_value (Suc (2 * length (json_text v @ r))) 0 (json_text v @ r)"
    by (rule json_fuel(1)) auto
  ultimately show ?thesis
    by (simp add: json_parse_def json_text_start(1) [OF assms])
qed

lemma decode_text: "nests 0 v \<Longrightarrow> json_decode (json_text v) = Inr v"
  using parse_text [of v "[]"] json_text_start(1) [of 0 v "[]"] json_text_start(2-4) [of 0 v "[]"]
  by (cases v) (auto simp: json_decode_def)

lemma unmarshal_text: "nests 0 v \<Longrightarrow> json_unmarshal (json_text v) = Inr v"
  using parse_text [of v "[]"] by (simp add: json_unmarshal_def skip_ws_def)

subsection \<open>Maps of strings\<close>

definition string_members :: "smap \<Rightarrow> (string \<times> json) list" where
  "string_members m = map (\<lambda>(k, v). (k, JStr v)) m"

lemma json_object_text: "json_object m = json_text (JObj (string_members m))"
  by (simp add: json_object_def string_members_def case_prod_unfold comp_def)

lemma nests_object: "nests 0 (JObj (string_members m))" "nests (Suc 0) (JObj (string_members m))"
  by (auto simp: string_members_def max_nesting_def)

lemma mput_new: "k \<notin> set (mkeys m) \<Longrightarrow> mput m k v = m @ [(k, v)]"
  unfolding mput_def mkeys_def by (induction m) auto

lemma foldl_map_member:
  assumes "smap_wf m"
  shows "foldl map_member ([], None) (string_members m) = (m, None)"
  using assms
proof (induction m rule: rev_induct)
  case (snoc kv m)
  obtain k v where kv: "kv = (k, v)" by (cases kv)
  with snoc have "foldl map_member ([], None) (string_members m) = (m, None)" "k \<notin> set (mkeys m)"
    by (auto simp: smap_wf_def mkeys_def)
  with kv show ?case by (simp add: string_members_def map_member_def mput_new)
qed (simp add: string_members_def)

lemma json_strings_object: "smap_wf m \<Longrightarrow> json_strings (json_object m) = Inr m"
  unfolding json_strings_def json_object_text unmarshal_text [OF nests_object(1)]
  by (simp add: decode_map_def foldl_map_member)

lemma smap_wf_sorted [simp]: "smap_wf (sorted_bindings m) = smap_wf m"
  unfolding smap_wf_def by (metis mset_eq_imp_distinct_iff mset_map mset_sorted_bindings)

text \<open>Decoding what was encoded gives the map back.\<close>

lemma json_strings_map: "smap_wf m \<Longrightarrow> json_strings (json_map m) = Inr (sorted_bindings m)"
  using json_strings_object [of "sorted_bindings m"] by (simp add: json_map_def)

lemma map_of_sorted [simp]: "smap_wf m \<Longrightarrow> map_of (sorted_bindings m) = map_of m"
  by (intro map_of_inject_set [THEN iffD2]) (simp_all add: smap_wf_def [symmetric])

lemma mget_sorted [simp]: "smap_wf m \<Longrightarrow> mget (sorted_bindings m) k = mget m k"
  by (simp add: mget_def)

lemma mkeys_sorted [simp]: "set (mkeys (sorted_bindings m)) = set (mkeys m)"
  by (simp add: mkeys_def)

subsection \<open>Structs of strings\<close>

text \<open>
  The laws of a struct: the fields have different names, setting one changes it and no other, and
  the zero value is empty in every field.
\<close>

locale json_struct =
  fixes table :: "'r struct" and zero :: 'r
  assumes names: "distinct (map fst table)"
    and get_put: "(n, get, put) \<in> set table \<Longrightarrow> (n', get', put') \<in> set table \<Longrightarrow>
       get' (put v r) = (if n' = n then v else get' r)"
    and get_zero: "(n, get, put) \<in> set table \<Longrightarrow> get zero = []"
begin

lemma find_field_known:
  assumes "(n, get, put) \<in> set table"
  shows "find_field (string_fields table) n = Some (n, \<lambda>v r. map_option (\<lambda>s. put s r) (into_string v (get r)))"
proof -
  have "find (\<lambda>(k, _). k = n) (string_fields table) =
      Some (n, \<lambda>v r. map_option (\<lambda>s. put s r) (into_string v (get r)))"
    using names assms
    by (induction table) (auto simp: string_fields_def image_iff split: prod.splits)
  then show ?thesis by (simp add: find_field_def)
qed

lemma decode_members:
  assumes "smap_wf m" and "set (mkeys m) \<subseteq> set (map fst table)"
  shows "\<exists>r. foldl (struct_member name strict (string_fields table)) (zero, None) (string_members m) = (r, None) \<and>
     (\<forall>(n, get, put) \<in> set table. get r = mget m n)"
  using assms
proof (induction m rule: rev_induct)
  case Nil
  then show ?case using get_zero by (auto simp: string_members_def)
next
  case (snoc kv m)
  obtain k v where kv: "kv = (k, v)" by (cases kv)
  with snoc obtain r where
    r: "foldl (struct_member name strict (string_fields table)) (zero, None) (string_members m) = (r, None)"
      "\<forall>(n, get, put) \<in> set table. get r = mget m n"
    by (auto simp: smap_wf_def mkeys_def)
  from snoc.prems kv obtain get put where f: "(k, get, put) \<in> set table"
    by (auto simp: mkeys_def)
  have "map_of m k = None"
    using snoc.prems(1) kv by (simp add: smap_wf_def map_of_eq_None_iff)
  then have "mget (m @ [(k, v)]) n = (if n = k then v else mget m n)" for n
    by (auto simp: mget_def map_add_def split: option.split)
  then have "\<forall>(n, get', put') \<in> set table. get' (put v r) = mget (m @ [(k, v)]) n"
    using r(2) get_put [OF f] by (auto split: if_splits) fastforce+
  moreover have "struct_member name strict (string_fields table) (r, None) (k, JStr v) = (put v r, None)"
    by (simp add: struct_member_def find_field_known [OF f])
  ultimately show ?case
    using r(1) by (auto simp: string_members_def kv)
qed

lemma decode_known:
  assumes "smap_wf m" and "set (mkeys m) \<subseteq> set (map fst table)"
  shows "\<exists>r. decode_struct name strict (string_fields table) zero (JObj (string_members m)) = Inr r \<and>
     (\<forall>(n, get, put) \<in> set table. get r = mget m n)"
  using decode_members [OF assms, of name strict] by (auto simp: decode_struct_def)

lemma omit_empty_wf: "smap_wf (omit_empty table r)"
proof -
  have "map fst (map (\<lambda>(n, get, _). (n, get r)) table) = map fst table"
    by (auto simp: case_prod_unfold)
  then show ?thesis
    using names unfolding smap_wf_def omit_empty_def by (metis distinct_map_filter)
qed

text \<open>The fields that were set are those with a non-empty value in the text.\<close>

lemma omit_empty_known:
  assumes "smap_wf m" and "set (mkeys m) \<subseteq> set (map fst table)"
    and "\<forall>(n, get, put) \<in> set table. get r = mget m n"
  shows "mset (omit_empty table r) = mset (filter (\<lambda>(_, v). v \<noteq> []) m)"
proof -
  have "set (omit_empty table r) = set (filter (\<lambda>(_, v). v \<noteq> []) m)"
  proof (intro set_eqI iffI)
    fix kv
    assume "kv \<in> set (omit_empty table r)"
    then have "snd kv = mget m (fst kv)" "snd kv \<noteq> []"
      using assms(3) by (auto simp: omit_empty_def)
    then have "map_of m (fst kv) = Some (snd kv)"
      using mget_nonempty by metis
    then show "kv \<in> set (filter (\<lambda>(_, v). v \<noteq> []) m)"
      using \<open>snd kv \<noteq> []\<close> by (auto dest: map_of_SomeD)
  next
    fix kv
    assume kv: "kv \<in> set (filter (\<lambda>(_, v). v \<noteq> []) m)"
    then obtain n get put where f: "(n, get, put) \<in> set table" "fst kv = n"
      using assms(2) by (auto simp: mkeys_def)
    have "map_of m (fst kv) = Some (snd kv)"
      using kv assms(1) by (auto simp: smap_wf_def)
    then have "get r = snd kv" using f assms(3) by (auto simp: mget_def)
    with f kv show "kv \<in> set (omit_empty table r)"
      by (force simp: omit_empty_def)
  qed
  moreover have "distinct (omit_empty table r)"
    using omit_empty_wf by (auto simp: smap_wf_def distinct_map)
  moreover have "distinct (filter (\<lambda>(_, v). v \<noteq> []) m)"
    using assms(1) by (auto simp: smap_wf_def distinct_map)
  ultimately show ?thesis using set_eq_iff_mset_eq_distinct by blast
qed

lemma omit_empty_lookup:
  assumes "(n, get, put) \<in> set table"
  shows "map_of (omit_empty table r) n = (if get r = [] then None else Some (get r))"
proof (cases "get r = []")
  case True
  have "v = []" if "(n, v) \<in> set (omit_empty table r)" for v
    using that eq_key_imp_eq_value [OF names assms] True by (fastforce simp: omit_empty_def)
  moreover have "(n, []) \<notin> set (omit_empty table r)" by (simp add: omit_empty_def)
  ultimately show ?thesis
    using True by (metis map_of_SomeD not_None_eq)
next
  case False
  then have "(n, get r) \<in> set (omit_empty table r)"
    using assms by (force simp: omit_empty_def)
  with False omit_empty_wf show ?thesis by (simp add: smap_wf_def)
qed

text \<open>A struct that has a field for every argument gets all of them, and prints them again.\<close>

lemma decode_sorted:
  assumes "smap_wf m" and "set (mkeys m) \<subseteq> set (map fst table)"
  shows "\<exists>r. decode_struct name strict (string_fields table) zero (JObj (string_members (sorted_bindings m))) = Inr r \<and>
     (\<forall>(n, get, put) \<in> set table. get r = mget m n) \<and>
     mset (omit_empty table r) = mset (filter (\<lambda>(_, v). v \<noteq> []) m)"
proof -
  obtain r where r: "decode_struct name strict (string_fields table) zero (JObj (string_members (sorted_bindings m))) = Inr r"
      "\<forall>(n, get, put) \<in> set table. get r = mget m n"
    using decode_known [of "sorted_bindings m" name strict] assms by auto
  from omit_empty_known [OF assms r(2)] r show ?thesis by blast
qed

lemma marshal_unmarshal: "json_strings (json_object (omit_empty table r)) = Inr (omit_empty table r)"
  by (rule json_strings_object [OF omit_empty_wf])

end

text \<open>A strict decoder refuses an object with a member that is no field.\<close>

lemma struct_member_err: "snd (foldl (struct_member name strict fields) (r, Some e) ms) = Some e"
proof (induction ms arbitrary: r)
  case (Cons m ms)
  have "\<exists>r'. struct_member name strict fields (r, Some e) m = (r', Some e)"
    by (cases m) (auto simp: struct_member_def orelse_err_def split: option.split)
  then obtain r' where "struct_member name strict fields (r, Some e) m = (r', Some e)" by blast
  with Cons show ?case by simp
qed simp

lemma decode_unknown:
  assumes "(k, v) \<in> set ms" and "find_field fields k = None"
  shows "\<exists>e. decode_struct name True fields zero (JObj ms) = Inl e"
proof -
  obtain ms1 ms2 where ms: "ms = ms1 @ (k, v) # ms2"
    using assms(1) by (metis in_set_conv_decomp)
  obtain r err where 1: "foldl (struct_member name True fields) (zero, None) ms1 = (r, err)"
    by fastforce
  have "struct_member name True fields (r, err) (k, v) =
      (r, orelse_err err (Plain (sprintf [''json: unknown field '', quote k])))"
    by (simp add: struct_member_def assms(2))
  moreover obtain e where "orelse_err err (Plain (sprintf [''json: unknown field '', quote k])) = Some e"
    by (cases err) (auto simp: orelse_err_def)
  ultimately have "snd (foldl (struct_member name True fields) (zero, None) ms) = Some e"
    using struct_member_err by (simp add: ms 1)
  then show ?thesis
    by (cases "foldl (struct_member name True fields) (zero, None) ms") (simp add: decode_struct_def)
qed

end
