(* ===== verification/MounterRequest.thy ===== *)
theory MounterRequest
  imports MounterUtils StringSet Sha256 JsonRoundTrip
begin

section \<open>What the mounters share: pkg/mounter/mounter.go\<close>

text \<open>
  The interface \<open>Mounter\<close>, the parameters of its factory, the helpers on files, and the request
  to the mounter service on the worker node. \<open>os.Stat\<close>, \<open>os.MkdirAll\<close> and the other package
  variables are the calls of \<open>SysCalls\<close>.
\<close>

record Mounter =
  m_Mount :: "string \<Rightarrow> string \<Rightarrow> unit outcome run"
  m_Unmount :: "string \<Rightarrow> unit outcome run"

record MounterParams =
  mp_Attrib :: nmap
  mp_SecretMap :: nmap
  mp_MountFlags :: "string list option"
  mp_KnownS3FSOptions :: "Set option"
  mp_DefaultMOMap :: nmap
  mp_Gid :: string
  mp_ReadOnly :: bool

text \<open>The package variable \<open>mountWorker\<close>: mount through the service on the worker node.\<close>

definition mountWorker :: bool where
  "mountWorker = True"


subsection \<open>Files\<close>

fun isCorruptedMnt :: "gerror \<Rightarrow> bool" where
  "isCorruptedMnt (PathErr n _) = (n = ENOTCONN \<or> n = ESTALE)"
| "isCorruptedMnt (LinkErr n _) = (n = ENOTCONN \<or> n = ESTALE)"
| "isCorruptedMnt (SyscallErr n _) = (n = ENOTCONN \<or> n = ESTALE)"
| "isCorruptedMnt _ = False"

text \<open>The result is the pair of the code, whose boolean counts even beside an error.\<close>

definition checkPath :: "env \<Rightarrow> string \<Rightarrow> (bool \<times> gerror option) outcome run" where
  "checkPath env path =
     (if path = [] then ret (False, Some (Plain ''undefined path''))
      else
        attempt (os_Stat env path)
          (\<lambda>err.
             if IsNotExist err then ret (False, None)
             else if isCorruptedMnt err then ret (True, Some err)
             else ret (False, Some err))
          (\<lambda>_. ret (True, None)))"

definition writePass :: "env \<Rightarrow> string \<Rightarrow> string \<Rightarrow> unit outcome run" where
  "writePass env pwFileName pwFileContent =
     attempt (os_OpenFile env pwFileName) fail
       (\<lambda>_. attempt (file_WriteString env pwFileName pwFileContent) fail
          (\<lambda>_. attempt (file_Close env pwFileName) fail ret))"


subsection \<open>The request to the mounter service\<close>

definition parseErrFromResponse :: "string \<Rightarrow> string" where
  "parseErrFromResponse response =
     (case json_strings response of
        Inl _ \<Rightarrow> response
      | Inr errFromResp \<Rightarrow>
          (case map_of errFromResp ''error'' of None \<Rightarrow> response | Some val \<Rightarrow> val))"

definition http_code :: "nat \<Rightarrow> grpc_code" where
  "http_code code =
     (if code = 400 then InvalidArgument
      else if code = 404 then NotFound
      else if code = 409 then AlreadyExists
      else if code = 403 then PermissionDenied
      else if code = 429 then ResourceExhausted
      else if code = 501 then Unimplemented
      else if code = 500 then Internal
      else if code = 503 then Unavailable
      else if code = 401 then Unauthenticated
      else Unknown)"

definition parseGRPCResponse :: "nat \<Rightarrow> string \<Rightarrow> gerror" where
  "parseGRPCResponse code response = Status (http_code code) (parseErrFromResponse response)"

definition isGRPCServerAvailable :: "env \<Rightarrow> string \<Rightarrow> unit outcome run" where
  "isGRPCServerAvailable env socketPath =
     attempt (net_Dial env socketPath) fail (\<lambda>_. attempt (conn_Close env socketPath) fail ret)"

definition mounter_socket :: "env \<Rightarrow> string run" where
  "mounter_socket env =
     do {
       socketPath \<leftarrow> os_Getenv env COSCSIMounterSocketPathEnv;
       State_Monad.return (if socketPath = [] then COSCSIMounterSocketPath else socketPath)
     }"

definition createCOSCSIMounterRequest :: "env \<Rightarrow> string \<Rightarrow> string \<Rightarrow> unit outcome run" where
  "createCOSCSIMounterRequest env payload url =
     do {
       socketPath \<leftarrow> mounter_socket env;
       attempt (isGRPCServerAvailable env socketPath) fail
         (\<lambda>_. attempt (http_Post env socketPath url payload) fail
            (\<lambda>(code, body).
               if code \<noteq> 200 then fail (parseGRPCResponse code body) else ret ()))
     }"


subsection \<open>Paths and payloads\<close>

text \<open>
  Both mounters keep the credentials of a target path in a directory named by its hash, and send
  the same two kinds of payload. \<open>maxRetries\<close> bounds the attempts to remove the directory.
\<close>

definition maxRetries :: nat where
  "maxRetries = 3"

definition cred_dir :: "string \<Rightarrow> string \<Rightarrow> string" where
  "cred_dir base target = path_join [base, sha256_hex target]"

definition mount_payload :: "string \<Rightarrow> string \<Rightarrow> string \<Rightarrow> smap \<Rightarrow> string" where
  "mount_payload target bucket mounter args =
     sprintf [''{\"path\":\"'', target, ''\",\"bucket\":\"'', bucket, ''\",\"mounter\":\"'', mounter,
              ''\",\"args\":'', json_map args, ''}'']"

definition unmount_payload :: "string \<Rightarrow> string" where
  "unmount_payload target = sprintf [''{\"path\":\"'', target, ''\"}'']"

definition mount_url :: string where
  "mount_url = ''http://unix/api/cos/mount''"

definition unmount_url :: string where
  "unmount_url = ''http://unix/api/cos/unmount''"


subsection \<open>Properties\<close>

text \<open>The successful post of a payload to a URL of the service.\<close>

fun posts :: "string \<Rightarrow> string \<Rightarrow> event \<Rightarrow> bool" where
  "posts url payload (Net (EvHttpPost _ u p (Inr (code, _)))) \<longleftrightarrow> u = url \<and> p = payload \<and> code = 200"
| "posts url payload _ \<longleftrightarrow> False"

text \<open>Any request that the service answered with 200.\<close>

fun accepted :: "event \<Rightarrow> bool" where
  "accepted (Net (EvHttpPost _ _ _ (Inr (code, _)))) \<longleftrightarrow> code = 200"
| "accepted _ \<longleftrightarrow> False"

lemma posts_accepted: "posts url payload e \<Longrightarrow> accepted e"
  by (cases e rule: accepted.cases) auto

fun is_post :: "event \<Rightarrow> bool" where
  "is_post (Net (EvHttpPost _ _ _ _)) = True"
| "is_post _ = False"

lemma mounter_socket_yields:
  "yields (mounter_socket env)
     (\<lambda>s es. \<exists>v. es = [Proc (EvGetenv COSCSIMounterSocketPathEnv v)] \<and>
        s = (if v = [] then COSCSIMounterSocketPath else v))"
  unfolding mounter_socket_def os_Getenv_def
  by (rule yields_bind [OF yields_ask [where Q = "\<lambda>v es. es = [Proc (EvGetenv COSCSIMounterSocketPathEnv v)]"]])
     (auto intro!: yields_return)

lemma createCOSCSIMounterRequest_yields:
  "yields (createCOSCSIMounterRequest env payload url)
     (\<lambda>r es. (case r of
          Ret _ \<Rightarrow> list_ex (posts url payload) es
        | Fail e \<Rightarrow> \<not> list_ex accepted es
        | Panic _ \<Rightarrow> False) \<and>
        length (filter is_post es) \<le> 1 \<and> (\<forall>e \<in> set es. \<not> is_fs e \<and> \<not> is_cos e))"
  unfolding createCOSCSIMounterRequest_def isGRPCServerAvailable_def sys_net_defs
  by (rule yields_bind [OF mounter_socket_yields])
     (auto simp: list_ex_iff filter_empty_conv split: if_splits intro!: yields_ret yields_fail
        yields_attempt_fail [where R = "\<lambda>r es. (\<forall>p. r \<noteq> Panic p) \<and>
          (\<forall>e \<in> set es. \<not> is_post e \<and> \<not> is_fs e \<and> \<not> is_cos e \<and> \<not> accepted e)"]
        yields_attempt_fail [OF yields_reply])

lemma plain_sha256: "plain_elem (sha256_hex s)"
proof -
  have "sha256_hex s \<noteq> ''.''" "sha256_hex s \<noteq> ''..''"
    using length_sha256_hex [of s] by fastforce+
  then show ?thesis by (simp add: plain_elem_def sha256_hex_no_slash)
qed

lemma join_snoc: "cs \<noteq> [] \<Longrightarrow> join sep (cs @ [f]) = join sep cs @ sep @ f"
  by (induction sep cs rule: join.induct) auto

lemma path_join_plain:
  assumes "\<forall>c \<in> set cs. plain_elem c" and "cs \<noteq> []" and "plain_elem f"
  shows "path_join [''/'' @ join ''/'' cs, f] = ''/'' @ join ''/'' (cs @ [f])"
  using clean_plain [of "cs @ [f]"] assms
  by (simp add: path_join_def Let_def join_snoc plain_elem_def)

text \<open>The directory of the worker is below the configuration directory of the service.\<close>

lemma host_dir_elems: "MounterConfigPathOnHost = ''/'' @ join ''/'' [''var'', ''lib'', ''coscsi-config'']"
  by (simp add: MounterConfigPathOnHost_def)

lemma host_plain: "\<forall>c \<in> set [''var'', ''lib'', ''coscsi-config'']. plain_elem c"
  by (simp add: plain_elem_def)

lemma host_cred_dir:
  "cred_dir MounterConfigPathOnHost target = MounterConfigPathOnHost @ ''/'' @ sha256_hex target"
  unfolding cred_dir_def host_dir_elems
  by (subst path_join_plain [OF host_plain _ plain_sha256]) simp_all

lemma host_cred_file:
  assumes "plain_elem f"
  shows "path_join [cred_dir MounterConfigPathOnHost target, f]
       = MounterConfigPathOnHost @ ''/'' @ sha256_hex target @ ''/'' @ f"
proof -
  have "cred_dir MounterConfigPathOnHost target
      = ''/'' @ join ''/'' [''var'', ''lib'', ''coscsi-config'', sha256_hex target]"
    unfolding host_cred_dir by (simp add: MounterConfigPathOnHost_def)
  then show ?thesis
    using path_join_plain [of "[''var'', ''lib'', ''coscsi-config'', sha256_hex target]" f] assms
    by (simp add: plain_sha256 plain_elem_def [of "''var''"] plain_elem_def [of "''lib''"]
        plain_elem_def [of "''coscsi-config''"] MounterConfigPathOnHost_def)
qed


subsection \<open>What the mounters promise\<close>

text \<open>The attempts to remove the directory: at most \<open>n\<close>, and of nothing else.\<close>

definition removal_of :: "string \<Rightarrow> nat \<Rightarrow> event list \<Rightarrow> bool" where
  "removal_of p n es \<longleftrightarrow>
     list_all (\<lambda>e. removes e = None \<or> removes e = Some p) es \<and>
     length (filter (\<lambda>e. removes e \<noteq> None) es) \<le> n"

lemma checkPath_yields:
  "yields (checkPath env path)
     (\<lambda>r es. (\<forall>e \<in> set es. is_fs e \<and> removes e = None) \<and> (\<forall>e. r \<noteq> Fail e) \<and> (\<forall>p. r \<noteq> Panic p))"
  unfolding checkPath_def os_Stat_def
  by (auto intro!: yields_ret yields_attempt [OF yields_reply])

lemma writePass_yields:
  "yields (writePass env f s)
     (\<lambda>r es. (\<forall>e \<in> set es. is_fs e \<and> removes e = None) \<and> (\<forall>p. r \<noteq> Panic p) \<and>
        (r = Ret () \<longrightarrow> Fs (EvWriteString f s (Inr ())) \<in> set es))"
  unfolding writePass_def sys_fs_defs
  by (auto intro!: yields_ret yields_attempt_fail [OF yields_reply])

text \<open>
  \<open>mount_post\<close> and \<open>unmount_post\<close>: what both mounters promise on the worker. A mount succeeds
  exactly when the service answered 200 to the payload, and the credentials were written before;
  after an unmount the credentials are removed, in at most three attempts, only if the service
  answered 200, and a failure to remove them is not reported.
\<close>

definition mount_post ::
    "string \<Rightarrow> string \<Rightarrow> string \<Rightarrow> 'a outcome \<Rightarrow> event list \<Rightarrow> bool" where
  "mount_post payload file content r es \<longleftrightarrow>
     list_all (\<lambda>e. \<not> is_cos e \<and> removes e = None) es \<and>
     (case r of
        Ret _ \<Rightarrow> list_ex (posts mount_url payload) es \<and> Fs (EvWriteString file content (Inr ())) \<in> set es
      | Fail _ \<Rightarrow> \<not> list_ex accepted es
      | Panic _ \<Rightarrow> False)"

definition unmount_post :: "string \<Rightarrow> 'a outcome \<Rightarrow> event list \<Rightarrow> bool" where
  "unmount_post target r es \<longleftrightarrow>
     list_all (\<lambda>e. \<not> is_cos e) es \<and>
     removal_of (cred_dir MounterConfigPathOnHost target) maxRetries es \<and>
     (case r of
        Ret _ \<Rightarrow> list_ex (posts unmount_url (unmount_payload target)) es
      | Fail _ \<Rightarrow> \<not> list_ex accepted es \<and>
                 list_all (\<lambda>e. removes e = None) es
      | Panic _ \<Rightarrow> False)"

lemma request_yields:
  "yields (createCOSCSIMounterRequest env payload url)
     (\<lambda>r es. (case r of
          Ret _ \<Rightarrow> list_ex (posts url payload) es
        | Fail e \<Rightarrow> \<not> list_ex accepted es
        | Panic _ \<Rightarrow> False) \<and> (\<forall>e \<in> set es. removes e = None \<and> \<not> is_cos e))"
proof -
  have *: "removes e = None" if "\<not> is_fs e" for e
    using that by (cases e) auto
  show ?thesis
    by (rule yields_mono [OF createCOSCSIMounterRequest_yields]) (use * in blast)
qed

lemma fs_not_post: "is_fs e \<Longrightarrow> \<not> is_cos e \<and> \<not> accepted e"
  by (cases e) auto

lemma mount_post_early:
  "(\<forall>e \<in> set es. is_fs e \<and> removes e = None) \<Longrightarrow> mount_post payload file content (Fail e) es"
  by (auto simp: mount_post_def list_all_iff list_ex_iff fs_not_post)

lemma mount_post_request:
  assumes "\<forall>e \<in> set es. is_fs e \<and> removes e = None" and "Fs (EvWriteString file content (Inr ())) \<in> set es"
  shows "yields (attempt (createCOSCSIMounterRequest env payload mount_url) fail ret)
     (\<lambda>r es'. mount_post payload file content r (es @ es'))"
  by (rule yields_attempt_fail [OF request_yields])
     (use assms in \<open>auto simp: mount_post_def list_all_iff list_ex_iff fs_not_post intro!: yields_ret\<close>)

lemma unmount_post_yields:
  assumes rm: "yields rm (\<lambda>_ es. removal_of (cred_dir MounterConfigPathOnHost target) maxRetries es \<and>
      (\<forall>e \<in> set es. is_fs e \<or> is_sleep e))"
  shows "yields (attempt (createCOSCSIMounterRequest env (unmount_payload target) unmount_url) fail
     (\<lambda>_. State_Monad.bind rm (\<lambda>_. ret ()))) (unmount_post target)"
proof -
  have quiet: "\<not> is_cos e" if "is_fs e \<or> is_sleep e" for e
    using that by (cases e) auto
  show ?thesis
    by (rule yields_attempt_fail [OF request_yields])
       (auto simp: unmount_post_def removal_of_def list_all_iff list_ex_iff filter_empty_conv quiet
          intro!: yields_bind [OF rm] yields_ret)
qed


text \<open>
  The contract of \<open>Mounter\<close> for a mount on the worker: \<open>payload\<close>, \<open>cred_file\<close> and \<open>content\<close> say
  what is sent and which credentials are written, for a target.
\<close>

locale mounter =
  fixes m :: Mounter
    and payload :: "string \<Rightarrow> string" and cred_file :: "string \<Rightarrow> string" and content :: string
  assumes mount: "yields (m_Mount m source target)
       (mount_post (payload target) (cred_file target) content)"
    and unmount: "yields (m_Unmount m target) (unmount_post target)"
    and file_below: "\<exists>f. plain_elem f \<and> cred_file target = MounterConfigPathOnHost @ ''/'' @ sha256_hex target @ ''/'' @ f"
begin

lemma mount_total: "yields (m_Mount m source target) (\<lambda>r _. \<forall>p. r \<noteq> Panic p)"
  by (rule yields_mono [OF mount]) (auto simp: mount_post_def split: outcome.splits)

lemma unmount_total: "yields (m_Unmount m target) (\<lambda>r _. \<forall>p. r \<noteq> Panic p)"
  by (rule yields_mono [OF unmount]) (auto simp: unmount_post_def split: outcome.splits)

text \<open>A successful mount has posted the payload; a failed one has not been answered with 200.\<close>

lemma mount_posted:
  "yields (m_Mount m source target)
     (\<lambda>r es. (r = Ret ()) = list_ex (posts mount_url (payload target)) es)"
  by (rule yields_mono [OF mount])
     (auto simp: mount_post_def list_ex_iff dest: posts_accepted split: outcome.splits)

end

end
