(* ===== verification/S3fsMounter.thy ===== *)
theory S3fsMounter
  imports MounterRequest
begin

section \<open>The s3fs mounter: pkg/mounter/mounter-s3fs.go\<close>

text \<open>
  \<open>S3fsMounter\<close> is the struct, \<open>s3fs_Mount\<close> and \<open>s3fs_Unmount\<close> are its methods. The loops
  over maps take their order from an \<open>iteration\<close>, one \<open>range_site\<close> per loop.
\<close>

record S3fsMounter =
  s3_BucketName :: string
  s3_ObjectPath :: string
  s3_EndPoint :: string
  s3_LocConstraint :: string
  s3_AuthType :: string
  s3_AccessKeys :: string
  s3_IAMEndpoint :: string
  s3_KpRootKeyCrn :: string
  s3_MountOptions :: "string list"
  s3_AddMountParam :: string
  s3_MounterUtils :: MounterUtils

record S3fsMounterParams =
  sp_SecretMap :: nmap
  sp_MountOptions :: "string list option"
  sp_MounterUtils :: MounterUtils
  sp_KnownS3FSOptions :: "Set option"
  sp_DefaultParams :: nmap
  sp_Gid :: string
  sp_ReadOnly :: bool

definition passFile :: string where
  "passFile = ''.passwd-s3fs''"


subsection \<open>Mount options\<close>

definition GetKnownS3FSOptions :: Set where
  "GetKnownS3FSOptions = NewSetWithValues
     [''allow_other'', ''auto_cache'', ''cipher_suites'',
      ''connect_timeout'', ''curldbg'', ''dbglevel'',
      ''default_acl'', ''disable_noobj_cache'', ''endpoint'',
      ''gid'', ''ibm_iam_auth'', ''ibm_iam_endpoint'',
      ''instance_name'', ''kernel_cache'', ''max_background'',
      ''max_dirty_data'', ''max_stat_cache_size'', ''mp_umask'',
      ''multipart_size'', ''multireq_max'', ''parallel_count'',
      ''passwd_file'', ''ro'', ''readwrite_timeout'',
      ''retries'', ''sigv2'', ''sigv4'',
      ''stat_cache_expire'', ''uid'', ''umask'',
      ''url'', ''use_path_request_style'', ''use_xattr'',
      ''tmpdir'', ''use_cache'']"

text \<open>
  One option: nothing for an empty one or an empty name; otherwise the name and the value, which
  is the name again when there is no equals sign.
\<close>

definition parse_option :: "string \<Rightarrow> (string \<times> string) option" where
  "parse_option opt0 =
     (let opt = trim_space opt0
      in if opt = [] then None
         else
           (let opts = split_n2 CHR ''='' opt;
                optName = trim_space (hd opts)
            in if optName = [] then None
               else
                 (case opts of
                    [_, v] \<Rightarrow> Some (optName, trim_space v)
                  | _ \<Rightarrow> Some (optName, optName))))"

text \<open>
  The loop over the options; the two maps are the arguments that the code updates in place. A nil
  set would be dereferenced by the first option that is not skipped.
\<close>

fun classifyMountOptions ::
    "string list \<Rightarrow> Set option \<Rightarrow> smap \<Rightarrow> smap \<Rightarrow> (smap \<times> smap) outcome" where
  "classifyMountOptions [] knownOptions knownMap unknownMap = Ret (knownMap, unknownMap)"
| "classifyMountOptions (opt # options) knownOptions knownMap unknownMap =
     (case parse_option opt of
        None \<Rightarrow> classifyMountOptions options knownOptions knownMap unknownMap
      | Some (optName, optValue) \<Rightarrow>
          (case knownOptions of
             None \<Rightarrow> Panic nil_deref
           | Some known \<Rightarrow>
               (if Contains known optName
                then classifyMountOptions options knownOptions (mput knownMap optName optValue) unknownMap
                else classifyMountOptions options knownOptions knownMap (mput unknownMap optName optValue))))"

definition buildMountOptionsSlice :: "iteration \<Rightarrow> smap \<Rightarrow> smap \<Rightarrow> string list" where
  "buildMountOptionsSlice it mountOptsMap defaultParams =
     map (\<lambda>(key, val). if key \<noteq> val then key @ ''='' @ val else val) (it RangeMountOpts mountOptsMap) @
     map (\<lambda>(key, value). key @ ''='' @ value)
       (filter (\<lambda>(key, value). value \<noteq> [] \<and> map_of mountOptsMap key = None) (it RangeDefaults defaultParams))"

definition buildAddMountParam :: "iteration \<Rightarrow> smap \<Rightarrow> string" where
  "buildAddMountParam it unknownOptionsMap =
     (if unknownOptionsMap = [] then []
      else join '',''
        (map (\<lambda>(optName, optValue). if optName = optValue then optName else optName @ ''='' @ optValue)
          (it RangeUnknown unknownOptionsMap)))"

text \<open>
  The map of the known options after the classification: the values that the code sets, deletes
  and overrides, in its order.
\<close>

definition override_options :: "smap \<Rightarrow> string \<Rightarrow> bool \<Rightarrow> smap \<Rightarrow> smap" where
  "override_options secretMap gid readOnly m0 =
     (let m1 = (if equal_fold (mget m0 CipherSuitesKey) ''default'' then mdel m0 CipherSuitesKey else m0);
          m2 = (if readOnly then mput m1 ''ro'' ''true'' else m1);
          m3 = (if mget secretMap ''uid'' \<noteq> [] then mput m2 ''uid'' (mget secretMap ''uid'') else m2);
          m4 = (if mget secretMap ''gid'' \<noteq> [] then mput m3 ''gid'' (mget secretMap ''gid'') else m3);
          m5 = (if gid \<noteq> [] then mput m4 ''gid'' gid else m4);
          m6 = (if mget m5 ''gid'' \<noteq> [] \<and> mget m5 ''uid'' = [] then mput m5 ''uid'' (mget m5 ''gid'') else m5);
          m7 = (case map_of secretMap ''tmpdir'' of Some val \<Rightarrow> mput m6 ''tmpdir'' val | None \<Rightarrow> m6);
          m8 = (case map_of secretMap ''use_cache'' of Some val \<Rightarrow> mput m7 ''use_cache'' val | None \<Rightarrow> m7)
      in m8)"

definition updateS3FSMountOptions ::
    "iteration \<Rightarrow> string list \<Rightarrow> smap \<Rightarrow> Set option \<Rightarrow> smap \<Rightarrow> string \<Rightarrow> bool
     \<Rightarrow> (string list \<times> string) outcome" where
  "updateS3FSMountOptions it defaultMountOp secretMap knownS3FSOptions defaultParams gid readOnly =
     (case classifyMountOptions defaultMountOp knownS3FSOptions [] [] of
        Fail e \<Rightarrow> Fail e
      | Panic p \<Rightarrow> Panic p
      | Ret (known, unknown) \<Rightarrow>
     (case (case map_of secretMap ''mountOptions'' of
              None \<Rightarrow> Ret (known, unknown)
            | Some stringData \<Rightarrow>
                classifyMountOptions (split_on (CHR 0x0A) stringData) knownS3FSOptions known unknown) of
        Fail e \<Rightarrow> Fail e
      | Panic p \<Rightarrow> Panic p
      | Ret (known, unknown) \<Rightarrow>
          (let mountOptsMap = override_options secretMap gid readOnly known
           in Ret (buildMountOptionsSlice it mountOptsMap defaultParams, buildAddMountParam it unknown))))"

definition zero_S3fsMounter :: "MounterUtils \<Rightarrow> S3fsMounter" where
  "zero_S3fsMounter mu =
     \<lparr> s3_BucketName = [], s3_ObjectPath = [], s3_EndPoint = [], s3_LocConstraint = [], s3_AuthType = [],
       s3_AccessKeys = [], s3_IAMEndpoint = [], s3_KpRootKeyCrn = [], s3_MountOptions = [],
       s3_AddMountParam = [], s3_MounterUtils = mu \<rparr>"

definition NewS3fsMounter :: "iteration \<Rightarrow> S3fsMounterParams \<Rightarrow> S3fsMounter outcome" where
  "NewS3fsMounter it params =
     (if sp_SecretMap params = None \<and> sp_MountOptions params = None \<and>
         sp_KnownS3FSOptions params = None \<and> sp_DefaultParams params = None
      then Ret (zero_S3fsMounter (sp_MounterUtils params))
      else
        (let secretMap = deref (sp_SecretMap params);
             apiKey = mget secretMap ''apiKey'';
             mountOptions = (case sp_MountOptions params of None \<Rightarrow> [] | Some ops \<Rightarrow> ops)
         in case updateS3FSMountOptions it mountOptions secretMap (sp_KnownS3FSOptions params)
                   (deref (sp_DefaultParams params)) (sp_Gid params) (sp_ReadOnly params) of
              Fail e \<Rightarrow> Fail e
            | Panic p \<Rightarrow> Panic p
            | Ret (updatedOptions, addMountParam) \<Rightarrow>
                Ret \<lparr> s3_BucketName = mget secretMap ''bucketName'',
                      s3_ObjectPath = mget secretMap ''objectPath'',
                      s3_EndPoint = mget secretMap ''cosEndpoint'',
                      s3_LocConstraint = mget secretMap ''locationConstraint'',
                      s3_AuthType = (if apiKey \<noteq> [] then ''iam'' else ''hmac''),
                      s3_AccessKeys =
                        (if apiKey \<noteq> [] then '':'' @ apiKey
                         else mget secretMap ''accessKey'' @ '':'' @ mget secretMap ''secretKey''),
                      s3_IAMEndpoint = mget secretMap ''iamEndpoint'',
                      s3_KpRootKeyCrn = mget secretMap ''kpRootKeyCRN'',
                      s3_MountOptions = updatedOptions,
                      s3_AddMountParam = addMountParam,
                      s3_MounterUtils = sp_MounterUtils params \<rparr>))"


subsection \<open>Arguments of the mount\<close>

text \<open>The options of the mounter as entries of the map for the worker.\<close>

definition worker_option :: "smap \<Rightarrow> string \<Rightarrow> smap" where
  "worker_option m val =
     (case split_on CHR ''='' val of
        k # v # _ \<Rightarrow> mput m k v
      | [k] \<Rightarrow> mput m k ''true''
      | [] \<Rightarrow> m)"

definition s3fs_formulateMountOptions ::
    "S3fsMounter \<Rightarrow> string \<Rightarrow> string \<Rightarrow> string \<Rightarrow> string list \<times> smap" where
  "s3fs_formulateMountOptions s3 bucket target passwdFile =
     (let n0 = [bucket, target, ''-o'', ''sigv2'', ''-o'', ''use_path_request_style'',
                ''-o'', ''passwd_file='' @ passwdFile, ''-o'', ''url='' @ s3_EndPoint s3,
                ''-o'', ''allow_other'', ''-o'', ''mp_umask=002''];
          w0 = [(''sigv2'', ''true''), (''use_path_request_style'', ''true''),
                (''passwd_file'', passwdFile), (''url'', s3_EndPoint s3),
                (''allow_other'', ''true''), (''mp_umask'', ''002'')];
          n1 = (if s3_LocConstraint s3 \<noteq> [] then n0 @ [''-o'', ''endpoint='' @ s3_LocConstraint s3] else n0);
          w1 = (if s3_LocConstraint s3 \<noteq> [] then mput w0 ''endpoint'' (s3_LocConstraint s3) else w0);
          n2 = n1 @ concat (map (\<lambda>val. [''-o'', val]) (s3_MountOptions s3));
          w2 = foldl worker_option w1 (s3_MountOptions s3);
          n3 = (if s3_AuthType s3 \<noteq> ''hmac''
                then n2 @ [''-o'', ''ibm_iam_auth''] @ [''-o'', ''ibm_iam_endpoint='' @ s3_IAMEndpoint s3]
                else n2 @ [''-o'', ''default_acl=private'']);
          w3 = (if s3_AuthType s3 \<noteq> ''hmac''
                then mput (mput w2 ''ibm_iam_auth'' ''true'') ''ibm_iam_endpoint'' (s3_IAMEndpoint s3)
                else mput w2 ''default_acl'' ''private'');
          w4 = (if s3_AddMountParam s3 \<noteq> [] then mput w3 ''add-mount-param'' (s3_AddMountParam s3) else w3)
      in (n3, w4))"


subsection \<open>Mount and Unmount\<close>

fun removeS3FSCredFile_loop :: "env \<Rightarrow> string \<Rightarrow> nat \<Rightarrow> unit run" where
  "removeS3FSCredFile_loop env metaPath 0 = State_Monad.return ()"
| "removeS3FSCredFile_loop env metaPath (Suc n) =
     do {
       st \<leftarrow> os_Stat env metaPath;
       (case st of
          Ret _ \<Rightarrow>
            do {
              rm \<leftarrow> os_RemoveAll env metaPath;
              (case rm of
                 Ret _ \<Rightarrow> State_Monad.return ()
               | _ \<Rightarrow> do { _ \<leftarrow> time_Sleep Interval; removeS3FSCredFile_loop env metaPath n })
            }
        | Fail err \<Rightarrow>
            (if IsNotExist err then State_Monad.return ()
             else do { _ \<leftarrow> time_Sleep Interval; removeS3FSCredFile_loop env metaPath n })
        | Panic _ \<Rightarrow> State_Monad.return ())
     }"

definition removeS3FSCredFile :: "env \<Rightarrow> string \<Rightarrow> string \<Rightarrow> unit run" where
  "removeS3FSCredFile env credDir target = removeS3FSCredFile_loop env (cred_dir credDir target) maxRetries"

definition s3fs_bucket :: "S3fsMounter \<Rightarrow> string" where
  "s3fs_bucket s3 =
     (if s3_ObjectPath s3 \<noteq> [] then
        (if has_prefix (s3_ObjectPath s3) ''/''
         then s3_BucketName s3 @ '':'' @ s3_ObjectPath s3
         else s3_BucketName s3 @ '':/'' @ s3_ObjectPath s3)
      else s3_BucketName s3)"

text \<open>\<open>s3fs_credentials\<close> is the part of \<open>Mount\<close> that writes the password file.\<close>

definition s3fs_credentials :: "env \<Rightarrow> string \<Rightarrow> string \<Rightarrow> string \<Rightarrow> unit outcome run" where
  "s3fs_credentials env metaPath passwdFile accessKeys =
     attempt (checkPath env metaPath) fail (\<lambda>(pathExist, err).
       (case err of
          Some e \<Rightarrow> fail (Plain (sprintf [''S3FSMounter Mount: Cannot stat directory '', metaPath, '': '', error_text e]))
        | None \<Rightarrow>
            attempt (if \<not> pathExist then MkdirAll env metaPath else ret ())
              (\<lambda>e. fail (Plain (sprintf [''S3FSMounter Mount: Cannot create directory '', metaPath, '': '', error_text e])))
              (\<lambda>_. attempt (writePass env passwdFile accessKeys)
                 (\<lambda>e. fail (Plain (sprintf [''S3FSMounter Mount: Cannot create file '', passwdFile, '': '', error_text e])))
                 ret)))"

definition s3fs_Mount :: "env \<Rightarrow> bool \<Rightarrow> S3fsMounter \<Rightarrow> string \<Rightarrow> string \<Rightarrow> unit outcome run" where
  "s3fs_Mount env worker s3 source target =
     (let metaPath = cred_dir (if worker then MounterConfigPathOnHost else MounterConfigPathOnPodS3fs) target;
          passwdFile = path_join [metaPath, passFile];
          bucketName = s3fs_bucket s3
      in attempt (s3fs_credentials env metaPath passwdFile (s3_AccessKeys s3)) fail
           (\<lambda>_. let (args, wnOp) = s3fs_formulateMountOptions s3 bucketName target passwdFile
                in if worker
                   then attempt (createCOSCSIMounterRequest env (mount_payload target bucketName S3FS wnOp) mount_url)
                          fail ret
                   else mu_FuseMount (s3_MounterUtils s3) target S3FS args))"

definition s3fs_Unmount :: "env \<Rightarrow> bool \<Rightarrow> S3fsMounter \<Rightarrow> string \<Rightarrow> unit outcome run" where
  "s3fs_Unmount env worker s3 target =
     (if worker then
        attempt (createCOSCSIMounterRequest env (unmount_payload target) unmount_url) fail
          (\<lambda>_. State_Monad.bind (removeS3FSCredFile env MounterConfigPathOnHost target) (\<lambda>_. ret ()))
      else
        attempt (mu_FuseUnmount (s3_MounterUtils s3) target) fail
          (\<lambda>_. State_Monad.bind (removeS3FSCredFile env MounterConfigPathOnPodS3fs target) (\<lambda>_. ret ())))"

definition S3fs_Mounter :: "env \<Rightarrow> S3fsMounter \<Rightarrow> Mounter" where
  "S3fs_Mounter env s3 = \<lparr> m_Mount = s3fs_Mount env mountWorker s3, m_Unmount = s3fs_Unmount env mountWorker s3 \<rparr>"


subsection \<open>Options of the mount\<close>

lemma equal_fold_default_Nil: "\<not> equal_fold [] ''default''"
  by (simp add: equal_fold_def to_lower_def)

lemma put_if_lookup:
  "map_of (if b then mput m k v else m) k' = (if b \<and> k' = k then Some v else map_of m k')"
  "mget (if b then mput m k v else m) k' = (if b \<and> k' = k then v else mget m k')"
  "map_of (if b then mdel m k else m) k' = (if b \<and> k' = k then None else map_of m k')"
  "mget (if b then mdel m k else m) k' = (if b \<and> k' = k then [] else mget m k')"
  "map_of (case c of Some v \<Rightarrow> mput m k v | None \<Rightarrow> m) k' = (if k' = k \<and> c \<noteq> None then c else map_of m k')"
  "mget (case c of Some v \<Rightarrow> mput m k v | None \<Rightarrow> m) k' = (if k' = k \<and> c \<noteq> None then the c else mget m k')"
  by (auto simp: smap_simps split: option.split)

lemma override_lookup:
  assumes "m = override_options secret gid readOnly m0"
  shows "mget m ''gid'' = (if gid \<noteq> [] then gid
        else if mget secret ''gid'' \<noteq> [] then mget secret ''gid'' else mget m0 ''gid'')"
    and "mget m ''uid'' = (if mget secret ''uid'' \<noteq> [] then mget secret ''uid''
        else if mget m0 ''uid'' \<noteq> [] then mget m0 ''uid'' else mget m ''gid'')"
    and "map_of m ''ro'' = (if readOnly then Some ''true'' else map_of m0 ''ro'')"
    and "map_of m CipherSuitesKey =
       (if equal_fold (mget m0 CipherSuitesKey) ''default'' then None else map_of m0 CipherSuitesKey)"
    and "map_of m ''tmpdir'' = (case map_of secret ''tmpdir'' of Some v \<Rightarrow> Some v | None \<Rightarrow> map_of m0 ''tmpdir'')"
    and "map_of m ''use_cache'' = (case map_of secret ''use_cache'' of Some v \<Rightarrow> Some v | None \<Rightarrow> map_of m0 ''use_cache'')"
    and "k \<notin> {''gid'', ''uid'', ''ro'', CipherSuitesKey, ''tmpdir'', ''use_cache''} \<Longrightarrow> map_of m k = map_of m0 k"
proof -
  let ?g = "mget secret ''gid''" and ?u = "mget secret ''uid''"
  define m2 where "m2 = (if readOnly then mput
      (if equal_fold (mget m0 CipherSuitesKey) ''default'' then mdel m0 CipherSuitesKey else m0) ''ro'' ''true''
      else (if equal_fold (mget m0 CipherSuitesKey) ''default'' then mdel m0 CipherSuitesKey else m0))"
  define m3 where "m3 = (if ?u \<noteq> [] then mput m2 ''uid'' ?u else m2)"
  define m4 where "m4 = (if ?g \<noteq> [] then mput m3 ''gid'' ?g else m3)"
  define m5 where "m5 = (if gid \<noteq> [] then mput m4 ''gid'' gid else m4)"
  define m6 where "m6 = (if mget m5 ''gid'' \<noteq> [] \<and> mget m5 ''uid'' = [] then mput m5 ''uid'' (mget m5 ''gid'') else m5)"
  define m7 where "m7 = (case map_of secret ''tmpdir'' of Some val \<Rightarrow> mput m6 ''tmpdir'' val | None \<Rightarrow> m6)"
  have m: "m = (case map_of secret ''use_cache'' of Some val \<Rightarrow> mput m7 ''use_cache'' val | None \<Rightarrow> m7)"
    unfolding assms override_options_def Let_def m2_def m3_def m4_def m5_def m6_def m7_def ..
  have g5: "mget m5 ''gid'' = (if gid \<noteq> [] then gid else if ?g \<noteq> [] then ?g else mget m0 ''gid'')"
    and u5: "mget m5 ''uid'' = (if ?u \<noteq> [] then ?u else mget m0 ''uid'')"
    by (simp_all add: m5_def m4_def m3_def m2_def put_if_lookup CipherSuitesKey_def)
  have g6: "mget m ''gid'' = mget m5 ''gid''" and u6: "mget m ''uid'' = (if mget m5 ''uid'' \<noteq> [] then mget m5 ''uid''
       else mget m5 ''gid'')"
    unfolding m m7_def m6_def by (simp_all add: put_if_lookup smap_simps)
  show "mget m ''gid'' = (if gid \<noteq> [] then gid else if ?g \<noteq> [] then ?g else mget m0 ''gid'')"
    unfolding g6 by (rule g5)
  show "mget m ''uid'' = (if ?u \<noteq> [] then ?u else if mget m0 ''uid'' \<noteq> [] then mget m0 ''uid'' else mget m ''gid'')"
    unfolding g6 u6 u5 by simp
  have other: "map_of m k = (case (if k = ''use_cache'' then map_of secret k else None) of Some v \<Rightarrow> Some v
      | None \<Rightarrow> (case (if k = ''tmpdir'' then map_of secret k else None) of Some v \<Rightarrow> Some v
      | None \<Rightarrow> map_of m2 k))" if "k \<noteq> ''gid''" "k \<noteq> ''uid''" for k
    unfolding m m7_def m6_def m5_def m4_def m3_def
    using that by (simp add: put_if_lookup split: option.split)
  show "map_of m ''ro'' = (if readOnly then Some ''true'' else map_of m0 ''ro'')"
    by (simp add: other m2_def put_if_lookup CipherSuitesKey_def)
  show "map_of m CipherSuitesKey =
       (if equal_fold (mget m0 CipherSuitesKey) ''default'' then None else map_of m0 CipherSuitesKey)"
    by (simp add: other m2_def put_if_lookup CipherSuitesKey_def)
  show "map_of m ''tmpdir'' = (case map_of secret ''tmpdir'' of Some v \<Rightarrow> Some v | None \<Rightarrow> map_of m0 ''tmpdir'')"
    by (simp add: other m2_def put_if_lookup CipherSuitesKey_def split: option.split)
  show "map_of m ''use_cache'' = (case map_of secret ''use_cache'' of Some v \<Rightarrow> Some v | None \<Rightarrow> map_of m0 ''use_cache'')"
    by (simp add: other m2_def put_if_lookup CipherSuitesKey_def split: option.split)
  show "k \<notin> {''gid'', ''uid'', ''ro'', CipherSuitesKey, ''tmpdir'', ''use_cache''} \<Longrightarrow> map_of m k = map_of m0 k"
    by (simp add: other m2_def put_if_lookup)
qed

text \<open>
  What the code sets over the options of the storage class and the secret: the group id is the
  pod's, then the secret's, then the option's; the user id is the secret's, then the option's, then
  the group id; a read-only claim sets \<open>ro\<close>; the cipher suite \<open>default\<close>, in any case, is dropped;
  the cache options of the secret win; every other option is left alone.
\<close>

theorem override_options_spec:
  "let m = override_options secret gid readOnly m0 in
     mget m ''gid'' = (if gid \<noteq> [] then gid
        else if mget secret ''gid'' \<noteq> [] then mget secret ''gid'' else mget m0 ''gid'') \<and>
     mget m ''uid'' = (if mget secret ''uid'' \<noteq> [] then mget secret ''uid''
        else if mget m0 ''uid'' \<noteq> [] then mget m0 ''uid'' else mget m ''gid'') \<and>
     map_of m ''ro'' = (if readOnly then Some ''true'' else map_of m0 ''ro'') \<and>
     map_of m CipherSuitesKey =
       (if equal_fold (mget m0 CipherSuitesKey) ''default'' then None else map_of m0 CipherSuitesKey) \<and>
     map_of m ''tmpdir'' = (case map_of secret ''tmpdir'' of Some v \<Rightarrow> Some v | None \<Rightarrow> map_of m0 ''tmpdir'') \<and>
     map_of m ''use_cache'' = (case map_of secret ''use_cache'' of Some v \<Rightarrow> Some v | None \<Rightarrow> map_of m0 ''use_cache'') \<and>
     (\<forall>k. map_of m k = map_of m0 k \<or>
          k \<in> {''gid'', ''uid'', ''ro'', CipherSuitesKey, ''tmpdir'', ''use_cache''})"
  unfolding Let_def
proof (intro conjI allI override_lookup(1-6) [OF refl])
  fix k
  show "map_of (override_options secret gid readOnly m0) k = map_of m0 k \<or>
      k \<in> {''gid'', ''uid'', ''ro'', CipherSuitesKey, ''tmpdir'', ''use_cache''}"
    using override_lookup(7) [OF refl, of k] by blast
qed


subsection \<open>The order of the iterations does not matter\<close>

text \<open>
  \<open>plain_keys m\<close>: every name is nonempty and has no equals sign. The classification only makes
  such names.
\<close>

definition plain_keys :: "smap \<Rightarrow> bool" where
  "plain_keys m \<longleftrightarrow> smap_wf m \<and> (\<forall>k \<in> set (map fst m). CHR ''='' \<notin> set k)"

lemma set_keys_mput: "set (map fst (mput m k v)) = insert k (set (map fst m))"
  using gm.keys_put [of m k v] by (simp add: mkeys_def)

lemma set_keys_mdel: "set (map fst (mdel m k)) = set (map fst m) - {k}"
  using gm.keys_del [of m k] by (simp add: mkeys_def)

lemma plain_keys_mput: "plain_keys m \<Longrightarrow> CHR ''='' \<notin> set k \<Longrightarrow> plain_keys (mput m k v)"
  unfolding plain_keys_def set_keys_mput by (simp add: gm.wf_put)

lemma plain_keys_mdel: "plain_keys m \<Longrightarrow> plain_keys (mdel m k)"
  unfolding plain_keys_def set_keys_mdel by (auto simp: gm.wf_del)

lemma set_trim_space: "set (trim_space s) \<subseteq> set s"
proof -
  have "set (trim_space s) \<subseteq> set (dropWhile is_space s)"
    unfolding trim_space_def using set_dropWhileD by fastforce
  then show ?thesis using set_dropWhileD by fastforce
qed

lemma parse_option_name: "parse_option opt = Some (k, v) \<Longrightarrow> k \<noteq> [] \<and> CHR ''='' \<notin> set k"
proof -
  assume a: "parse_option opt = Some (k, v)"
  then have k: "k = trim_space (hd (split_n2 CHR ''='' (trim_space opt)))" and "k \<noteq> []"
    by (auto simp: parse_option_def Let_def split: if_splits list.splits)
  have "CHR ''='' \<notin> set (hd (split_n2 CHR ''='' (trim_space opt)))"
    unfolding split_n2_hd by (auto dest: set_takeWhileD)
  with k \<open>k \<noteq> []\<close> set_trim_space show ?thesis by blast
qed

lemma classify_total:
  "plain_keys known \<Longrightarrow> plain_keys unknown \<Longrightarrow>
     \<exists>known' unknown'. classifyMountOptions opts (Some S) known unknown = Ret (known', unknown') \<and>
       plain_keys known' \<and> plain_keys unknown' \<and>
       set (map fst known') \<subseteq> set (map fst known) \<union> set (set_m S)"
proof (induction opts arbitrary: known unknown)
  case (Cons opt opts)
  show ?case
  proof (cases "parse_option opt")
    case None
    then show ?thesis using Cons by simp
  next
    case (Some kv)
    obtain k v where kv: "kv = (k, v)" by (cases kv)
    have k: "CHR ''='' \<notin> set k" using parse_option_name Some kv by blast
    show ?thesis
    proof (cases "Contains S k")
      case True
      have "plain_keys (mput known k v)" using Cons.prems(1) k by (rule plain_keys_mput)
      from Cons.IH [OF this Cons.prems(2)] obtain known' unknown' where
        "classifyMountOptions opts (Some S) (mput known k v) unknown = Ret (known', unknown')"
        "plain_keys known'" "plain_keys unknown'"
        "set (map fst known') \<subseteq> set (map fst (mput known k v)) \<union> set (set_m S)"
        by (elim exE conjE)
      moreover from this(4) have "set (map fst known') \<subseteq> set (map fst known) \<union> set (set_m S)"
        unfolding set_keys_mput using True by (auto simp: Contains_def)
      ultimately show ?thesis
        by (simp add: Some kv True)
    next
      case False
      have "plain_keys (mput unknown k v)" using Cons.prems(2) k by (rule plain_keys_mput)
      from Cons.IH [OF Cons.prems(1) this] False show ?thesis
        by (simp add: Some kv)
    qed
  qed
qed simp

lemma plain_override:
  assumes "plain_keys m0"
  shows "plain_keys (override_options secret gid readOnly m0)"
proof -
  have step: "plain_keys (if b then mput m k v else m)"
    "plain_keys (case c of Some v \<Rightarrow> mput m k v | None \<Rightarrow> m)"
    if "plain_keys m" "CHR ''='' \<notin> set k" for b m k v c
    using that by (auto split: option.split intro: plain_keys_mput)
  have start: "plain_keys (if b then mdel m0 k else m0)" for b k
    using assms by (simp add: plain_keys_mdel)
  show ?thesis
    unfolding override_options_def Let_def
    by (rule step(2) step(1) start | simp)+
qed

text \<open>One option of the slice as an entry of the worker's map.\<close>

definition option_entry :: "string \<Rightarrow> string \<times> string" where
  "option_entry o' =
     (case split_on CHR ''='' o' of k # v # _ \<Rightarrow> (k, v) | [k] \<Rightarrow> (k, ''true'') | [] \<Rightarrow> ([], []))"

lemma worker_option_entry: "worker_option m o' = (case option_entry o' of (k, v) \<Rightarrow> mput m k v)"
  using split_on_nonempty [of "CHR ''=''" o']
  by (auto simp: worker_option_def option_entry_def split: list.splits)

lemma foldl_worker_option:
  "foldl worker_option m os = foldl (\<lambda>m (k, v). mput m k v) m (map option_entry os)"
  by (induction os arbitrary: m) (simp_all add: worker_option_entry case_prod_beta)

lemma option_entry_pair:
  assumes "CHR ''='' \<notin> set k"
  shows "option_entry (k @ ''='' @ v) = (k, takeWhile (\<lambda>c. c \<noteq> CHR ''='') v)"
proof -
  obtain x xs where "split_on CHR ''='' v = x # xs"
    by (cases "split_on CHR ''='' v") auto
  with assms split_on_hd [of "CHR ''=''" v] show ?thesis
    by (simp add: option_entry_def split_on_append)
qed

lemma option_entry_flag: "CHR ''='' \<notin> set k \<Longrightarrow> option_entry k = (k, ''true'')"
  by (simp add: option_entry_def split_on_notin)

text \<open>
  An option \<open>k=v\<close> reaches the worker as the value of \<open>k\<close> up to the next equals sign: the rest
  of a value such as \<open>a=b\<close> is lost on this way, although the options for a mount on the node
  itself keep it.
\<close>

theorem worker_option_truncates:
  assumes "CHR ''='' \<notin> set k"
  shows "mget (worker_option m (k @ ''='' @ v)) k = takeWhile (\<lambda>c. c \<noteq> CHR ''='') v"
  unfolding worker_option_entry option_entry_pair [OF assms] by (simp add: smap_simps)

theorem worker_option_truncates_witness:
  "mget (worker_option [] (''mime'' @ ''='' @ ''a=b'')) ''mime'' = ''a''"
  using worker_option_truncates [of "''mime''" "[]" "''a=b''"] by simp

text \<open>The entries that the slice of options makes, and their independence of the order.\<close>

definition entry_value :: "string \<times> string \<Rightarrow> string" where
  "entry_value kv = (if fst kv \<noteq> snd kv then takeWhile (\<lambda>c. c \<noteq> CHR ''='') (snd kv) else ''true'')"

definition wanted_entries :: "iteration \<Rightarrow> smap \<Rightarrow> smap \<Rightarrow> smap" where
  "wanted_entries it m d =
     map (\<lambda>kv. (fst kv, entry_value kv)) (it RangeMountOpts m) @
     map (\<lambda>kv. (fst kv, takeWhile (\<lambda>c. c \<noteq> CHR ''='') (snd kv)))
       (filter (\<lambda>(key, value). value \<noteq> [] \<and> map_of m key = None) (it RangeDefaults d))"

lemma slice_entries:
  assumes "fair_iteration it" and "plain_keys m" and "plain_keys d"
  shows "map option_entry (buildMountOptionsSlice it m d) = wanted_entries it m d"
proof -
  have m: "CHR ''='' \<notin> set k" if "(k, v) \<in> set (it RangeMountOpts m)" for k v
    using assms(2) that fair_iteration_set [OF assms(1)] by (force simp: plain_keys_def)
  have d: "CHR ''='' \<notin> set k" if "(k, v) \<in> set (it RangeDefaults d)" for k v
    using assms(3) that fair_iteration_set [OF assms(1)] by (force simp: plain_keys_def)
  have "map option_entry (map (\<lambda>(key, val). if key \<noteq> val then key @ ''='' @ val else val) (it RangeMountOpts m))
      = map (\<lambda>kv. (fst kv, entry_value kv)) (it RangeMountOpts m)"
  proof (unfold map_map, rule map_cong [OF refl])
    fix kv assume kv: "kv \<in> set (it RangeMountOpts m)"
    obtain k v where "kv = (k, v)" by (cases kv)
    with kv m show "(option_entry \<circ> (\<lambda>(key, val). if key \<noteq> val then key @ ''='' @ val else val)) kv
        = (fst kv, entry_value kv)"
      using option_entry_pair [of k v] option_entry_flag [of k] by (auto simp: entry_value_def)
  qed
  moreover have "map option_entry (map (\<lambda>(key, value). key @ ''='' @ value)
       (filter (\<lambda>(key, value). value \<noteq> [] \<and> map_of m key = None) (it RangeDefaults d)))
      = map (\<lambda>kv. (fst kv, takeWhile (\<lambda>c. c \<noteq> CHR ''='') (snd kv)))
       (filter (\<lambda>(key, value). value \<noteq> [] \<and> map_of m key = None) (it RangeDefaults d))"
  proof (unfold map_map, rule map_cong [OF refl])
    fix kv assume "kv \<in> set (filter (\<lambda>(key, value). value \<noteq> [] \<and> map_of m key = None) (it RangeDefaults d))"
    then have kv: "kv \<in> set (it RangeDefaults d)" by simp
    obtain k v where "kv = (k, v)" by (cases kv)
    with kv d show "(option_entry \<circ> (\<lambda>(key, value). key @ ''='' @ value)) kv
        = (fst kv, takeWhile (\<lambda>c. c \<noteq> CHR ''='') (snd kv))"
      using option_entry_pair [of k v] by auto
  qed
  ultimately show ?thesis
    unfolding buildMountOptionsSlice_def wanted_entries_def map_append by (simp only:)
qed

lemma wanted_entries_keys:
  assumes "fair_iteration it" and "smap_wf m" and "smap_wf d"
  shows "distinct (map fst (wanted_entries it m d))"
proof -
  have a: "map fst (map (\<lambda>kv. (fst kv, entry_value kv)) (it RangeMountOpts m)) = map fst (it RangeMountOpts m)"
    by simp
  have b: "map fst (map (\<lambda>kv. (fst kv, f (snd kv))) (filter P xs)) = map fst (filter P xs)"
    for f P and xs :: smap by simp
  have "distinct (map fst (filter P (it RangeDefaults d)))" for P
    using fair_iteration_keys [OF assms(1,3)] by (rule distinct_map_filter)
  moreover have "fst kv \<notin> set (map fst (it RangeMountOpts m))" if "map_of m (fst kv) = None" for kv :: "string \<times> string"
    using that fair_iteration_set [OF assms(1)] by (auto simp: map_of_eq_None_iff)
  ultimately show ?thesis
    using fair_iteration_keys [OF assms(1,2)]
    unfolding wanted_entries_def map_append a b distinct_append by (auto; force)
qed

lemma wanted_entries_mset:
  assumes "fair_iteration it" and "fair_iteration it'"
  shows "mset (wanted_entries it m d) = mset (wanted_entries it' m d)"
  using assms by (simp add: wanted_entries_def fair_iteration_def)

lemma map_of_mset:
  assumes "mset xs = mset ys" and "distinct (map fst xs)"
  shows "map_of xs = map_of ys"
proof -
  have "mset (map fst xs) = mset (map fst ys)" using assms(1) by simp
  then have "distinct (map fst ys)" using assms(2) by (metis mset_eq_imp_distinct_iff)
  moreover have "set xs = set ys" using assms(1) by (metis set_mset_mset)
  ultimately show ?thesis using assms(2) map_of_inject_set by blast
qed

lemma worker_fold_lookup:
  assumes "fair_iteration it" and "fair_iteration it'" and "plain_keys m" and "plain_keys d"
  shows "map_of (foldl worker_option w (buildMountOptionsSlice it m d)) k
       = map_of (foldl worker_option w (buildMountOptionsSlice it' m d)) k"
proof -
  have wf: "smap_wf m" "smap_wf d" using assms(3,4) by (simp_all add: plain_keys_def)
  have "mset (rev (wanted_entries it m d)) = mset (rev (wanted_entries it' m d))"
    using wanted_entries_mset [OF assms(1,2)] by simp
  moreover have "distinct (map fst (rev (wanted_entries it m d)))"
    using wanted_entries_keys [OF assms(1) wf] by (simp add: rev_map [symmetric])
  ultimately have "map_of (rev (wanted_entries it m d)) = map_of (rev (wanted_entries it' m d))"
    by (rule map_of_mset)
  then show ?thesis
    unfolding foldl_worker_option slice_entries [OF assms(1,3,4)] slice_entries [OF assms(2,3,4)] gm.lookup_puts
    by simp
qed

lemma updateS3FSMountOptions_override:
  obtains k u where "plain_keys k" and "set (map fst k) \<subseteq> set (set_m S)"
    and "\<And>it. updateS3FSMountOptions it ops secretMap (Some S) d gid ro =
           Ret (buildMountOptionsSlice it (override_options secretMap gid ro k) d, buildAddMountParam it u)"
proof -
  have nil: "plain_keys []" by (simp add: plain_keys_def)
  obtain k1 u1 where 1: "classifyMountOptions ops (Some S) [] [] = Ret (k1, u1)" "plain_keys k1" "plain_keys u1"
      "set (map fst k1) \<subseteq> set (set_m S)"
    using classify_total [OF nil nil, of ops S] by auto
  obtain k2 u2 where 2: "(case map_of secretMap ''mountOptions'' of
              None \<Rightarrow> Ret (k1, u1)
            | Some stringData \<Rightarrow>
                classifyMountOptions (split_on (CHR 0x0A) stringData) (Some S) k1 u1) = Ret (k2, u2)" "plain_keys k2"
      "set (map fst k2) \<subseteq> set (set_m S)"
  proof (cases "map_of secretMap ''mountOptions''")
    case None
    show thesis by (rule that [of k1 u1]) (use None 1 in simp_all)
  next
    case (Some str)
    obtain k2 u2 where "classifyMountOptions (split_on (CHR 0x0A) str) (Some S) k1 u1 = Ret (k2, u2)"
        "plain_keys k2" "set (map fst k2) \<subseteq> set (map fst k1) \<union> set (set_m S)"
      using classify_total [OF 1(2,3)] by blast
    moreover from this(3) 1(4) have "set (map fst k2) \<subseteq> set (set_m S)" by blast
    ultimately show thesis by (intro that [of k2 u2]) (simp_all add: Some)
  qed
  show ?thesis
    by (rule that [OF 2(2,3)]) (simp add: updateS3FSMountOptions_def 1 2 Let_def)
qed

lemma updateS3FSMountOptions_total:
  obtains m u where "plain_keys m"
    and "\<And>it. updateS3FSMountOptions it ops secretMap (Some S) d gid ro =
           Ret (buildMountOptionsSlice it m d, buildAddMountParam it u)"
  by (rule updateS3FSMountOptions_override [where ops = ops and S = S and d = d and secretMap = secretMap
        and gid = gid and ro = ro]) (rule that [OF plain_override])

lemma worker_fold_wanted:
  assumes "fair_iteration it" and "plain_keys m" and "plain_keys d" and "map_of m k = Some v"
  shows "map_of (foldl worker_option w (buildMountOptionsSlice it m d)) k = Some (entry_value (k, v))"
proof -
  have wf: "smap_wf m" "smap_wf d" using assms(2,3) by (simp_all add: plain_keys_def)
  have "(k, entry_value (k, v)) \<in> set (wanted_entries it m d)"
    using map_of_SomeD [OF assms(4)] fair_iteration_set [OF assms(1), of RangeMountOpts m]
    unfolding wanted_entries_def set_append set_map by (intro UnI1 image_eqI [of _ _ "(k, v)"]) simp_all
  moreover have "distinct (map fst (rev (wanted_entries it m d)))"
    using wanted_entries_keys [OF assms(1) wf] by (simp add: rev_map [symmetric])
  ultimately have "map_of (rev (wanted_entries it m d)) k = Some (entry_value (k, v))"
    by (intro map_of_is_SomeI) simp_all
  then show ?thesis
    unfolding foldl_worker_option slice_entries [OF assms(1-3)] gm.lookup_puts by simp
qed

lemma s3fs_read_only:
  assumes it: "fair_iteration it" and known: "sp_KnownS3FSOptions params = Some S"
    and d: "plain_keys (deref (sp_DefaultParams params))" and ro: "sp_ReadOnly params"
  shows "\<exists>s3. NewS3fsMounter it params = Ret s3 \<and>
     (\<forall>b t p. map_of (snd (s3fs_formulateMountOptions s3 b t p)) ''ro'' = Some ''true'')"
proof -
  let ?d = "deref (sp_DefaultParams params)"
  obtain k u where k: "plain_keys k"
    and up: "\<And>it. updateS3FSMountOptions it (case sp_MountOptions params of None \<Rightarrow> [] | Some ops \<Rightarrow> ops)
      (deref (sp_SecretMap params)) (Some S) ?d (sp_Gid params) (sp_ReadOnly params) =
           Ret (buildMountOptionsSlice it (override_options (deref (sp_SecretMap params)) (sp_Gid params)
                  (sp_ReadOnly params) k) ?d, buildAddMountParam it u)"
    by (rule updateS3FSMountOptions_override
      [where ops = "case sp_MountOptions params of None \<Rightarrow> [] | Some ops \<Rightarrow> ops"
         and secretMap = "deref (sp_SecretMap params)" and S = S and d = ?d
         and gid = "sp_Gid params" and ro = "sp_ReadOnly params"]) (rule that)
  define m where "m = override_options (deref (sp_SecretMap params)) (sp_Gid params) (sp_ReadOnly params) k"
  have "map_of m ''ro'' = Some ''true''"
    using override_lookup(3) [OF m_def] ro by simp
  from worker_fold_wanted [OF it _ d this] plain_override [OF k]
  have "map_of (foldl worker_option w (buildMountOptionsSlice it m ?d)) ''ro'' = Some ''true''" for w
    by (simp add: m_def entry_value_def)
  then show ?thesis
    by (simp add: NewS3fsMounter_def known up m_def [symmetric] Let_def s3fs_formulateMountOptions_def
        put_if_lookup smap_simps)
qed

lemma formulate_lookup:
  assumes "s3_EndPoint s = s3_EndPoint s'" and "s3_LocConstraint s = s3_LocConstraint s'"
    and "s3_AuthType s = s3_AuthType s'" and "s3_IAMEndpoint s = s3_IAMEndpoint s'"
    and "\<And>w k. map_of (foldl worker_option w (s3_MountOptions s)) k = map_of (foldl worker_option w (s3_MountOptions s')) k"
    and "k \<noteq> ''add-mount-param''"
  shows "map_of (snd (s3fs_formulateMountOptions s b t p)) k = map_of (snd (s3fs_formulateMountOptions s' b t p)) k"
  using assms by (simp add: s3fs_formulateMountOptions_def Let_def put_if_lookup smap_simps)


text \<open>The names of the arguments for the worker.\<close>

lemma puts_keys:
  "set (map fst (foldl (\<lambda>m (k, v). mput m k v) m kvs)) = set (map fst m) \<union> set (map fst kvs)"
proof (induction kvs arbitrary: m)
  case (Cons kv kvs)
  then show ?case by (cases kv) (simp add: set_keys_mput [unfolded set_map])
qed simp

lemma slice_keys:
  assumes "fair_iteration it" and "plain_keys m" and "plain_keys d"
  shows "set (map fst (foldl worker_option w (buildMountOptionsSlice it m d)))
    \<subseteq> set (map fst w) \<union> set (map fst m) \<union> set (map fst d)"
  unfolding foldl_worker_option slice_entries [OF assms] puts_keys
  using fair_iteration_set [OF assms(1)] by (auto simp: wanted_entries_def image_iff)

lemma override_keys:
  "set (map fst (override_options secret gid ro m0))
    \<subseteq> set (map fst m0) \<union> {''gid'', ''uid'', ''ro'', CipherSuitesKey, ''tmpdir'', ''use_cache''}"
proof
  fix k
  assume "k \<in> set (map fst (override_options secret gid ro m0))"
  then have "map_of (override_options secret gid ro m0) k \<noteq> None"
    by (simp add: map_of_eq_None_iff)
  then show "k \<in> set (map fst m0) \<union> {''gid'', ''uid'', ''ro'', CipherSuitesKey, ''tmpdir'', ''use_cache''}"
    using override_lookup(7) [OF refl, of k secret gid ro m0]
    unfolding map_of_eq_None_iff [of m0, symmetric] Un_iff by (metis domIff dom_map_of_conv_image_fst set_map)
qed

lemma worker_wf: "smap_wf w \<Longrightarrow> smap_wf (foldl worker_option w os)"
  unfolding foldl_worker_option by (rule gm.wf_puts)

lemma formulate_wf: "smap_wf (snd (s3fs_formulateMountOptions s3 b t p))"
proof -
  have "smap_wf [(''sigv2'', ''true''), (''use_path_request_style'', ''true''),
                (''passwd_file'', p), (''url'', s3_EndPoint s3),
                (''allow_other'', ''true''), (''mp_umask'', ''002'')]"
    by (simp add: smap_wf_def)
  then show ?thesis
    by (simp add: s3fs_formulateMountOptions_def Let_def worker_wf gm.wf_put)
qed

lemma formulate_keys:
  assumes it: "fair_iteration it" and known: "sp_KnownS3FSOptions params = Some GetKnownS3FSOptions"
    and d: "plain_keys (deref (sp_DefaultParams params))" and s3: "NewS3fsMounter it params = Ret s3"
  shows "set (mkeys (snd (s3fs_formulateMountOptions s3 b t p)))
    \<subseteq> set (set_m GetKnownS3FSOptions) \<union> set (map fst (deref (sp_DefaultParams params))) \<union> {''add-mount-param''}"
proof -
  let ?d = "deref (sp_DefaultParams params)"
  obtain k u where k: "plain_keys k" "set (map fst k) \<subseteq> set (set_m GetKnownS3FSOptions)"
    and up: "\<And>it. updateS3FSMountOptions it (case sp_MountOptions params of None \<Rightarrow> [] | Some ops \<Rightarrow> ops)
      (deref (sp_SecretMap params)) (Some GetKnownS3FSOptions) ?d (sp_Gid params) (sp_ReadOnly params) =
           Ret (buildMountOptionsSlice it (override_options (deref (sp_SecretMap params)) (sp_Gid params)
                  (sp_ReadOnly params) k) ?d, buildAddMountParam it u)"
    by (rule updateS3FSMountOptions_override
      [where ops = "case sp_MountOptions params of None \<Rightarrow> [] | Some ops \<Rightarrow> ops"
         and secretMap = "deref (sp_SecretMap params)" and S = GetKnownS3FSOptions and d = ?d
         and gid = "sp_Gid params" and ro = "sp_ReadOnly params"]) (rule that)
  define m where "m = override_options (deref (sp_SecretMap params)) (sp_Gid params) (sp_ReadOnly params) k"
  have opts: "s3_MountOptions s3 = buildMountOptionsSlice it m ?d"
    using s3 by (auto simp: NewS3fsMounter_def known up m_def Let_def)
  have known_keys: "set (set_m GetKnownS3FSOptions) \<supseteq>
      {''gid'', ''uid'', ''ro'', CipherSuitesKey, ''tmpdir'', ''use_cache'', ''sigv2'', ''use_path_request_style'',
       ''passwd_file'', ''url'', ''allow_other'', ''mp_umask'', ''endpoint'', ''ibm_iam_auth'',
       ''ibm_iam_endpoint'', ''default_acl''}"
    by (simp add: GetKnownS3FSOptions_def set_m_NewSetWithValues CipherSuitesKey_def)
  have m: "plain_keys m" "set (map fst m) \<subseteq> set (set_m GetKnownS3FSOptions)"
    using override_keys [of "deref (sp_SecretMap params)" "sp_Gid params" "sp_ReadOnly params" k]
      plain_override [OF k(1)] k(2) known_keys unfolding m_def by blast+
  define K where "K = set (set_m GetKnownS3FSOptions) \<union> set (map fst ?d) \<union> {''add-mount-param''}"
  have fold: "set (mkeys (foldl worker_option w (s3_MountOptions s3))) \<subseteq> K" if "set (mkeys w) \<subseteq> K" for w
    using slice_keys [OF it m(1) d, of w] m(2) that unfolding opts K_def mkeys_def by blast
  have put: "set (mkeys (mput w k v)) \<subseteq> K" if "set (mkeys w) \<subseteq> K" "k \<in> K" for w k v
    using that by (simp add: gm.keys_put)
  have start: "set (mkeys [(''sigv2'', ''true''), (''use_path_request_style'', ''true''),
                (''passwd_file'', p), (''url'', s3_EndPoint s3),
                (''allow_other'', ''true''), (''mp_umask'', ''002'')]) \<subseteq> K"
    and names: "''endpoint'' \<in> K" "''ibm_iam_auth'' \<in> K" "''ibm_iam_endpoint'' \<in> K" "''default_acl'' \<in> K"
      "''add-mount-param'' \<in> K"
    using known_keys by (simp_all add: K_def mkeys_def)
  have "set (mkeys (snd (s3fs_formulateMountOptions s3 b t p))) \<subseteq> K"
    unfolding s3fs_formulateMountOptions_def Let_def
    by (simp add: put fold start names)
  then show ?thesis by (simp add: K_def)
qed

definition sample_params :: S3fsMounterParams where
  "sample_params = \<lparr> sp_SecretMap = Some [(''apiKey'', ''k''), (''mountOptions'', ''dbglevel=info'')],
     sp_MountOptions = Some [''retries=5''], sp_MounterUtils = MounterOptsUtils env_ok,
     sp_KnownS3FSOptions = Some GetKnownS3FSOptions,
     sp_DefaultParams = Some [(''cipher_suites'', ''AESGCM'')], sp_Gid = ''2000'', sp_ReadOnly = True \<rparr>"



subsection \<open>Mount and Unmount\<close>

lemma removal_loop_yields:
  "yields (removeS3FSCredFile_loop env p n)
     (\<lambda>_ es. removal_of p n es \<and> (\<forall>e \<in> set es. is_fs e \<or> is_sleep e))"
proof (induction n)
  case 0
  then show ?case by (auto simp: removal_of_def intro!: yields_return)
next
  case (Suc n)
  have more: "removal_of p n es \<Longrightarrow> removal_of p (Suc n) es" for es
    by (auto simp: removal_of_def)
  show ?case
    unfolding removeS3FSCredFile_loop.simps os_Stat_def os_RemoveAll_def time_Sleep_def
    by (rule yields_bind [OF yields_reply])
       (auto simp: removal_of_def split: outcome.split intro!: yields_return yields_bind [OF yields_reply]
          yields_bind [OF yields_tell [where Q = "\<lambda>_ es. es = [Proc (EvSleep Interval)]"]]
          yields_mono [OF Suc.IH]; blast)
qed

lemma s3fs_credentials_yields:
  "yields (s3fs_credentials env dir file keys)
     (\<lambda>r es. (\<forall>e \<in> set es. is_fs e \<and> removes e = None) \<and> (\<forall>p. r \<noteq> Panic p) \<and>
        (r = Ret () \<longrightarrow> Fs (EvWriteString file keys (Inr ())) \<in> set es))"
  unfolding s3fs_credentials_def MkdirAll_def
  by (rule yields_attempt_fail [OF checkPath_yields])
     (auto split: option.split intro!: yields_fail yields_ret yields_attempt [OF yields_reply]
        yields_attempt [OF writePass_yields])

lemma s3fs_Mount_yields:
  "yields (s3fs_Mount env True s3 source target)
     (let file = path_join [cred_dir MounterConfigPathOnHost target, passFile] in
      mount_post
        (mount_payload target (s3fs_bucket s3) S3FS
           (snd (s3fs_formulateMountOptions s3 (s3fs_bucket s3) target file)))
        file (s3_AccessKeys s3))"
  unfolding s3fs_Mount_def Let_def if_True
  by (rule yields_attempt_fail [OF s3fs_credentials_yields])
     (auto simp: case_prod_beta intro: mount_post_early mount_post_request)

lemma s3fs_Unmount_yields: "yields (s3fs_Unmount env True s3 target) (unmount_post target)"
  unfolding s3fs_Unmount_def if_True removeS3FSCredFile_def
  by (rule unmount_post_yields [OF removal_loop_yields])

lemma plain_passFile: "plain_elem passFile"
  by (simp add: passFile_def plain_elem_def)

definition s3fs_file :: "string \<Rightarrow> string" where
  "s3fs_file target = path_join [cred_dir MounterConfigPathOnHost target, passFile]"

definition s3fs_payload :: "S3fsMounter \<Rightarrow> string \<Rightarrow> string" where
  "s3fs_payload s3 target =
     mount_payload target (s3fs_bucket s3) S3FS
       (snd (s3fs_formulateMountOptions s3 (s3fs_bucket s3) target (s3fs_file target)))"

interpretation s3fs: mounter "S3fs_Mounter env s3" "s3fs_payload s3" s3fs_file "s3_AccessKeys s3" for env s3
proof unfold_locales
  fix source target
  show "yields (m_Mount (S3fs_Mounter env s3) source target)
     (mount_post (s3fs_payload s3 target) (s3fs_file target) (s3_AccessKeys s3))"
    using s3fs_Mount_yields [of env s3 source target]
    by (simp add: S3fs_Mounter_def mountWorker_def s3fs_payload_def s3fs_file_def Let_def)
  show "yields (m_Unmount (S3fs_Mounter env s3) target) (unmount_post target)"
    by (simp add: S3fs_Mounter_def mountWorker_def s3fs_Unmount_yields)
  show "\<exists>f. plain_elem f \<and> s3fs_file target = MounterConfigPathOnHost @ ''/'' @ sha256_hex target @ ''/'' @ f"
    using plain_passFile unfolding s3fs_file_def host_cred_file [OF plain_passFile] by blast
qed

text \<open>
  C21. On the worker, \<open>Mount\<close> of the s3fs mounter succeeds exactly when the mounter service answered
  200 to the payload for this target, bucket and set of options, and then the credentials are in
  the password file of the target, below \<open>/var/lib/coscsi-config\<close>. It never panics, removes
  nothing, and sends at most this one request.
\<close>

theorem s3fs_Mount_worker:
  "yields (s3fs_Mount env True s3 source target)
     (\<lambda>r es. list_all (\<lambda>e. removes e = None) es \<and>
        (case r of
           Ret _ \<Rightarrow> list_ex (posts mount_url (s3fs_payload s3 target)) es \<and>
             Fs (EvWriteString (MounterConfigPathOnHost @ ''/'' @ sha256_hex target @ ''/'' @ passFile)
                   (s3_AccessKeys s3) (Inr ())) \<in> set es
         | Fail _ \<Rightarrow> \<not> list_ex accepted es
         | Panic _ \<Rightarrow> False))"
proof -
  have "yields (s3fs_Mount env True s3 source target)
     (mount_post (s3fs_payload s3 target) (s3fs_file target) (s3_AccessKeys s3))"
    using s3fs.mount [of env s3 source target] by (simp add: S3fs_Mounter_def mountWorker_def)
  then show ?thesis
    by (rule yields_mono)
       (auto simp: mount_post_def s3fs_file_def host_cred_file [OF plain_passFile] list_all_iff split: outcome.splits)
qed

text \<open>
  C22. On the worker, \<open>Unmount\<close> of the s3fs mounter succeeds exactly when the service answered 200;
  only then are the credentials removed, the directory of this target and nothing else, in at most
  three attempts; a failure to remove them is not reported.
\<close>

theorem s3fs_Unmount_worker:
  "yields (s3fs_Unmount env True s3 target)
     (\<lambda>r es. removal_of (MounterConfigPathOnHost @ ''/'' @ sha256_hex target) 3 es \<and>
        (case r of
           Ret _ \<Rightarrow> list_ex (posts unmount_url (unmount_payload target)) es
         | Fail _ \<Rightarrow> \<not> list_ex accepted es \<and>
                    list_all (\<lambda>e. removes e = None) es
         | Panic _ \<Rightarrow> False))"
proof -
  have "yields (s3fs_Unmount env True s3 target) (unmount_post target)"
    using s3fs.unmount [of env s3 target] by (simp add: S3fs_Mounter_def mountWorker_def)
  then show ?thesis
    by (rule yields_mono) (auto simp: unmount_post_def host_cred_dir maxRetries_def split: outcome.splits)
qed

end
