(* ===== verification/RcloneMounter.thy ===== *)
theory RcloneMounter
  imports MounterRequest
begin

section \<open>The rclone mounter: pkg/mounter/mounter-rclone.go\<close>

text \<open>
  \<open>RcloneMounter\<close> is the struct, \<open>rclone_Mount\<close> and \<open>rclone_Unmount\<close> are its methods.
  The configuration file is written through a buffer and flushed once; the model has one write of
  the whole text where the buffer, of 4096 bytes, makes several for a longer text.
\<close>

record RcloneMounter =
  rc_BucketName :: string
  rc_ObjectPath :: string
  rc_EndPoint :: string
  rc_LocConstraint :: string
  rc_AuthType :: string
  rc_AccessKeys :: string
  rc_serviceInstanceID :: string
  rc_KpRootKeyCrn :: string
  rc_IAMEndpoint :: string
  rc_UID :: string
  rc_GID :: string
  rc_ReadOnly :: bool
  rc_MountOptions :: "string list"
  rc_MounterUtils :: MounterUtils

record RcloneMounterParams =
  rp_SecretMap :: nmap
  rp_MountOptions :: "string list option"
  rp_MounterUtils :: MounterUtils
  rp_Gid :: string
  rp_ReadOnly :: bool

definition configFileName :: string where
  "configFileName = ''rclone.conf''"

definition remote :: string where
  "remote = ''ibmcos''"

definition s3Type :: string where
  "s3Type = ''s3''"

definition cosProvider :: string where
  "cosProvider = ''IBMCOS''"


subsection \<open>The constructor\<close>

text \<open>The two loops that fill the map: the first takes its names as they are.\<close>

definition default_option :: "smap \<Rightarrow> string \<Rightarrow> smap" where
  "default_option m e = (case split_on CHR ''='' e of [k, v] \<Rightarrow> mput m k v | _ \<Rightarrow> m)"

definition secret_option :: "smap \<Rightarrow> string \<Rightarrow> smap" where
  "secret_option m line =
     (if trim_space line = [] then m
      else (case split_on CHR ''='' line of [k, v] \<Rightarrow> mput m (trim_space k) (trim_space v) | _ \<Rightarrow> m))"

definition updateMountOptions :: "iteration \<Rightarrow> string list \<Rightarrow> smap \<Rightarrow> string list" where
  "updateMountOptions it dafaultMountOptions secretMap =
     (let m0 = foldl default_option [] dafaultMountOptions
      in case map_of secretMap ''mountOptions'' of
           None \<Rightarrow> dafaultMountOptions
         | Some stringData \<Rightarrow>
             (let m = foldl secret_option m0 (split_on (CHR 0x0A) stringData)
              in map (\<lambda>(k, v). k @ ''='' @ v) (it RangeRcloneOpts m)))"

definition NewRcloneMounter :: "iteration \<Rightarrow> RcloneMounterParams \<Rightarrow> RcloneMounter" where
  "NewRcloneMounter it params =
     (let secretMap = deref (rp_SecretMap params);
          mountOptions = (case rp_MountOptions params of None \<Rightarrow> [] | Some ops \<Rightarrow> ops);
          apiKey = mget secretMap ''apiKey'';
          gid = (if rp_Gid params \<noteq> [] then rp_Gid params else mget secretMap ''gid'');
          uid = (if gid \<noteq> [] \<and> mget secretMap ''uid'' = [] then gid else mget secretMap ''uid'')
      in \<lparr> rc_BucketName = mget secretMap ''bucketName'',
           rc_ObjectPath = mget secretMap ''objectPath'',
           rc_EndPoint = mget secretMap ''cosEndpoint'',
           rc_LocConstraint = mget secretMap ''locationConstraint'',
           rc_AuthType = (if apiKey \<noteq> [] then ''iam'' else ''hmac''),
           rc_AccessKeys =
             (if apiKey \<noteq> [] then apiKey
              else mget secretMap ''accessKey'' @ '':'' @ mget secretMap ''secretKey''),
           rc_serviceInstanceID = (if apiKey \<noteq> [] then mget secretMap ''serviceId'' else []),
           rc_KpRootKeyCrn = mget secretMap ''kpRootKeyCRN'',
           rc_IAMEndpoint = mget secretMap ''iamEndpoint'',
           rc_UID = uid, rc_GID = gid, rc_ReadOnly = rp_ReadOnly params,
           rc_MountOptions = updateMountOptions it mountOptions secretMap,
           rc_MounterUtils = rp_MounterUtils params \<rparr>)"


subsection \<open>The configuration file\<close>

text \<open>
  The lines of the file; the two elements of the split keys are read by index, which panics when
  there is no second one.
\<close>

definition config_lines :: "RcloneMounter \<Rightarrow> string list outcome" where
  "config_lines rclone =
     (let head = [''['' @ remote @ '']'', ''type = '' @ s3Type,
                  ''endpoint = '' @ rc_EndPoint rclone, ''provider = '' @ cosProvider];
          tail =
            (if rc_IAMEndpoint rclone \<noteq> [] then [''ibm_iam_endpoint = '' @ rc_IAMEndpoint rclone] else []) @
            (if rc_LocConstraint rclone \<noteq> [] then [''location_constraint = '' @ rc_LocConstraint rclone] else []) @
            rc_MountOptions rclone
      in if rc_AuthType rclone = ''hmac''
         then
           (case split_on CHR '':'' (rc_AccessKeys rclone) of
              accessKey # secretKey # _ \<Rightarrow>
                Ret (head @ [''access_key_id = '' @ accessKey, ''secret_access_key = '' @ secretKey,
                             ''env_auth = true'', ''v2_auth = false''] @ tail)
            | _ \<Rightarrow> Panic ''index out of range'')
         else
           Ret (head @ [''ibm_api_key = '' @ rc_AccessKeys rclone,
                        ''ibm_resource_instance_id = '' @ rc_serviceInstanceID rclone,
                        ''env_auth = false'', ''v2_auth = true''] @ tail))"

definition config_text :: "string list \<Rightarrow> string" where
  "config_text ls = concat (map (\<lambda>line. line @ [CHR 0x0A]) ls)"

text \<open>The file is closed on every path after its creation; an error of the close is only logged.\<close>

definition closing :: "env \<Rightarrow> string \<Rightarrow> unit outcome run \<Rightarrow> unit outcome run" where
  "closing env f m =
     do { r \<leftarrow> m; _ \<leftarrow> file_Close env f; State_Monad.return r }"

definition createConfig :: "env \<Rightarrow> string \<Rightarrow> RcloneMounter \<Rightarrow> unit outcome run" where
  "createConfig env configPathWithVolID rclone =
     (case config_lines rclone of
        Panic p \<Rightarrow> panic p
      | Fail e \<Rightarrow> fail e
      | Ret configParams \<Rightarrow>
          attempt (MkdirAll env configPathWithVolID) fail
            (\<lambda>_. let configFile = path_join [configPathWithVolID, configFileName]
                 in attempt (os_Create env configFile) fail
                      (\<lambda>_. closing env configFile
                         (attempt (os_Chmod env configFile) fail
                            (\<lambda>_. attempt (file_WriteString env configFile (config_text configParams)) fail ret)))))"


subsection \<open>Arguments, Mount and Unmount\<close>

definition rclone_formulateMountOptions ::
    "RcloneMounter \<Rightarrow> string \<Rightarrow> string \<Rightarrow> string \<Rightarrow> string list \<times> smap" where
  "rclone_formulateMountOptions rclone bucket target configPathWithVolID =
     (let conf = configPathWithVolID @ ''/'' @ configFileName;
          n0 = [''mount'', bucket, target, ''--allow-other'', ''--daemon'', ''--config='' @ conf,
                ''--log-file=/var/log/rclone.log'', ''--vfs-cache-mode=writes''];
          w0 = [(''allow-other'', ''true''), (''daemon'', ''true''), (''config'', conf),
                (''log-file'', ''/var/log/rclone.log''), (''vfs-cache-mode'', ''writes'')];
          n1 = (if rc_GID rclone \<noteq> [] then n0 @ [''--gid='' @ rc_GID rclone] else n0);
          w1 = (if rc_GID rclone \<noteq> [] then mput w0 ''gid'' (rc_GID rclone) else w0);
          n2 = (if rc_UID rclone \<noteq> [] then n1 @ [''--uid='' @ rc_UID rclone] else n1);
          w2 = (if rc_UID rclone \<noteq> [] then mput w1 ''uid'' (rc_UID rclone) else w1);
          n3 = (if rc_ReadOnly rclone then n2 @ [''--read-only''] else n2);
          w3 = (if rc_ReadOnly rclone then mput w2 ''read-only'' ''true'' else w2)
      in (n3, w3))"

fun removeRcloneConfigFile_loop :: "env \<Rightarrow> string \<Rightarrow> nat \<Rightarrow> unit run" where
  "removeRcloneConfigFile_loop env p 0 = State_Monad.return ()"
| "removeRcloneConfigFile_loop env p (Suc n) =
     do {
       st \<leftarrow> os_Stat env p;
       (case st of
          Ret _ \<Rightarrow>
            do {
              rm \<leftarrow> os_RemoveAll env p;
              (case rm of
                 Ret _ \<Rightarrow> State_Monad.return ()
               | _ \<Rightarrow> do { _ \<leftarrow> time_Sleep Interval; removeRcloneConfigFile_loop env p n })
            }
        | Fail err \<Rightarrow>
            (if IsNotExist err then State_Monad.return ()
             else do { _ \<leftarrow> time_Sleep Interval; removeRcloneConfigFile_loop env p n })
        | Panic _ \<Rightarrow> State_Monad.return ())
     }"

definition removeRcloneConfigFile :: "env \<Rightarrow> string \<Rightarrow> string \<Rightarrow> unit run" where
  "removeRcloneConfigFile env configPath target =
     removeRcloneConfigFile_loop env (cred_dir configPath target) maxRetries"

definition rclone_bucket :: "RcloneMounter \<Rightarrow> string" where
  "rclone_bucket rclone =
     (if rc_ObjectPath rclone \<noteq> []
      then remote @ '':'' @ rc_BucketName rclone @ ''/'' @ trim_prefix (rc_ObjectPath rclone) ''/''
      else remote @ '':'' @ rc_BucketName rclone)"

definition rclone_Mount :: "env \<Rightarrow> bool \<Rightarrow> RcloneMounter \<Rightarrow> string \<Rightarrow> string \<Rightarrow> unit outcome run" where
  "rclone_Mount env worker rclone source target =
     (let configPathWithVolID = cred_dir (if worker then MounterConfigPathOnHost else MounterConfigPathOnPodRclone) target;
          bucketName = rclone_bucket rclone
      in attempt (createConfig env configPathWithVolID rclone) fail
           (\<lambda>_. let (args, wnOp) = rclone_formulateMountOptions rclone bucketName target configPathWithVolID
                in if worker
                   then attempt (createCOSCSIMounterRequest env (mount_payload target bucketName RClone wnOp) mount_url)
                          fail ret
                   else mu_FuseMount (rc_MounterUtils rclone) target RClone args))"

definition rclone_Unmount :: "env \<Rightarrow> bool \<Rightarrow> RcloneMounter \<Rightarrow> string \<Rightarrow> unit outcome run" where
  "rclone_Unmount env worker rclone target =
     (if worker then
        attempt (createCOSCSIMounterRequest env (unmount_payload target) unmount_url) fail
          (\<lambda>_. State_Monad.bind (removeRcloneConfigFile env MounterConfigPathOnHost target) (\<lambda>_. ret ()))
      else
        attempt (mu_FuseUnmount (rc_MounterUtils rclone) target) fail
          (\<lambda>_. State_Monad.bind (removeRcloneConfigFile env MounterConfigPathOnPodRclone target) (\<lambda>_. ret ())))"

definition Rclone_Mounter :: "env \<Rightarrow> RcloneMounter \<Rightarrow> Mounter" where
  "Rclone_Mounter env rclone =
     \<lparr> m_Mount = rclone_Mount env mountWorker rclone, m_Unmount = rclone_Unmount env mountWorker rclone \<rparr>"


subsection \<open>Properties\<close>

lemma rclone_removal_loop_yields:
  "yields (removeRcloneConfigFile_loop env p n)
     (\<lambda>_ es. removal_of p n es \<and> (\<forall>e \<in> set es. is_fs e \<or> is_sleep e))"
proof (induction n)
  case 0
  then show ?case by (auto simp: removal_of_def intro!: yields_return)
next
  case (Suc n)
  show ?case
    unfolding removeRcloneConfigFile_loop.simps os_Stat_def os_RemoveAll_def time_Sleep_def
    by (rule yields_bind [OF yields_reply])
       (auto simp: removal_of_def split: outcome.split intro!: yields_return yields_bind [OF yields_reply]
          yields_bind [OF yields_tell [where Q = "\<lambda>_ es. es = [Proc (EvSleep Interval)]"]]
          yields_mono [OF Suc.IH]; blast)
qed

text \<open>
  A mounter that the constructor made always has a configuration: with an API key it is that
  key and the service instance, otherwise the access key and the secret key up to its first colon;
  no index is out of range.
\<close>

theorem rclone_config_total:
  assumes "CHR '':'' \<notin> set (mget (deref (rp_SecretMap params)) ''accessKey'')"
  shows "\<exists>ls. config_lines (NewRcloneMounter it params) = Ret ls \<and>
     (let secret = deref (rp_SecretMap params) in
      if mget secret ''apiKey'' \<noteq> []
      then ''ibm_api_key = '' @ mget secret ''apiKey'' \<in> set ls \<and>
           ''ibm_resource_instance_id = '' @ mget secret ''serviceId'' \<in> set ls
      else ''access_key_id = '' @ mget secret ''accessKey'' \<in> set ls \<and>
           ''secret_access_key = '' @ takeWhile (\<lambda>c. c \<noteq> CHR '':'') (mget secret ''secretKey'') \<in> set ls)"
proof (cases "mget (deref (rp_SecretMap params)) ''apiKey'' = []")
  case True
  obtain x xs where x: "split_on CHR '':'' (mget (deref (rp_SecretMap params)) ''secretKey'') = x # xs"
    by (cases "split_on CHR '':'' (mget (deref (rp_SecretMap params)) ''secretKey'')") auto
  then have "x = takeWhile (\<lambda>c. c \<noteq> CHR '':'') (mget (deref (rp_SecretMap params)) ''secretKey'')"
    using split_on_hd by (metis list.sel(1))
  with True x show ?thesis
    by (simp add: config_lines_def NewRcloneMounter_def Let_def split_on_append [OF assms])
next
  case False
  then show ?thesis
    by (simp add: config_lines_def NewRcloneMounter_def Let_def)
qed

definition sample_rclone_params :: RcloneMounterParams where
  "sample_rclone_params = \<lparr> rp_SecretMap = Some [(''accessKey'', ''ak''), (''secretKey'', ''s:k''),
       (''mountOptions'', ''vfs-cache-mode=full'')],
     rp_MountOptions = Some [''retries=5''], rp_MounterUtils = MounterOptsUtils env_ok,
     rp_Gid = ''2000'', rp_ReadOnly = True \<rparr>"

theorem rclone_config_total_witness:
  "\<exists>ls. config_lines (NewRcloneMounter (\<lambda>_ m. m) sample_rclone_params) = Ret ls \<and>
     (let secret = deref (rp_SecretMap sample_rclone_params) in
      if mget secret ''apiKey'' \<noteq> []
      then ''ibm_api_key = '' @ mget secret ''apiKey'' \<in> set ls \<and>
           ''ibm_resource_instance_id = '' @ mget secret ''serviceId'' \<in> set ls
      else ''access_key_id = '' @ mget secret ''accessKey'' \<in> set ls \<and>
           ''secret_access_key = '' @ takeWhile (\<lambda>c. c \<noteq> CHR '':'') (mget secret ''secretKey'') \<in> set ls)"
  by (rule rclone_config_total) (simp add: sample_rclone_params_def mget_def)


subsection \<open>Mount and Unmount\<close>

lemma closing_yields:
  assumes "yields m (\<lambda>r es. (\<forall>e \<in> set es. is_fs e \<and> removes e = None) \<and> Q r es)"
    and "\<And>r es x. Q r es \<Longrightarrow> Q r (es @ [Fs (EvClose f x)])"
  shows "yields (closing env f m) (\<lambda>r es. (\<forall>e \<in> set es. is_fs e \<and> removes e = None) \<and> Q r es)"
  unfolding closing_def file_Close_def
  by (rule yields_bind [OF assms(1)])
     (auto intro!: yields_bind [OF yields_reply] yields_return assms(2))

lemma config_lines_no_fail: "config_lines r \<noteq> Fail e"
  by (auto simp: config_lines_def Let_def split: list.splits)

lemma split_on_two: "\<exists>x y zs. split_on c (a @ c # b) = x # y # zs"
proof (induction a)
  case Nil
  then show ?case by (cases "split_on c b") auto
next
  case (Cons d a)
  then show ?case by auto
qed

lemma config_lines_constructor: "\<exists>ls. config_lines (NewRcloneMounter it params) = Ret ls"
proof -
  obtain x y zs where "split_on CHR '':'' (mget (deref (rp_SecretMap params)) ''accessKey'' @
      CHR '':'' # mget (deref (rp_SecretMap params)) ''secretKey'') = x # y # zs"
    using split_on_two by blast
  then show ?thesis
    by (simp add: config_lines_def NewRcloneMounter_def Let_def)
qed

definition rclone_file :: "string \<Rightarrow> string" where
  "rclone_file target = path_join [cred_dir MounterConfigPathOnHost target, configFileName]"

definition rclone_content :: "RcloneMounter \<Rightarrow> string" where
  "rclone_content rclone = (case config_lines rclone of Ret ls \<Rightarrow> config_text ls | _ \<Rightarrow> [])"

definition rclone_payload :: "RcloneMounter \<Rightarrow> string \<Rightarrow> string" where
  "rclone_payload rclone target =
     mount_payload target (rclone_bucket rclone) RClone
       (snd (rclone_formulateMountOptions rclone (rclone_bucket rclone) target
          (cred_dir MounterConfigPathOnHost target)))"

lemma createConfig_yields:
  assumes "config_lines rclone = Ret ls"
  shows "yields (createConfig env dir rclone)
     (\<lambda>r es. (\<forall>e \<in> set es. is_fs e \<and> removes e = None) \<and> (\<forall>p. r \<noteq> Panic p) \<and>
        (r = Ret () \<longrightarrow>
           Fs (EvWriteString (path_join [dir, configFileName]) (config_text ls) (Inr ())) \<in> set es))"
proof -
  let ?f = "path_join [dir, configFileName]"
  have text_written: "yields (closing env ?f
         (attempt (os_Chmod env ?f) fail
            (\<lambda>_. attempt (file_WriteString env ?f (config_text ls)) fail ret)))
     (\<lambda>r es. (\<forall>e \<in> set es. is_fs e \<and> removes e = None) \<and> ((\<forall>p. r \<noteq> Panic p) \<and>
        (r = Ret () \<longrightarrow> Fs (EvWriteString ?f (config_text ls) (Inr ())) \<in> set es)))"
    unfolding os_Chmod_def file_WriteString_def
    by (rule closing_yields)
       (auto intro!: yields_attempt_fail [OF yields_reply] yields_ret)
  show ?thesis
    unfolding createConfig_def assms MkdirAll_def os_Create_def Let_def outcome.case
    by (rule yields_attempt_fail [OF yields_reply])
       (auto intro!: yields_attempt_fail [OF yields_reply] yields_mono [OF text_written])
qed

lemma rclone_Mount_yields:
  assumes "config_lines rclone = Ret ls"
  shows "yields (rclone_Mount env True rclone source target)
     (mount_post (rclone_payload rclone target) (rclone_file target) (rclone_content rclone))"
  unfolding rclone_Mount_def Let_def if_True rclone_payload_def rclone_file_def
  by (rule yields_attempt_fail [OF createConfig_yields [OF assms]])
     (auto simp: case_prod_beta rclone_content_def assms intro: mount_post_early mount_post_request)

lemma rclone_Unmount_yields: "yields (rclone_Unmount env True rclone target) (unmount_post target)"
  unfolding rclone_Unmount_def if_True removeRcloneConfigFile_def
  by (rule unmount_post_yields [OF rclone_removal_loop_yields])

lemma plain_configFileName: "plain_elem configFileName"
  by (simp add: configFileName_def plain_elem_def)

interpretation rclone: mounter "Rclone_Mounter env (NewRcloneMounter it params)"
    "rclone_payload (NewRcloneMounter it params)" rclone_file "rclone_content (NewRcloneMounter it params)"
  for env it params
proof unfold_locales
  fix source target
  obtain ls where "config_lines (NewRcloneMounter it params) = Ret ls"
    using config_lines_constructor by blast
  then show "yields (m_Mount (Rclone_Mounter env (NewRcloneMounter it params)) source target)
     (mount_post (rclone_payload (NewRcloneMounter it params) target) (rclone_file target)
        (rclone_content (NewRcloneMounter it params)))"
    by (simp add: Rclone_Mounter_def mountWorker_def rclone_Mount_yields)
  show "yields (m_Unmount (Rclone_Mounter env (NewRcloneMounter it params)) target) (unmount_post target)"
    by (simp add: Rclone_Mounter_def mountWorker_def rclone_Unmount_yields)
  show "\<exists>f. plain_elem f \<and> rclone_file target = MounterConfigPathOnHost @ ''/'' @ sha256_hex target @ ''/'' @ f"
    using plain_configFileName unfolding rclone_file_def host_cred_file [OF plain_configFileName] by blast
qed

text \<open>
  C23. On the worker, \<open>Mount\<close> of an rclone mounter that the constructor made succeeds exactly when
  the mounter service answered 200 to the payload for this target, bucket and options, and then the
  configuration is in the file of the target below \<open>/var/lib/coscsi-config\<close>. It never panics.
\<close>

theorem rclone_Mount_worker:
  "yields (rclone_Mount env True (NewRcloneMounter it params) source target)
     (\<lambda>r es. list_all (\<lambda>e. removes e = None) es \<and>
        (case r of
           Ret _ \<Rightarrow> list_ex (posts mount_url (rclone_payload (NewRcloneMounter it params) target)) es \<and>
             Fs (EvWriteString (MounterConfigPathOnHost @ ''/'' @ sha256_hex target @ ''/'' @ configFileName)
                   (rclone_content (NewRcloneMounter it params)) (Inr ())) \<in> set es
         | Fail _ \<Rightarrow> \<not> list_ex accepted es
         | Panic _ \<Rightarrow> False))"
proof -
  have "yields (rclone_Mount env True (NewRcloneMounter it params) source target)
     (mount_post (rclone_payload (NewRcloneMounter it params) target) (rclone_file target)
        (rclone_content (NewRcloneMounter it params)))"
    using rclone.mount [of env it params source target] by (simp add: Rclone_Mounter_def mountWorker_def)
  then show ?thesis
    by (rule yields_mono)
       (auto simp: mount_post_def rclone_file_def host_cred_file [OF plain_configFileName] list_all_iff
          split: outcome.splits)
qed

end
