(* ===== verification/MounterFactory.thy ===== *)
theory MounterFactory
  imports S3fsMounter RcloneMounter
begin

section \<open>The mounter factory: pkg/mounter/mounter.go\<close>

text \<open>
  \<open>NewMounter\<close> chooses the mounter of a volume. The node server holds it as an interface; the
  locale \<open>mounter_factory\<close> is the contract: which parameters always give a mounter, and that
  every mounter given keeps the contract \<open>mounter\<close>.
\<close>

definition factory_secrets :: "MounterParams \<Rightarrow> smap" where
  "factory_secrets params = (case mp_SecretMap params of None \<Rightarrow> [] | Some m \<Rightarrow> m)"

definition factory_flags :: "MounterParams \<Rightarrow> string list" where
  "factory_flags params = (case mp_MountFlags params of None \<Rightarrow> [] | Some flags \<Rightarrow> flags)"

text \<open>The name of the storage class, else of the secret, else none.\<close>

definition selected_mounter :: "MounterParams \<Rightarrow> string" where
  "selected_mounter params =
     (case map_of (deref (mp_Attrib params)) ''mounter'' of
        Some val \<Rightarrow> val
      | None \<Rightarrow> (case map_of (factory_secrets params) ''mounter'' of Some val \<Rightarrow> val | None \<Rightarrow> []))"

definition s3fs_params :: "env \<Rightarrow> MounterParams \<Rightarrow> S3fsMounterParams" where
  "s3fs_params env params =
     \<lparr> sp_SecretMap = Some (factory_secrets params),
       sp_MountOptions = Some (factory_flags params),
       sp_MounterUtils = MounterOptsUtils env,
       sp_KnownS3FSOptions = mp_KnownS3FSOptions params,
       sp_DefaultParams = mp_DefaultMOMap params,
       sp_Gid = mp_Gid params,
       sp_ReadOnly = mp_ReadOnly params \<rparr>"

definition rclone_params :: "env \<Rightarrow> MounterParams \<Rightarrow> RcloneMounterParams" where
  "rclone_params env params =
     \<lparr> rp_SecretMap = Some (factory_secrets params),
       rp_MountOptions = Some (factory_flags params),
       rp_MounterUtils = MounterOptsUtils env,
       rp_Gid = mp_Gid params,
       rp_ReadOnly = mp_ReadOnly params \<rparr>"

definition NewMounter :: "env \<Rightarrow> iteration \<Rightarrow> MounterParams \<Rightarrow> Mounter outcome" where
  "NewMounter env it params =
     (let mounter = selected_mounter params;
          s3fs = (case NewS3fsMounter it (s3fs_params env params) of
                    Ret s3 \<Rightarrow> Ret (S3fs_Mounter env s3) | Fail e \<Rightarrow> Fail e | Panic p \<Rightarrow> Panic p)
      in if mounter = S3FS then s3fs
         else if mounter = RClone then Ret (Rclone_Mounter env (NewRcloneMounter it (rclone_params env params)))
         else s3fs)"


subsection \<open>What the factory promises\<close>

text \<open>The parameters of an unmount: the attributes of the volume and nothing else.\<close>

definition unmount_params :: "smap \<Rightarrow> MounterParams" where
  "unmount_params attrib =
     \<lparr> mp_Attrib = Some attrib, mp_SecretMap = None, mp_MountFlags = None, mp_KnownS3FSOptions = None,
       mp_DefaultMOMap = None, mp_Gid = [], mp_ReadOnly = False \<rparr>"

locale mounter_factory =
  fixes make :: "MounterParams \<Rightarrow> Mounter outcome"
    and payload :: "MounterParams \<Rightarrow> string \<Rightarrow> string"
    and cred_file :: "MounterParams \<Rightarrow> string \<Rightarrow> string"
    and content :: "MounterParams \<Rightarrow> string"
  assumes made: "make p = Ret m \<Longrightarrow> mounter m (payload p) (cred_file p) (content p)"
    and made_known: "mp_KnownS3FSOptions p = Some S \<Longrightarrow> \<exists>m. make p = Ret m"
    and made_unmount: "\<exists>m. make (unmount_params attrib) = Ret m"
begin

lemma made_mount:
  assumes "mp_KnownS3FSOptions p = Some S"
  obtains m where "make p = Ret m" and "\<And>source target. yields (m_Mount m source target)
     (mount_post (payload p target) (cred_file p target) (content p))"
  using made_known [OF assms] made mounter.mount by blast

lemma made_for_unmount:
  obtains m where "make (unmount_params attrib) = Ret m"
    and "\<And>target. yields (m_Unmount m target) (unmount_post target)"
  using made_unmount [of attrib] made mounter.unmount by blast

end

definition uses_rclone :: "MounterParams \<Rightarrow> bool" where
  "uses_rclone params \<longleftrightarrow> selected_mounter params = RClone"

definition factory_payload :: "env \<Rightarrow> iteration \<Rightarrow> MounterParams \<Rightarrow> string \<Rightarrow> string" where
  "factory_payload env it params target =
     (if uses_rclone params then rclone_payload (NewRcloneMounter it (rclone_params env params)) target
      else case NewS3fsMounter it (s3fs_params env params) of Ret s3 \<Rightarrow> s3fs_payload s3 target | _ \<Rightarrow> [])"

definition factory_cred_file :: "MounterParams \<Rightarrow> string \<Rightarrow> string" where
  "factory_cred_file params target = (if uses_rclone params then rclone_file target else s3fs_file target)"

definition factory_content :: "env \<Rightarrow> iteration \<Rightarrow> MounterParams \<Rightarrow> string" where
  "factory_content env it params =
     (if uses_rclone params then rclone_content (NewRcloneMounter it (rclone_params env params))
      else case NewS3fsMounter it (s3fs_params env params) of Ret s3 \<Rightarrow> s3_AccessKeys s3 | _ \<Rightarrow> [])"

lemma NewMounter_rclone:
  "uses_rclone p \<Longrightarrow> NewMounter env it p = Ret (Rclone_Mounter env (NewRcloneMounter it (rclone_params env p)))"
  by (simp add: uses_rclone_def NewMounter_def Let_def S3FS_def RClone_def)

lemma NewMounter_s3fs:
  "\<not> uses_rclone p \<Longrightarrow> NewMounter env it p =
     (case NewS3fsMounter it (s3fs_params env p) of
        Ret s3 \<Rightarrow> Ret (S3fs_Mounter env s3) | Fail e \<Rightarrow> Fail e | Panic q \<Rightarrow> Panic q)"
  by (simp add: uses_rclone_def NewMounter_def Let_def)

lemma NewS3fsMounter_known:
  assumes "sp_KnownS3FSOptions params = Some S"
  shows "\<exists>s. NewS3fsMounter it params = Ret s"
proof -
  obtain m u where "updateS3FSMountOptions it (case sp_MountOptions params of None \<Rightarrow> [] | Some ops \<Rightarrow> ops)
      (deref (sp_SecretMap params)) (Some S) (deref (sp_DefaultParams params)) (sp_Gid params) (sp_ReadOnly params) =
           Ret (buildMountOptionsSlice it m (deref (sp_DefaultParams params)), buildAddMountParam it u)"
    using updateS3FSMountOptions_total by metis
  then show ?thesis
    by (simp add: NewS3fsMounter_def assms Let_def)
qed

lemma NewS3fsMounter_unmount: "\<exists>s. NewS3fsMounter it (s3fs_params env (unmount_params attrib)) = Ret s"
  by (simp add: NewS3fsMounter_def s3fs_params_def unmount_params_def factory_secrets_def factory_flags_def
      updateS3FSMountOptions_def Let_def)

interpretation csi: mounter_factory "NewMounter env it" "factory_payload env it" factory_cred_file
    "factory_content env it" for env it
proof (rule mounter_factory.intro)
  fix p m S attrib
  show "mounter m (factory_payload env it p) (factory_cred_file p) (factory_content env it p)"
    if made: "NewMounter env it p = Ret m"
  proof (cases "uses_rclone p")
    case True
    then have "factory_payload env it p = rclone_payload (NewRcloneMounter it (rclone_params env p))"
      and "factory_cred_file p = rclone_file"
      by (auto simp: fun_eq_iff factory_payload_def factory_cred_file_def)
    then show ?thesis
      using made True rclone.mounter_axioms [of env it "rclone_params env p"]
      by (simp add: NewMounter_rclone factory_content_def)
  next
    case False
    then obtain s3 where s3: "NewS3fsMounter it (s3fs_params env p) = Ret s3" "m = S3fs_Mounter env s3"
      using made by (auto simp: NewMounter_s3fs split: outcome.splits)
    then have "factory_payload env it p = s3fs_payload s3" and "factory_cred_file p = s3fs_file"
      using False by (auto simp: fun_eq_iff factory_payload_def factory_cred_file_def)
    then show ?thesis
      using False s3 s3fs.mounter_axioms [of env s3] by (simp add: factory_content_def)
  qed
  show "\<exists>m. NewMounter env it p = Ret m" if known: "mp_KnownS3FSOptions p = Some S"
  proof (cases "uses_rclone p")
    case True
    then show ?thesis by (simp add: NewMounter_rclone)
  next
    case False
    obtain s where "NewS3fsMounter it (s3fs_params env p) = Ret s"
      using NewS3fsMounter_known [of "s3fs_params env p" S] known by (auto simp: s3fs_params_def)
    with False show ?thesis by (simp add: NewMounter_s3fs)
  qed
  show "\<exists>m. NewMounter env it (unmount_params attrib) = Ret m"
    using NewS3fsMounter_unmount [of it env attrib]
    by (cases "uses_rclone (unmount_params attrib)") (auto simp: NewMounter_rclone NewMounter_s3fs)
qed


subsection \<open>Properties\<close>

lemma removal_loops_equal: "removeRcloneConfigFile_loop env p n = removeS3FSCredFile_loop env p n"
  by (induction n) (simp_all only: removeRcloneConfigFile_loop.simps removeS3FSCredFile_loop.simps)

text \<open>
  C33. The unmount on the worker does not depend on the mounter that the factory chooses: for any
  two sets of attributes of a volume the factory makes a mounter, and the two send the same request
  and remove the same directory. A volume whose mounter was named in its secret only, which the
  unmount does not see, is therefore unmounted as it was mounted.
\<close>

theorem unmount_any_mounter:
  "\<exists>m m'. NewMounter env it (unmount_params attrib) = Ret m \<and>
     NewMounter env it' (unmount_params attrib') = Ret m' \<and> m_Unmount m = m_Unmount m'"
proof -
  have same: "rclone_Unmount env True rc t = s3fs_Unmount env True s3 t" for rc s3 t
    by (simp add: rclone_Unmount_def s3fs_Unmount_def removeRcloneConfigFile_def removeS3FSCredFile_def
        removal_loops_equal)
  define s0 where "s0 = zero_S3fsMounter (MounterOptsUtils env)"
  have one: "\<exists>m. NewMounter env it (unmount_params a) = Ret m \<and> m_Unmount m = s3fs_Unmount env True s0" for it a
    using NewS3fsMounter_unmount [of it env a] same
    by (cases "uses_rclone (unmount_params a)")
       (auto simp: NewMounter_rclone NewMounter_s3fs Rclone_Mounter_def S3fs_Mounter_def mountWorker_def fun_eq_iff
         s3fs_Unmount_def)
  show ?thesis using one [of it attrib] one [of it' attrib'] by auto
qed

text \<open>
  C35. Which mounter a mount uses: rclone exactly when the attributes of the volume name it, or, when
  they name none, the secret does; every other name, and no name, is s3fs. With a set of known
  options the factory always makes a mounter.
\<close>

theorem NewMounter_choice:
  assumes "mp_KnownS3FSOptions p = Some S"
  shows "if map_of (deref (mp_Attrib p)) ''mounter'' = Some ''rclone'' \<or>
            map_of (deref (mp_Attrib p)) ''mounter'' = None \<and>
            map_of (deref (mp_SecretMap p)) ''mounter'' = Some ''rclone''
         then NewMounter env it p = Ret (Rclone_Mounter env (NewRcloneMounter it (rclone_params env p)))
         else \<exists>s3. NewS3fsMounter it (s3fs_params env p) = Ret s3 \<and> NewMounter env it p = Ret (S3fs_Mounter env s3)"
proof -
  have deref: "factory_secrets p = deref (mp_SecretMap p)"
    by (simp add: factory_secrets_def deref_def)
  have "uses_rclone p \<longleftrightarrow>
      map_of (deref (mp_Attrib p)) ''mounter'' = Some ''rclone'' \<or>
      map_of (deref (mp_Attrib p)) ''mounter'' = None \<and>
      map_of (deref (mp_SecretMap p)) ''mounter'' = Some ''rclone''"
    by (simp add: uses_rclone_def selected_mounter_def RClone_def deref split: option.split)
  moreover obtain s where "NewS3fsMounter it (s3fs_params env p) = Ret s"
    using NewS3fsMounter_known [of "s3fs_params env p" S] assms by (auto simp: s3fs_params_def)
  ultimately show ?thesis
    by (simp add: NewMounter_rclone NewMounter_s3fs)
qed

definition sample_mount :: MounterParams where
  "sample_mount = \<lparr> mp_Attrib = Some [(''mounter'', ''rclone'')], mp_SecretMap = Some [], mp_MountFlags = None,
     mp_KnownS3FSOptions = Some GetKnownS3FSOptions, mp_DefaultMOMap = None, mp_Gid = [], mp_ReadOnly = False \<rparr>"

theorem NewMounter_choice_witness:
  "NewMounter env_ok (\<lambda>_ m. m) sample_mount =
     Ret (Rclone_Mounter env_ok (NewRcloneMounter (\<lambda>_ m. m) (rclone_params env_ok sample_mount)))"
  using NewMounter_choice [of sample_mount GetKnownS3FSOptions env_ok "\<lambda>_ m. m"]
  by (simp add: sample_mount_def)

text \<open>
  A read-only mount is read-only on the worker: whatever options the storage class and the
  secret name and in whatever order the maps are iterated, the arguments that the chosen mounter
  sends have \<open>ro\<close> (s3fs) or \<open>read-only\<close> (rclone) with the value \<open>true\<close>.
\<close>

theorem read_only_reaches_worker:
  assumes "fair_iteration it" and "mp_KnownS3FSOptions p = Some S"
    and "plain_keys (deref (mp_DefaultMOMap p))" and "mp_ReadOnly p"
  shows "map_of (snd (rclone_formulateMountOptions (NewRcloneMounter it (rclone_params env p)) b t f)) ''read-only''
           = Some ''true'' \<and>
    (\<exists>s3. NewS3fsMounter it (s3fs_params env p) = Ret s3 \<and>
       map_of (snd (s3fs_formulateMountOptions s3 b t f)) ''ro'' = Some ''true'')"
proof
  show "map_of (snd (rclone_formulateMountOptions (NewRcloneMounter it (rclone_params env p)) b t f)) ''read-only''
           = Some ''true''"
    using assms(4) by (simp add: rclone_formulateMountOptions_def NewRcloneMounter_def rclone_params_def Let_def smap_simps)
  show "\<exists>s3. NewS3fsMounter it (s3fs_params env p) = Ret s3 \<and>
       map_of (snd (s3fs_formulateMountOptions s3 b t f)) ''ro'' = Some ''true''"
    using s3fs_read_only [OF assms(1), of "s3fs_params env p" S] assms(2-4) by (auto simp: s3fs_params_def)
qed

definition sample_read_only :: MounterParams where
  "sample_read_only = \<lparr> mp_Attrib = None, mp_SecretMap = Some [(''apiKey'', ''k'')], mp_MountFlags = Some [''ro=false''],
     mp_KnownS3FSOptions = Some GetKnownS3FSOptions, mp_DefaultMOMap = Some [(CipherSuitesKey, ''AESGCM'')],
     mp_Gid = [], mp_ReadOnly = True \<rparr>"

theorem read_only_reaches_worker_witness:
  "map_of (snd (rclone_formulateMountOptions (NewRcloneMounter (\<lambda>_. rev) (rclone_params env_ok sample_read_only))
       ''b'' ''/t'' ''/f'')) ''read-only'' = Some ''true'' \<and>
    (\<exists>s3. NewS3fsMounter (\<lambda>_. rev) (s3fs_params env_ok sample_read_only) = Ret s3 \<and>
       map_of (snd (s3fs_formulateMountOptions s3 ''b'' ''/t'' ''/f'')) ''ro'' = Some ''true'')"
  by (rule read_only_reaches_worker [OF fair_rev, where S = GetKnownS3FSOptions])
     (simp_all add: sample_read_only_def plain_keys_def smap_wf_def CipherSuitesKey_def)

end
