(* ===== verification/NodeServer.thy ===== *)
theory NodeServer
  imports MounterFactory DriverUtils
begin

section \<open>The node service: pkg/driver/nodeserver.go\<close>

text \<open>
  \<open>NodePublishVolume\<close> is split where the code is: checks, mount point, the secrets, the bucket,
  the mounter. The interfaces that the server holds are fields of \<open>nodeServer\<close>; the lemmas about
  the handlers are proved in the locale \<open>node_server\<close>, for every implementation that keeps the
  contracts \<open>stats_utils\<close> and \<open>mounter_factory\<close>.
\<close>

record NodeServerConfig =
  nc_MaxVolumesPerNode :: int
  nc_Region :: string
  nc_Zone :: string
  nc_NodeID :: string
  nc_TLSCipherSuite :: string
  nc_KnownS3FSOptions :: "Set option"

record nodeServer =
  ns_iamEndpoint :: string
  ns_Stats :: StatsUtils
  ns_Config :: NodeServerConfig
  ns_Mounter :: "MounterParams \<Rightarrow> Mounter outcome"
  ns_MounterUtils :: MounterUtils

abbreviation invalid_argument :: "string \<Rightarrow> gerror" where
  "invalid_argument m \<equiv> Status InvalidArgument m"


subsection \<open>Stage and unstage\<close>

definition NodeStageVolume :: "StageRequest \<Rightarrow> unit res" where
  "NodeStageVolume req =
     (if st_volume_id req = [] then Inl (invalid_argument ''Volume ID missing in request'')
      else if st_staging_path req = [] then Inl (invalid_argument ''Target path missing in request'')
      else Inr ())"

definition NodeUnstageVolume :: "StageRequest \<Rightarrow> unit res" where
  "NodeUnstageVolume req =
     (if st_volume_id req = [] then Inl (invalid_argument ''Volume ID missing in request'')
      else if st_staging_path req = [] then Inl (invalid_argument ''Target path missing in request'')
      else Inr ())"


subsection \<open>NodePublishVolume\<close>

text \<open>
  \<open>secretMap[k] = v\<close>, which panics when the map is nil, as it is for a request without secrets.
\<close>

definition nil_map :: string where
  "nil_map = ''assignment to entry in nil map''"

definition set_key :: "nmap \<Rightarrow> string \<Rightarrow> string \<Rightarrow> nmap outcome" where
  "set_key m k v = (case m of None \<Rightarrow> Panic nil_map | Some m' \<Rightarrow> Ret (Some (mput m' k v)))"

definition fill_key :: "nmap \<Rightarrow> string \<Rightarrow> string \<Rightarrow> nmap outcome" where
  "fill_key m k v = (if mget (deref m) k = [] then set_key m k v else Ret m)"

definition publish_secrets :: "string \<Rightarrow> smap \<Rightarrow> nmap \<Rightarrow> nmap outcome run" where
  "publish_secrets iam attrib secretMap =
     attempt (State_Monad.return (fill_key secretMap ''cosEndpoint'' (mget attrib ''cosEndpoint''))) fail (\<lambda>secretMap.
     attempt (State_Monad.return (fill_key secretMap ''locationConstraint'' (mget attrib ''locationConstraint''))) fail (\<lambda>secretMap.
       if mget (deref secretMap) ''cosEndpoint'' = []
       then fail (invalid_argument ''S3 Service endpoint not provided'')
       else State_Monad.return (fill_key secretMap ''iamEndpoint'' iam)))"

definition publish_bucket :: "nodeServer \<Rightarrow> string \<Rightarrow> nmap \<Rightarrow> nmap outcome run" where
  "publish_bucket ns volumeID secretMap =
     (if mget (deref secretMap) ''bucketName'' = [] then
        attempt (GetBucketNameFromPV (ns_Stats ns) volumeID)
          (\<lambda>err. fail (Status Internal (error_text err)))
          (\<lambda>tempBucketName.
             if tempBucketName = [] then fail (Status Internal ''unable to fetch bucket name from pv'')
             else State_Monad.return (set_key secretMap ''bucketName'' tempBucketName))
      else ret secretMap)"

text \<open>What the mounter is made from; the request has a capability here.\<close>

definition request_mount :: "NodePublishVolumeRequest \<Rightarrow> mount_volume option" where
  "request_mount req = (case np_capability req of None \<Rightarrow> None | Some c \<Rightarrow> GetMount c)"

definition publish_params :: "nodeServer \<Rightarrow> NodePublishVolumeRequest \<Rightarrow> VolumeCapability \<Rightarrow> nmap \<Rightarrow> MounterParams" where
  "publish_params ns req cap secretMap =
     \<lparr> mp_Attrib = np_volume_context req,
       mp_SecretMap = secretMap,
       mp_MountFlags = map_option mount_flags (request_mount req),
       mp_KnownS3FSOptions = nc_KnownS3FSOptions (ns_Config ns),
       mp_DefaultMOMap = Some [(CipherSuitesKey, nc_TLSCipherSuite (ns_Config ns))],
       mp_Gid = (case request_mount req of None \<Rightarrow> [] | Some m \<Rightarrow> volume_mount_group m),
       mp_ReadOnly = (GetMode cap = MULTI_NODE_READER_ONLY) \<rparr>"

definition NodePublishVolume :: "nodeServer \<Rightarrow> NodePublishVolumeRequest \<Rightarrow> unit outcome run" where
  "NodePublishVolume ns req =
     (case ReplaceAndReturnCopy (PublishReq req) of
        Inl err \<Rightarrow> fail (invalid_argument (sprintf [''Error in modifying requests '', error_text err]))
      | Inr _ \<Rightarrow>
     (let volumeID = np_volume_id req; targetPath = np_target_path req
      in if volumeID = [] then fail (invalid_argument ''Volume ID missing in request'')
         else if targetPath = [] then fail (invalid_argument ''Target path missing in request'')
         else
     (case np_capability req of
        None \<Rightarrow> fail (invalid_argument ''Volume capability missing in request'')
      | Some cap \<Rightarrow>
          attempt (CheckMount (ns_Stats ns) targetPath) (\<lambda>err. fail (Status Internal (error_text err))) (\<lambda>_.
          attempt (publish_secrets (ns_iamEndpoint ns) (deref (np_volume_context req)) (np_secrets req)) fail (\<lambda>secretMap.
          attempt (publish_bucket ns volumeID secretMap) fail (\<lambda>secretMap.
          attempt (State_Monad.return (ns_Mounter ns (publish_params ns req cap secretMap))) fail (\<lambda>mounterObj.
          attempt (m_Mount mounterObj [] targetPath) fail ret)))))))"


subsection \<open>NodeUnpublishVolume\<close>

definition NodeUnpublishVolume :: "nodeServer \<Rightarrow> NodeUnpublishVolumeRequest \<Rightarrow> unit outcome run" where
  "NodeUnpublishVolume ns req =
     (let volumeID = nu_volume_id req; targetPath = nu_target_path req
      in if volumeID = [] then fail (invalid_argument ''Volume ID missing in request'')
         else if targetPath = [] then fail (invalid_argument ''Target path missing in request'')
         else
           attempt (GetPVAttributes (ns_Stats ns) volumeID)
             (\<lambda>_. fail (Status NotFound ''Failed to get PV details''))
             (\<lambda>attrib.
                attempt (State_Monad.return (ns_Mounter ns (unmount_params attrib))) fail (\<lambda>mounterObj.
                attempt (m_Unmount mounterObj targetPath)
                  (\<lambda>err. fail (Status Internal (error_text err))) ret)))"


subsection \<open>Statistics and information\<close>

definition NodeGetVolumeStats ::
    "nodeServer \<Rightarrow> NodeGetVolumeStatsRequest \<Rightarrow> NodeGetVolumeStatsResponse outcome run" where
  "NodeGetVolumeStats ns req =
     (let volumeID = ns_volume_id req; volumePath = ns_volume_path req
      in if volumeID = [] then fail (invalid_argument ''Volume ID missing in request'')
         else if volumePath = [] then fail (invalid_argument (''Path Doesn'' @ [CHR 0x27] @ ''t exist'')) else
           attempt (FSInfo (ns_Stats ns) volumePath)
             (\<lambda>err. ret \<lparr> stats_usage = [], stats_condition = Some (True, error_text err) \<rparr>)
             (\<lambda>(_, capacity, _, inodes, inodesFree, inodesUsed).
                attempt (GetTotalCapacityFromPV (ns_Stats ns) volumeID) fail (\<lambda>totalCap.
                  let capAsInt64 = (case qty_int64 totalCap of Some n \<Rightarrow> n | None \<Rightarrow> capacity)
                  in attempt (GetBucketUsage (ns_Stats ns) volumeID) fail (\<lambda>capUsed.
                       ret \<lparr> stats_usage =
                               [\<lparr> usage_available = 0, usage_total = capAsInt64, usage_used = capUsed, usage_unit = BYTES \<rparr>,
                                \<lparr> usage_available = inodesFree, usage_total = inodes, usage_used = inodesUsed, usage_unit = INODES \<rparr>],
                             stats_condition = None \<rparr>))))"

definition NodeExpandVolume :: "unit res" where
  "NodeExpandVolume = Inl (Status Unimplemented ''NodeExpandVolume is not implemented'')"

definition nodeServerCapabilities :: "node_cap list" where
  "nodeServerCapabilities = [GET_VOLUME_STATS, VOLUME_CONDITION, VOLUME_MOUNT_GROUP]"

definition NodeGetCapabilities :: "node_cap list" where
  "NodeGetCapabilities = map (\<lambda>c. c) nodeServerCapabilities"

definition NodeGetInfo :: "nodeServer \<Rightarrow> NodeGetInfoResponse" where
  "NodeGetInfo ns =
     \<lparr> info_node_id = nc_NodeID (ns_Config ns),
       info_max_volumes = nc_MaxVolumesPerNode (ns_Config ns),
       info_segments = [(NodeRegionLabel, nc_Region (ns_Config ns)), (NodeZoneLabel, nc_Zone (ns_Config ns))] \<rparr>"

text \<open>The struct that \<open>newNodeServer\<close> fills once it has its data.\<close>

definition make_nodeServer ::
    "env \<Rightarrow> iteration \<Rightarrow> string \<Rightarrow> int \<Rightarrow> ClusterNodeData \<Rightarrow> string \<Rightarrow> string \<Rightarrow> nodeServer" where
  "make_nodeServer env it iam maxVolumesPerNode d nodeID ciphersuite =
     \<lparr> ns_iamEndpoint = iam,
       ns_Stats = DriverStatsUtils env,
       ns_Config =
         \<lparr> nc_MaxVolumesPerNode = maxVolumesPerNode, nc_Region = cn_region d, nc_Zone = cn_zone d,
           nc_NodeID = nodeID, nc_TLSCipherSuite = ciphersuite,
           nc_KnownS3FSOptions = Some GetKnownS3FSOptions \<rparr>,
       ns_Mounter = NewMounter env it,
       ns_MounterUtils = MounterOptsUtils env \<rparr>"


subsection \<open>What the handlers rely on and promise\<close>

text \<open>Events that neither mount, nor remove a file, nor reach the object store.\<close>

definition harmless :: "event \<Rightarrow> bool" where
  "harmless e \<longleftrightarrow> \<not> is_cos e \<and> removes e = None \<and> \<not> accepted e"

lemma harmless_k8s: "is_k8s e \<Longrightarrow> harmless e"
  by (cases e) (auto simp: harmless_def)

lemma harmless_fs: "is_fs e \<Longrightarrow> removes e = None \<Longrightarrow> harmless e"
  by (cases e) (auto simp: harmless_def)

text \<open>The reply of the Kubernetes API names bucket \<open>b\<close> for volume \<open>v\<close>; has no CSI part for it.\<close>

fun names_bucket :: "string \<Rightarrow> string \<Rightarrow> event \<Rightarrow> bool" where
  "names_bucket v b (K8s (EvGetPV v' (Inr p))) \<longleftrightarrow> v' = v \<and>
     (case pv_csi p of None \<Rightarrow> False | Some csi \<Rightarrow> mget (volume_attributes csi) ''bucketName'' = b)"
| "names_bucket _ _ _ \<longleftrightarrow> False"

fun no_csi :: "string \<Rightarrow> event \<Rightarrow> bool" where
  "no_csi v (K8s (EvGetPV v' (Inr p))) \<longleftrightarrow> v' = v \<and> pv_csi p = None"
| "no_csi _ _ \<longleftrightarrow> False"

lemma pv_lookup_events:
  assumes "pv_lookup v f r es"
  shows "\<forall>e \<in> set es. harmless e"
    and "r = Ret x \<Longrightarrow> \<exists>csi. x = f csi \<and> (\<exists>p. K8s (EvGetPV v (Inr p)) \<in> set es \<and> pv_csi p = Some csi)"
    and "r = Panic q \<Longrightarrow> list_ex (no_csi v) es"
proof -
  show "\<forall>e \<in> set es. harmless e" using assms by (auto simp: pv_lookup_def harmless_k8s)
  show "\<exists>csi. x = f csi \<and> (\<exists>p. K8s (EvGetPV v (Inr p)) \<in> set es \<and> pv_csi p = Some csi)" if "r = Ret x"
  proof -
    obtain p csi where "es \<noteq> []" "last es = K8s (EvGetPV v (Inr p))" "pv_csi p = Some csi" "x = f csi"
      using assms \<open>r = Ret x\<close> by (auto simp: pv_lookup_def)
    then show ?thesis by (metis last_in_set)
  qed
  show "list_ex (no_csi v) es" if "r = Panic q"
  proof -
    obtain p where p: "es \<noteq> []" "last es = K8s (EvGetPV v (Inr p))" "pv_csi p = None"
      using assms \<open>r = Panic q\<close> by (auto simp: pv_lookup_def)
    then have "no_csi v (last es)" by simp
    with p(1) show ?thesis unfolding list_ex_iff by (metis last_in_set)
  qed
qed

lemma attempt_return:
  "attempt (State_Monad.return r) err k =
     (case r of Ret x \<Rightarrow> k x | Fail e \<Rightarrow> err e | Panic p \<Rightarrow> panic p)"
  by (simp add: attempt_def)

text \<open>
  The secrets that a volume is mounted with: those of the request, and for the keys that are
  missing there the attribute of the volume, the endpoint of the driver and the bucket \<open>b\<close>.
\<close>

definition mount_secrets :: "string \<Rightarrow> smap \<Rightarrow> smap \<Rightarrow> string \<Rightarrow> smap \<Rightarrow> bool" where
  "mount_secrets iam attrib m b m' \<longleftrightarrow>
     (\<forall>k. mget m' k =
        (if mget m k \<noteq> [] then mget m k
         else if k = ''cosEndpoint'' \<or> k = ''locationConstraint'' then mget attrib k
         else if k = ''iamEndpoint'' then iam
         else if k = ''bucketName'' then b else []))"

definition filled :: "string \<Rightarrow> string \<Rightarrow> smap \<Rightarrow> smap" where
  "filled k v m = (if mget m k = [] then mput m k v else m)"

lemma fill_key_filled: "fill_key (Some m) k v = Ret (Some (filled k v m))"
  by (simp add: fill_key_def set_key_def filled_def)

lemma mget_filled: "mget (filled k v m) k' = (if k' = k \<and> mget m k = [] then v else mget m k')"
  by (simp add: filled_def smap_simps)

lemma publish_secrets_yields:
  "yields (publish_secrets iam attrib sm)
     (\<lambda>r es. es = [] \<and>
        (case r of
           Ret sm' \<Rightarrow> \<exists>m m'. sm = Some m \<and> sm' = Some m' \<and> mget m' ''cosEndpoint'' \<noteq> [] \<and>
             mount_secrets iam attrib m [] m'
         | Fail e \<Rightarrow> sm \<noteq> None \<and> mget (deref sm) ''cosEndpoint'' = [] \<and> mget attrib ''cosEndpoint'' = [] \<and>
             e = Status InvalidArgument ''S3 Service endpoint not provided''
         | Panic _ \<Rightarrow> sm = None))"
proof (cases sm)
  case None
  then show ?thesis
    by (simp add: publish_secrets_def fill_key_def set_key_def yields_def attempt_def)
next
  case (Some m)
  let ?m1 = "filled ''cosEndpoint'' (mget attrib ''cosEndpoint'') m"
  let ?m2 = "filled ''locationConstraint'' (mget attrib ''locationConstraint'') ?m1"
  have "mount_secrets iam attrib m [] (filled ''iamEndpoint'' iam ?m2)"
    by (simp add: mount_secrets_def mget_filled)
  moreover have "mget ?m2 ''cosEndpoint'' =
      (if mget m ''cosEndpoint'' = [] then mget attrib ''cosEndpoint'' else mget m ''cosEndpoint'')"
    and "mget (filled ''iamEndpoint'' iam ?m2) ''cosEndpoint'' = mget ?m2 ''cosEndpoint''"
    by (simp_all add: mget_filled)
  ultimately show ?thesis
    unfolding publish_secrets_def Some fill_key_filled attempt_return outcome.case deref_simps
    by (auto intro!: yields_return yields_fail split: if_splits)
qed

text \<open>What a publication promises, for volume \<open>v\<close>, given how the mounters build payloads.\<close>

definition publish_post ::
    "nodeServer \<Rightarrow> (MounterParams \<Rightarrow> string \<Rightarrow> string) \<Rightarrow> (MounterParams \<Rightarrow> string \<Rightarrow> string)
     \<Rightarrow> (MounterParams \<Rightarrow> string) \<Rightarrow> NodePublishVolumeRequest \<Rightarrow> unit outcome \<Rightarrow> event list \<Rightarrow> bool" where
  "publish_post ns payload cred_file content req r es \<longleftrightarrow>
     list_all (\<lambda>e. \<not> is_cos e \<and> removes e = None) es \<and>
     (case r of
        Ret _ \<Rightarrow>
          \<exists>cap m m' b. np_capability req = Some cap \<and> np_secrets req = Some m \<and>
            mget m' ''bucketName'' \<noteq> [] \<and> mget m' ''cosEndpoint'' \<noteq> [] \<and>
            mount_secrets (ns_iamEndpoint ns) (deref (np_volume_context req)) m b m' \<and>
            (if mget m ''bucketName'' = [] then list_ex (names_bucket (np_volume_id req) b) es else True) \<and>
            (let params = publish_params ns req cap (Some m')
             in list_ex (posts mount_url (payload params (np_target_path req))) es \<and>
                Fs (EvWriteString (cred_file params (np_target_path req)) (content params) (Inr ())) \<in> set es)
      | Fail _ \<Rightarrow> \<not> list_ex accepted es
      | Panic _ \<Rightarrow> (np_secrets req = None \<or> list_ex (no_csi (np_volume_id req)) es) \<and> \<not> list_ex accepted es)"

definition unpublish_post :: "NodeUnpublishVolumeRequest \<Rightarrow> unit outcome \<Rightarrow> event list \<Rightarrow> bool" where
  "unpublish_post req r es \<longleftrightarrow>
     list_all (\<lambda>e. \<not> is_cos e) es \<and>
     removal_of (cred_dir MounterConfigPathOnHost (nu_target_path req)) maxRetries es \<and>
     (case r of
        Ret _ \<Rightarrow> list_ex (posts unmount_url (unmount_payload (nu_target_path req))) es
      | Fail e \<Rightarrow> \<not> list_ex accepted es \<and> list_all (\<lambda>e. removes e = None) es \<and>
          (if nu_volume_id req = [] \<or> nu_target_path req = []
           then es = [] \<and> (\<exists>msg. e = Status InvalidArgument msg)
           else list_all is_k8s es \<and> e = Status NotFound ''Failed to get PV details'' \<or>
                (\<exists>msg. e = Status Internal msg))
      | Panic _ \<Rightarrow> list_ex (no_csi (nu_volume_id req)) es)"

locale node_server =
  stats: stats_utils "ns_Stats ns" + factory: mounter_factory "ns_Mounter ns" payload cred_file content
  for ns :: nodeServer and payload cred_file content +
  assumes known: "\<exists>S. nc_KnownS3FSOptions (ns_Config ns) = Some S"
begin

lemma publish_bucket_yields:
  "yields (publish_bucket ns v (Some m))
     (\<lambda>r es. (\<forall>e \<in> set es. harmless e) \<and>
        (case r of
           Ret sm' \<Rightarrow> \<exists>b. b \<noteq> [] \<and>
             (if mget m ''bucketName'' \<noteq> [] then sm' = Some m
              else sm' = Some (mput m ''bucketName'' b) \<and> list_ex (names_bucket v b) es)
         | Fail _ \<Rightarrow> True
         | Panic _ \<Rightarrow> list_ex (no_csi v) es))"
proof (cases "mget m ''bucketName'' = []")
  case False
  then show ?thesis by (auto simp: publish_bucket_def intro!: yields_ret exI [of _ "''b''"])
next
  case True
  let ?Q = "\<lambda>r es. (\<forall>e \<in> set es. harmless e) \<and>
        (case r of
           Ret sm' \<Rightarrow> \<exists>b. b \<noteq> [] \<and>
             (if mget m ''bucketName'' \<noteq> [] then sm' = Some m
              else sm' = Some (mput m ''bucketName'' b) \<and> list_ex (names_bucket v b) es)
         | Fail _ \<Rightarrow> True
         | Panic _ \<Rightarrow> list_ex (no_csi v) es)"
  have named: "?Q (Ret (Some (mput m ''bucketName'' b))) es"
    if look: "pv_lookup v (\<lambda>csi. mget (volume_attributes csi) ''bucketName'') (Ret b) es" and b: "b \<noteq> []" for b es
  proof -
    obtain csi p where "b = mget (volume_attributes csi) ''bucketName''"
      "K8s (EvGetPV v (Inr p)) \<in> set es" "pv_csi p = Some csi"
      using pv_lookup_events(2) [OF look, of b] by blast
    then have "list_ex (names_bucket v b) es" by (force simp: list_ex_iff)
    then show ?thesis using pv_lookup_events(1) [OF look] True b by auto
  qed
  show ?thesis
    unfolding publish_bucket_def deref_simps if_P [OF True]
  proof (rule yields_attempt [OF stats.bucket_name])
    fix b es
    assume look: "pv_lookup v (\<lambda>csi. mget (volume_attributes csi) ''bucketName'') (Ret b) es"
    show "yields (if b = [] then fail (Status Internal ''unable to fetch bucket name from pv'')
        else State_Monad.return (set_key (Some m) ''bucketName'' b)) (\<lambda>r es'. ?Q r (es @ es'))"
    proof (cases "b = []")
      case True
      then show ?thesis using pv_lookup_events(1) [OF look] by (simp add: yields_fail)
    next
      case False
      show ?thesis
        unfolding set_key_def option.case if_not_P [OF False]
        by (rule yields_return) (unfold append_Nil2, rule named [OF look False])
    qed
  next
    fix e es
    assume look: "pv_lookup v (\<lambda>csi. mget (volume_attributes csi) ''bucketName'') (Fail e) es"
    then show "yields (fail (Status Internal (error_text e))) (\<lambda>r es'. ?Q r (es @ es'))"
      using pv_lookup_events(1) [OF look] by (auto intro!: yields_fail)
  next
    fix p es
    assume look: "pv_lookup v (\<lambda>csi. mget (volume_attributes csi) ''bucketName'') (Panic p) es"
    then show "?Q (Panic p) es"
      using pv_lookup_events(1,3) [OF look] by simp
  qed
qed

lemma publish_mount_yields:
  assumes "\<forall>e \<in> set es. harmless e"
    and "np_capability req = Some cap" and "np_secrets req = Some m"
    and "mget m' ''bucketName'' \<noteq> []" and "mget m' ''cosEndpoint'' \<noteq> []"
    and "mount_secrets (ns_iamEndpoint ns) (deref (np_volume_context req)) m b m'"
    and "mget m ''bucketName'' \<noteq> [] \<or> list_ex (names_bucket (np_volume_id req) b) es"
  shows "yields
     (attempt (State_Monad.return (ns_Mounter ns (publish_params ns req cap (Some m')))) fail
        (\<lambda>mounterObj. attempt (m_Mount mounterObj [] (np_target_path req)) fail ret))
     (\<lambda>r es'. publish_post ns payload cred_file content req r (es @ es'))"
proof -
  let ?ps = "publish_params ns req cap (Some m')" and ?t = "np_target_path req"
  obtain S where "mp_KnownS3FSOptions ?ps = Some S"
    using known by (auto simp: publish_params_def)
  then obtain mo where mo: "ns_Mounter ns ?ps = Ret mo" "\<And>source target. yields (m_Mount mo source target)
     (mount_post (payload ?ps target) (cred_file ?ps target) (content ?ps))"
    using factory.made_mount by metis
  have quiet: "list_all (\<lambda>e. \<not> is_cos e \<and> removes e = None) es" "\<not> list_ex accepted es"
    using assms(1) by (auto simp: harmless_def list_all_iff list_ex_iff)
  have posted: "publish_post ns payload cred_file content req (Ret u) (es @ es')"
    if "mount_post (payload ?ps ?t) (cred_file ?ps ?t) (content ?ps) (Ret u') es'" for u u' es'
    unfolding publish_post_def outcome.case Let_def
    using that quiet assms(2-7)
    by (intro conjI exI [of _ cap] exI [of _ m] exI [of _ m'] exI [of _ b])
       (auto simp: mount_post_def list_all_iff)
  have failed: "publish_post ns payload cred_file content req (Fail e) (es @ es')"
    if "mount_post (payload ?ps ?t) (cred_file ?ps ?t) (content ?ps) (Fail e') es'" for e e' es'
    using that quiet by (auto simp: publish_post_def mount_post_def list_all_iff)
  show ?thesis
    unfolding mo(1) attempt_return outcome.case
    by (rule yields_attempt_fail [OF mo(2)])
       (auto intro!: yields_ret posted failed simp: mount_post_def)
qed

lemma publish_post_early:
  assumes "\<forall>e \<in> set es. harmless e"
  shows "publish_post ns payload cred_file content req (Fail e) es"
    and "np_secrets req = None \<or> list_ex (no_csi (np_volume_id req)) es \<Longrightarrow>
         publish_post ns payload cred_file content req (Panic p) es"
  using assms by (auto simp: publish_post_def harmless_def list_all_iff list_ex_iff)

lemma publish_bucket_then_mount:
  assumes es: "\<forall>e \<in> set es. harmless e"
    and cap: "np_capability req = Some cap" and sec: "np_secrets req = Some m"
    and ep: "mget m' ''cosEndpoint'' \<noteq> []"
    and ms: "mount_secrets (ns_iamEndpoint ns) (deref (np_volume_context req)) m [] m'"
  shows "yields
     (attempt (publish_bucket ns (np_volume_id req) (Some m')) fail (\<lambda>secretMap.
      attempt (State_Monad.return (ns_Mounter ns (publish_params ns req cap secretMap))) fail (\<lambda>mounterObj.
      attempt (m_Mount mounterObj [] (np_target_path req)) fail ret)))
     (\<lambda>r es'. publish_post ns payload cred_file content req r (es @ es'))"
proof (rule yields_attempt_fail [OF publish_bucket_yields], goal_cases)
  case (1 sm2 es2)
  then obtain b where b: "\<forall>e \<in> set es2. harmless e" "b \<noteq> []"
    "if mget m' ''bucketName'' \<noteq> [] then sm2 = Some m'
     else sm2 = Some (mput m' ''bucketName'' b) \<and> list_ex (names_bucket (np_volume_id req) b) es2"
    by auto
  define m2 where "m2 = (if mget m' ''bucketName'' \<noteq> [] then m' else mput m' ''bucketName'' b)"
  have own: "mget m ''bucketName'' = mget m' ''bucketName''"
    using ms by (simp add: mount_secrets_def)
  have sm2: "sm2 = Some m2"
    and named: "mget m ''bucketName'' \<noteq> [] \<or> list_ex (names_bucket (np_volume_id req) b) (es @ es2)"
    using b(3) own by (auto simp: m2_def split: if_splits)
  have "mget m2 ''bucketName'' \<noteq> []" and "mget m2 ''cosEndpoint'' \<noteq> []"
    and "mount_secrets (ns_iamEndpoint ns) (deref (np_volume_context req)) m b m2"
    using ep ms b(2) by (auto simp: m2_def mount_secrets_def smap_simps)
  moreover have "\<forall>e \<in> set (es @ es2). harmless e"
    using b(1) es by auto
  ultimately show ?case
    using publish_mount_yields [OF _ cap sec _ _ _ named] by (simp add: sm2)
next
  case (2 e es2)
  then show ?case using es by (intro publish_post_early) auto
next
  case (3 p es2)
  then show ?case using es by (intro publish_post_early) auto
qed

lemma publish_after_checks:
  assumes es: "\<forall>e \<in> set es. harmless e" and cap: "np_capability req = Some cap"
  shows "yields
     (attempt (publish_secrets (ns_iamEndpoint ns) (deref (np_volume_context req)) (np_secrets req)) fail (\<lambda>secretMap.
      attempt (publish_bucket ns (np_volume_id req) secretMap) fail (\<lambda>secretMap.
      attempt (State_Monad.return (ns_Mounter ns (publish_params ns req cap secretMap))) fail (\<lambda>mounterObj.
      attempt (m_Mount mounterObj [] (np_target_path req)) fail ret))))
     (\<lambda>r es'. publish_post ns payload cred_file content req r (es @ es'))"
proof (rule yields_attempt_fail [OF publish_secrets_yields], goal_cases)
  case (1 sm es')
  then obtain m m' where "np_secrets req = Some m" and sm: "sm = Some m'" "es' = []"
    and "mget m' ''cosEndpoint'' \<noteq> []"
    and "mount_secrets (ns_iamEndpoint ns) (deref (np_volume_context req)) m [] m'" by auto
  then show ?case
    unfolding sm append_Nil by (intro publish_bucket_then_mount [OF es cap])
next
  case (2 e es')
  then show ?case using es by (intro publish_post_early) auto
next
  case (3 p es')
  then show ?case using es by (intro publish_post_early) auto
qed

lemma publish_yields:
  "yields (NodePublishVolume ns req) (publish_post ns payload cred_file content req)"
proof (cases "np_volume_id req = [] \<or> np_target_path req = [] \<or> np_capability req = None")
  case True
  then have "\<exists>e. NodePublishVolume ns req = fail e"
    by (auto simp: NodePublishVolume_def Let_def split: option.split)
  then obtain e where e: "NodePublishVolume ns req = fail e" by blast
  show ?thesis
    unfolding e by (intro yields_fail publish_post_early) simp
next
  case False
  then obtain cap where cap: "np_capability req = Some cap" by auto
  have rest: "NodePublishVolume ns req =
      attempt (CheckMount (ns_Stats ns) (np_target_path req)) (\<lambda>err. fail (Status Internal (error_text err))) (\<lambda>_.
      attempt (publish_secrets (ns_iamEndpoint ns) (deref (np_volume_context req)) (np_secrets req)) fail (\<lambda>secretMap.
      attempt (publish_bucket ns (np_volume_id req) secretMap) fail (\<lambda>secretMap.
      attempt (State_Monad.return (ns_Mounter ns (publish_params ns req cap secretMap))) fail (\<lambda>mounterObj.
      attempt (m_Mount mounterObj [] (np_target_path req)) fail ret))))"
    using False by (simp add: NodePublishVolume_def Let_def cap)
  show ?thesis
    unfolding rest
  proof (rule yields_attempt [OF stats.check_mount], goal_cases)
    case (1 x es)
    then show ?case by (intro publish_after_checks [OF _ cap]) (auto intro: harmless_fs)
  next
    case (2 e es)
    then show ?case by (intro yields_fail publish_post_early) (auto intro: harmless_fs)
  qed simp
qed

lemma unpublish_yields: "yields (NodeUnpublishVolume ns req) (unpublish_post req)"
proof (cases "nu_volume_id req = [] \<or> nu_target_path req = []")
  case True
  then show ?thesis
    by (auto simp: NodeUnpublishVolume_def Let_def unpublish_post_def removal_of_def intro!: yields_fail)
next
  case False
  then have rest: "NodeUnpublishVolume ns req =
     attempt (GetPVAttributes (ns_Stats ns) (nu_volume_id req))
       (\<lambda>_. fail (Status NotFound ''Failed to get PV details''))
       (\<lambda>attrib.
          attempt (State_Monad.return (ns_Mounter ns (unmount_params attrib))) fail (\<lambda>mounterObj.
          attempt (m_Unmount mounterObj (nu_target_path req))
            (\<lambda>err. fail (Status Internal (error_text err))) ret))"
    by (simp add: NodeUnpublishVolume_def Let_def)
  have quiet: "list_all is_k8s es \<and> list_all (\<lambda>e. \<not> is_cos e) es \<and> \<not> list_ex accepted es \<and>
      list_all (\<lambda>e. removes e = None) es \<and> filter (\<lambda>e. removes e \<noteq> None) es = []"
    if "pv_lookup v f r es" for v r es and f :: "csi_source \<Rightarrow> smap"
    using pv_lookup_events(1) [OF that] that
    by (auto simp: pv_lookup_def harmless_def list_all_iff list_ex_iff filter_empty_conv)
  show ?thesis
    unfolding rest
  proof (rule yields_attempt [OF stats.attributes], goal_cases)
    case (1 attrib es)
    obtain mo where mo: "ns_Mounter ns (unmount_params attrib) = Ret mo"
      "\<And>target. yields (m_Unmount mo target) (unmount_post target)"
      using factory.made_for_unmount by metis
    show ?case
      unfolding mo(1) attempt_return outcome.case
    proof (rule yields_attempt [OF mo(2)], goal_cases)
      case (1 x es')
      then show ?case using quiet [OF \<open>pv_lookup _ _ _ es\<close>]
        by (intro yields_ret) (auto simp: unpublish_post_def unmount_post_def removal_of_def list_ex_iff list_all_iff)
    next
      case (2 e es')
      then show ?case using quiet [OF \<open>pv_lookup _ _ _ es\<close>] False
        by (intro yields_fail) (auto simp: unpublish_post_def unmount_post_def removal_of_def list_all_iff)
    next
      case (3 p es')
      then show ?case by (simp add: unmount_post_def)
    qed
  next
    case (2 e es)
    then show ?case using quiet [OF 2] False
      by (intro yields_fail) (auto simp: unpublish_post_def removal_of_def list_all_iff)
  next
    case (3 p es)
    then show ?case using quiet [OF 3] pv_lookup_events(3) [OF 3 refl]
      by (auto simp: unpublish_post_def removal_of_def list_all_iff)
  qed
qed

lemma stats_no_mount:
  "yields (NodeGetVolumeStats ns req) (\<lambda>_ es. \<forall>e \<in> set es. is_fs e \<or> is_k8s e \<or> is_cos e \<and> \<not> is_delete e)"
proof -
  have usage: "yields (GetBucketUsage (ns_Stats ns) v) (\<lambda>_ es. \<forall>e \<in> set es. is_k8s e \<or> is_cos e \<and> \<not> is_delete e)" for v
    by (rule yields_mono [OF stats.usage]) (simp add: usage_post_def)
  show ?thesis
    unfolding NodeGetVolumeStats_def Let_def
    by (auto split: option.split intro!: yields_fail yields_ret yields_attempt [OF stats.fs_info]
        yields_attempt_fail [OF stats.capacity] yields_attempt_fail [OF usage])
qed

end

interpretation node: node_server "make_nodeServer env it iam maxv d nodeID cipher"
    "factory_payload env it" factory_cred_file "factory_content env it"
  for env it iam maxv d nodeID cipher
  by (intro node_server.intro node_server_axioms.intro)
     (simp_all add: make_nodeServer_def su.stats_utils_axioms csi.mounter_factory_axioms)


subsection \<open>Properties\<close>

lemma node_iam: "ns_iamEndpoint (make_nodeServer env it iam maxv d nodeID cipher) = iam"
  by (simp add: make_nodeServer_def)

text \<open>
  C3. \<open>NodePublishVolume\<close> succeeds only when the mounter service answered 200 to the payload that
  the chosen mounter builds for this target, after its credentials were written. The mounter is
  made from the secrets of the request, completed, key by key, by the attributes of the volume,
  the IAM endpoint of the driver and the bucket that the persistent volume names. When it fails the
  service has accepted nothing. It panics only for a request without secrets or a volume without
  CSI part; and it never reaches the object store nor removes a file.
\<close>

theorem NodePublishVolume_mounts:
  "yields (NodePublishVolume (make_nodeServer env it iam maxv d nodeID cipher) req)
     (\<lambda>r es. list_all (\<lambda>e. \<not> is_cos e \<and> removes e = None) es \<and>
       (case r of
          Ret _ \<Rightarrow>
            \<exists>cap m m' b. np_capability req = Some cap \<and> np_secrets req = Some m \<and>
              mget m' ''bucketName'' \<noteq> [] \<and> mget m' ''cosEndpoint'' \<noteq> [] \<and>
              mount_secrets iam (deref (np_volume_context req)) m b m' \<and>
              (if mget m ''bucketName'' = [] then list_ex (names_bucket (np_volume_id req) b) es else True) \<and>
              (let params = publish_params (make_nodeServer env it iam maxv d nodeID cipher) req cap (Some m')
               in list_ex (posts mount_url (factory_payload env it params (np_target_path req))) es \<and>
                  Fs (EvWriteString (factory_cred_file params (np_target_path req))
                        (factory_content env it params) (Inr ())) \<in> set es)
        | Fail _ \<Rightarrow> \<not> list_ex accepted es
        | Panic _ \<Rightarrow> (np_secrets req = None \<or> list_ex (no_csi (np_volume_id req)) es) \<and> \<not> list_ex accepted es))"
  using node.publish_yields [of env it iam maxv d nodeID cipher req]
  unfolding publish_post_def node_iam .

text \<open>
  C4. \<open>NodeUnpublishVolume\<close> succeeds exactly when the service answered 200 to the unmount of the
  target; only then is anything removed, the credential directory of this target in at most three
  attempts. It reports a volume that the Kubernetes API does not give as \<open>NotFound\<close>, whatever the
  reason, with no unmount tried, and every other failure as \<open>Internal\<close>.
\<close>

theorem NodeUnpublishVolume_unmounts:
  "yields (NodeUnpublishVolume (make_nodeServer env it iam maxv d nodeID cipher) req) (unpublish_post req)"
  by (rule node.unpublish_yields)

text \<open>
  The completion of the secrets: it calls nothing outside; it fails only when neither the secret
  nor the attributes have an endpoint, and panics only for a nil map; and the result has, for every
  key, the value of the secret, or for the three completed keys the other source's.
\<close>

theorem publish_secrets_spec:
  "yields (publish_secrets iam attrib sm)
     (\<lambda>r es. es = [] \<and>
        (case r of
           Ret sm' \<Rightarrow> \<exists>m m'. sm = Some m \<and> sm' = Some m' \<and> mget m' ''cosEndpoint'' \<noteq> [] \<and>
             (\<forall>k. mget m' k =
                (if mget m k \<noteq> [] then mget m k
                 else if k = ''cosEndpoint'' \<or> k = ''locationConstraint'' then mget attrib k
                 else if k = ''iamEndpoint'' then iam else []))
         | Fail e \<Rightarrow> sm \<noteq> None \<and> mget (deref sm) ''cosEndpoint'' = [] \<and> mget attrib ''cosEndpoint'' = [] \<and>
             e = Status InvalidArgument ''S3 Service endpoint not provided''
         | Panic _ \<Rightarrow> sm = None))"
  using publish_secrets_yields [of iam attrib sm] unfolding mount_secrets_def if_cancel .

text \<open>
  C25. A request without secrets, which protobuf decodes as a nil map, is never mounted and never
  refused for that: without volume id, target or capability it is an invalid argument with no call
  made; otherwise the mount point is checked, an error of that check is the answer, as
  \<open>Internal\<close>, and once the check has passed the handler panics at its first assignment to the nil
  map, with no other call made.
\<close>

theorem NodePublishVolume_nil_secrets:
  "run_state (NodePublishVolume (make_nodeServer env it iam maxv d nodeID cipher) (req\<lparr>np_secrets := None\<rparr>)) h =
     (if np_volume_id req = [] then (Fail (Status InvalidArgument ''Volume ID missing in request''), h)
      else if np_target_path req = [] then (Fail (Status InvalidArgument ''Target path missing in request''), h)
      else if np_capability req = None
        then (Fail (Status InvalidArgument ''Volume capability missing in request''), h)
      else
        (case run_state (su_CheckMount env (np_target_path req)) h of
           (Ret _, h') \<Rightarrow> (Panic ''assignment to entry in nil map'', h')
         | (Fail e, h') \<Rightarrow> (Fail (Status Internal (error_text e)), h')
         | (Panic p, h') \<Rightarrow> (Panic p, h')))"
proof -
  have secrets: "publish_secrets iam attrib None = panic nil_map" for iam attrib
    by (simp add: publish_secrets_def fill_key_def set_key_def attempt_return)
  have "ns_Stats (make_nodeServer env it iam maxv d nodeID cipher) = DriverStatsUtils env"
    "CheckMount (DriverStatsUtils env) = su_CheckMount env"
    by (simp_all add: make_nodeServer_def DriverStatsUtils_def)
  then show ?thesis
    by (simp add: NodePublishVolume_def Let_def secrets run_attempt nil_map_def
        split: option.split prod.split outcome.split)
qed

text \<open>
  C34. \<open>NodeGetVolumeStats\<close> reports a path whose statistics cannot be read as an abnormal volume,
  never as an error. Otherwise the total is the capacity of the persistent volume when that fits an
  integer, else the size of the file system; the used bytes are what the resource configuration
  answered for the bucket and the key of the secret of the volume; the inodes are the file
  system's. It fails only for a request without volume id or path, or after the statistics of the
  path were read, and panics only for a reply that lacks the part that is read.
\<close>

theorem NodeGetVolumeStats_reports:
  "yields (NodeGetVolumeStats (make_nodeServer env it iam maxv d nodeID cipher) req)
     (\<lambda>r es.
       if ns_volume_id req = [] \<or> ns_volume_path req = [] then es = [] \<and> (\<exists>m. r = Fail (Status InvalidArgument m))
       else
         (case es of
            Fs (EvFsInfo path x) # es' \<Rightarrow>
              path = ns_volume_path req \<and>
              (case x of
                 Inl e \<Rightarrow> es' = [] \<and> r = Ret \<lparr> stats_usage = [], stats_condition = Some (True, error_text e) \<rparr>
               | Inr (_, cap, _, inodes, free, used) \<Rightarrow>
                   list_all (\<lambda>e. is_k8s e \<or> is_cos e \<and> \<not> is_delete e) es' \<and>
                   (case r of
                      Ret resp \<Rightarrow>
                        \<exists>p n. K8s (EvGetPV (ns_volume_id req) (Inr p)) \<in> set es' \<and> used_bytes (ns_volume_id req) n es' \<and>
                          resp =
                            \<lparr> stats_usage =
                                [\<lparr> usage_available = 0,
                                   usage_total = (case qty_int64 (pv_capacity p) of Some c \<Rightarrow> c | None \<Rightarrow> cap),
                                   usage_used = n, usage_unit = BYTES \<rparr>,
                                 \<lparr> usage_available = free, usage_total = inodes, usage_used = used,
                                   usage_unit = INODES \<rparr>],
                              stats_condition = None \<rparr>
                    | Fail _ \<Rightarrow> True
                    | Panic _ \<Rightarrow> list_ex (lacks_part (ns_volume_id req)) es'))
          | _ \<Rightarrow> False))"
proof -
  have stats: "ns_Stats (make_nodeServer env it iam maxv d nodeID cipher) = DriverStatsUtils env"
    by (simp add: make_nodeServer_def)
  have cap: "yields (GetTotalCapacityFromPV (DriverStatsUtils env) v)
      (\<lambda>r es. (\<forall>e \<in> set es. is_k8s e) \<and> (\<forall>p. r \<noteq> Panic p) \<and>
         (\<forall>q. r = Ret q \<longrightarrow> (\<exists>p. K8s (EvGetPV v (Inr p)) \<in> set es \<and> q = pv_capacity p)))" for v
    by (rule yields_mono [OF su.capacity]) (metis last_in_set)
  show ?thesis
  proof (cases "ns_volume_id req = [] \<or> ns_volume_path req = []")
    case True
    then show ?thesis by (auto simp: NodeGetVolumeStats_def Let_def intro!: yields_fail)
  next
    case False
    have later: "used_bytes v n es' \<Longrightarrow> used_bytes v n (es @ es')" for v n es es'
      by (rule used_bytes_mono) auto
    from False show ?thesis
      unfolding NodeGetVolumeStats_def Let_def stats
      by (auto simp: usage_post_def list_all_iff intro!: yields_fail yields_ret yields_attempt [OF su.fs_info]
          yields_attempt_fail [OF cap] yields_attempt_fail [OF su.usage]) (use later in blast)+
  qed
qed

end
