(* ===== verification/DriverSetup.thy ===== *)
theory DriverSetup
  imports Controller NodeServer
begin

section \<open>The driver, its servers and the identity service\<close>

text \<open>
  \<^verbatim>\<open>pkg/driver/s3-driver.go\<close>, \<^verbatim>\<open>identityserver.go\<close>, \<^verbatim>\<open>server.go\<close> and
  \<^verbatim>\<open>fileOps.go\<close>: how the driver is put together for its mode, how the
  gRPC server is set up on its socket, and what is done when a step fails. The servers
  point back at the driver for its name, version and IAM endpoint, which are fixed before the
  servers are made; the model copies them. \<open>url.Parse\<close> is a parameter. A fatal log entry ends the
  process, which is a panic of the model.
\<close>


subsection \<open>Identity service\<close>

text \<open>The embedded pointer to the driver, which may be nil: its name and version.\<close>

record identityServer =
  id_driver :: "(string \<times> string) option"

definition GetPluginInfo :: "identityServer \<Rightarrow> (string \<times> string) res" where
  "GetPluginInfo ids =
     (case id_driver ids of
        None \<Rightarrow> Inl (Status InvalidArgument ''Driver not configured'')
      | Some (name, version) \<Rightarrow> Inr (name, version))"

definition GetPluginCapabilities :: "plugin_cap list" where
  "GetPluginCapabilities = [CONTROLLER_SERVICE, VOLUME_ACCESSIBILITY_CONSTRAINTS]"

definition Probe :: "unit res" where
  "Probe = Inr ()"


subsection \<open>The driver\<close>

record S3Driver =
  d_name :: string
  d_version :: string
  d_mode :: string
  d_endpoint :: string
  d_iamEndpoint :: string
  d_ids :: "identityServer option"
  d_ns :: "nodeServer option"
  d_cs :: "controllerServer option"
  d_vcap :: "access_mode list"
  d_cscap :: "controller_cap list"
  d_nscap :: "node_cap list"

definition AddVolumeCapabilityAccessModes :: "S3Driver \<Rightarrow> access_mode list \<Rightarrow> S3Driver" where
  "AddVolumeCapabilityAccessModes driver vc = driver\<lparr> d_vcap := foldl (\<lambda>vca c. vca @ [c]) [] vc \<rparr>"

definition AddControllerServiceCapabilities :: "S3Driver \<Rightarrow> controller_cap list \<Rightarrow> S3Driver" where
  "AddControllerServiceCapabilities driver cl = driver\<lparr> d_cscap := foldl (\<lambda>csc c. csc @ [c]) [] cl \<rparr>"

definition AddNodeServiceCapabilities :: "S3Driver \<Rightarrow> node_cap list \<Rightarrow> S3Driver" where
  "AddNodeServiceCapabilities driver nl = driver\<lparr> d_nscap := foldl (\<lambda>nsc n. nsc @ [n]) [] nl \<rparr>"

definition Setups3Driver :: "string \<Rightarrow> string \<Rightarrow> string \<Rightarrow> S3Driver res" where
  "Setups3Driver mode name version =
     (if name = [] then Inl (Plain ''driver name missing'')
      else Inr \<lparr> d_name = name, d_version = version, d_mode = mode, d_endpoint = [], d_iamEndpoint = [],
                 d_ids = None, d_ns = None, d_cs = None, d_vcap = [], d_cscap = [], d_nscap = [] \<rparr>)"

definition newIdentityServer :: "S3Driver \<Rightarrow> identityServer" where
  "newIdentityServer d = \<lparr> id_driver = Some (d_name d, d_version d) \<rparr>"

definition max_volumes :: "string \<Rightarrow> int outcome" where
  "max_volumes s =
     (if s \<noteq> [] then
        (case parse_int64 s of
           Inl err \<Rightarrow> Fail (Plain (num_error_text ''ParseInt'' s err))
         | Inr n \<Rightarrow> Ret n)
      else Ret DefaultVolumesPerNode)"

definition cipher_suite :: "ClusterNodeData \<Rightarrow> string" where
  "cipher_suite d = (if contains (to_lower (cn_os d)) ''ubuntu'' then ''AESGCM'' else [])"

definition newNodeServer :: "env \<Rightarrow> iteration \<Rightarrow> S3Driver \<Rightarrow> string \<Rightarrow> nodeServer outcome run" where
  "newNodeServer env it d nodeID =
     do {
       nodeName \<leftarrow> os_Getenv env KubeNodeName;
       (if nodeName = [] then fail (Plain ''KUBE_NODE_NAME env variable not set'')
        else
          attempt (GetClusterNodeData (DriverStatsUtils env) nodeName) fail (\<lambda>nodeData. do {
            maxVolumesPerNodeStr \<leftarrow> os_Getenv env MaxVolumesPerNodeEnv;
            attempt (State_Monad.return (max_volumes maxVolumesPerNodeStr)) fail (\<lambda>maxVolumesPerNode.
              ret (make_nodeServer env it (d_iamEndpoint d) maxVolumesPerNode nodeData nodeID (cipher_suite nodeData)))
          }))
     }"

text \<open>
  \<open>NewS3CosDriver\<close>; the code returns the driver beside an error, which its caller does not use.
\<close>

definition NewS3CosDriver :: "env \<Rightarrow> iteration \<Rightarrow> S3Driver \<Rightarrow> string \<Rightarrow> string \<Rightarrow> S3Driver outcome run" where
  "NewS3CosDriver env it driver nodeID endpoint =
     attempt (GetEndpoints (DriverStatsUtils env)) fail (\<lambda>(iamEP, _).
       (let driver = driver\<lparr> d_iamEndpoint := iamEP, d_endpoint := endpoint \<rparr>;
            driver = AddVolumeCapabilityAccessModes driver volumeCapabilities;
            driver = AddControllerServiceCapabilities driver controllerCapabilities;
            driver = AddNodeServiceCapabilities driver nodeServerCapabilities;
            driver = driver\<lparr> d_ids := Some (newIdentityServer driver) \<rparr>
        in if d_mode driver = ''controller'' then
             ret (driver\<lparr> d_cs := Some (newControllerServer env (d_iamEndpoint driver)) \<rparr>)
           else if d_mode driver = ''node'' then
             attempt (newNodeServer env it driver nodeID) fail (\<lambda>ns. ret (driver\<lparr> d_ns := Some ns \<rparr>))
           else if d_mode driver = ''controller-node'' then
             (let driver = driver\<lparr> d_cs := Some (newControllerServer env (d_iamEndpoint driver)) \<rparr>
              in attempt (newNodeServer env it driver nodeID) fail (\<lambda>ns. ret (driver\<lparr> d_ns := Some ns \<rparr>)))
           else ret driver))"


subsection \<open>The gRPC server\<close>

text \<open>What \<open>url.Parse\<close> gives of the endpoint.\<close>

record url =
  url_scheme :: string
  url_path :: string
  url_host :: string

text \<open>
  Owner and permissions of the socket. The permissions are always \<open>filePermission\<close>, so that the
  event of \<open>Chmod\<close> does not record them.
\<close>

record socketPermission =
  Chown :: "string \<Rightarrow> int \<Rightarrow> int \<Rightarrow> unit outcome run"
  Chmod :: "string \<Rightarrow> unit outcome run"

definition opsSocketPermission :: "env \<Rightarrow> socketPermission" where
  "opsSocketPermission env = \<lparr> Chown = os_Chown env, Chmod = os_Chmod env \<rparr>"

definition setupSidecar :: "env \<Rightarrow> string \<Rightarrow> socketPermission \<Rightarrow> unit outcome run" where
  "setupSidecar env addr ops =
     do {
       g \<leftarrow> os_Getenv env ''SIDECAR_GROUP_ID'';
       let groupSt = (if g = [] then ''0'' else g);
       (case parse_int64 groupSt of
          Inl err \<Rightarrow> fail (Plain (num_error_text ''Atoi'' groupSt err))
        | Inr gid \<Rightarrow>
            attempt (Chown ops addr (- 1) gid) fail (\<lambda>_. attempt (Chmod ops addr) fail ret))
     }"

text \<open>The services that are registered for a mode, in order.\<close>

definition services :: "string \<Rightarrow> string list" where
  "services mode =
     ''identity'' #
     (if mode = ''controller'' then [''controller'']
      else if mode = ''node'' then [''node'']
      else if mode = ''controller-node'' then [''controller'', ''node''] else [])"

fun register_all :: "string list \<Rightarrow> unit run" where
  "register_all [] = State_Monad.return ()"
| "register_all (s # ss) = State_Monad.bind (tell (Net (EvRegister s))) (\<lambda>_. register_all ss)"

definition listen_on :: "env \<Rightarrow> string \<Rightarrow> string \<Rightarrow> string \<Rightarrow> unit outcome run" where
  "listen_on env mode scheme addr =
     attempt (net_Listen env scheme addr)
       (\<lambda>_. fail (Plain ''failed to listen GRPC server''))
       (\<lambda>_. do {
          isNode \<leftarrow> os_Getenv env IsNodeServer;
          attempt (if isNode = ''true'' then setupSidecar env addr (opsSocketPermission env) else ret ()) fail
            (\<lambda>_. State_Monad.bind (register_all (services mode)) (\<lambda>_. ret ()))
        })"

definition Setup :: "env \<Rightarrow> (string \<Rightarrow> url res) \<Rightarrow> string \<Rightarrow> string \<Rightarrow> unit outcome run" where
  "Setup env parse mode endpoint =
     (case parse endpoint of
        Inl err \<Rightarrow> fail err
      | Inr u \<Rightarrow>
          (if url_scheme u = ''unix'' then
             attempt (os_Remove env (url_path u))
               (\<lambda>err. if IsNotExist err then listen_on env mode (url_scheme u) (url_path u) else fail err)
               (\<lambda>_. listen_on env mode (url_scheme u) (url_path u))
           else if url_scheme u = ''tcp'' then listen_on env mode (url_scheme u) (url_host u)
           else fail (Plain ''endpoint scheme not supported'')))"

definition exit_1 :: string where
  "exit_1 = ''exit status 1''"

text \<open>The goroutine that serves; an error of \<open>Serve\<close> is only logged.\<close>

definition serve :: "env \<Rightarrow> (string \<Rightarrow> url res) \<Rightarrow> string \<Rightarrow> string \<Rightarrow> unit outcome run" where
  "serve env parse mode endpoint =
     attempt (Setup env parse mode endpoint)
       (\<lambda>_. panic exit_1)
       (\<lambda>_. attempt (server_Serve env) (\<lambda>_. ret ()) ret)"

text \<open>
  The server object: its mode, the counter of its wait group, and whether the pointer \<open>server\<close> has
  been set, which \<open>Setup\<close> does when everything before has succeeded. \<open>Start\<close> adds one to the
  counter and starts the goroutine, \<open>Wait\<close> returns when the counter is zero; \<open>serve\<close> does not
  change the counter. \<open>Stop\<close> and \<open>ForceStop\<close> call the methods of the server.
\<close>

record nonBlockingGRPCServer =
  g_mode :: string
  g_wg :: nat
  g_server :: bool

definition NewNonBlockingGRPCServer :: "string \<Rightarrow> nonBlockingGRPCServer" where
  "NewNonBlockingGRPCServer mode = \<lparr> g_mode = mode, g_wg = 0, g_server = False \<rparr>"

definition Start ::
    "env \<Rightarrow> (string \<Rightarrow> url res) \<Rightarrow> nonBlockingGRPCServer \<Rightarrow> string
     \<Rightarrow> (unit outcome \<times> nonBlockingGRPCServer) run" where
  "Start env parse s endpoint =
     (let s = s\<lparr> g_wg := g_wg s + 1 \<rparr>
      in State_Monad.bind (serve env parse (g_mode s) endpoint) (\<lambda>r. State_Monad.return (r, s\<lparr> g_server := (r = Ret ()) \<rparr>)))"

definition Wait :: "nonBlockingGRPCServer \<Rightarrow> unit option" where
  "Wait s = (if g_wg s = 0 then Some () else None)"

definition Stop :: "nonBlockingGRPCServer \<Rightarrow> unit outcome run" where
  "Stop s =
     (if g_server s then State_Monad.bind (tell (Net (EvStopServer True))) (\<lambda>_. ret ()) else panic nil_deref)"

definition ForceStop :: "nonBlockingGRPCServer \<Rightarrow> unit outcome run" where
  "ForceStop s =
     (if g_server s then State_Monad.bind (tell (Net (EvStopServer False))) (\<lambda>_. ret ()) else panic nil_deref)"

text \<open>
  \<open>Run\<close> after all that its goroutine does; the result is nothing when the caller waits for ever.
\<close>

definition Run :: "env \<Rightarrow> (string \<Rightarrow> url res) \<Rightarrow> S3Driver \<Rightarrow> unit outcome option run" where
  "Run env parse driver =
     do {
       (r, s) \<leftarrow> Start env parse (NewNonBlockingGRPCServer (d_mode driver)) (d_endpoint driver);
       State_Monad.return (case r of Panic p \<Rightarrow> Some (Panic p) | _ \<Rightarrow> map_option Ret (Wait s))
     }"

text \<open>The interceptor of every call logs and passes on.\<close>

definition logGRPC :: "('a \<Rightarrow> 'b outcome run) \<Rightarrow> 'a \<Rightarrow> 'b outcome run" where
  "logGRPC handler req = attempt (handler req) fail ret"


subsection \<open>Properties\<close>

lemma getenv_yields: "yields (os_Getenv env k) (\<lambda>v es. es = [Proc (EvGetenv k v)])"
  unfolding os_Getenv_def by (rule yields_ask) simp

lemma foldl_snoc: "foldl (\<lambda>vs v. vs @ [v]) acc xs = acc @ xs"
  by (induction xs arbitrary: acc) simp_all

definition node_server_for :: "env \<Rightarrow> iteration \<Rightarrow> string \<Rightarrow> string \<Rightarrow> nodeServer \<Rightarrow> bool" where
  "node_server_for env it iam nodeID ns \<longleftrightarrow>
     (\<exists>maxv d. ns = make_nodeServer env it iam maxv d nodeID (cipher_suite d) \<and>
        - 9223372036854775808 \<le> maxv \<and> maxv \<le> 9223372036854775807)"

lemma max_volumes_range:
  "max_volumes s = Ret n \<Longrightarrow> - 9223372036854775808 \<le> n \<and> n \<le> 9223372036854775807"
  by (auto simp: max_volumes_def DefaultVolumesPerNode_def split: if_splits sum.splits dest: parse_int64_range)

lemma max_volumes_no_panic: "max_volumes s \<noteq> Panic p"
  by (auto simp: max_volumes_def split: sum.split)

lemma max_volumes_Ret: "max_volumes s = Ret n \<Longrightarrow> if s = [] then n = 0 else parse_int64 s = Inr n"
  by (auto simp: max_volumes_def DefaultVolumesPerNode_def split: sum.splits if_splits)

lemma newNodeServer_yields:
  "yields (newNodeServer env it d nodeID)
     (\<lambda>r es. case r of
        Ret ns \<Rightarrow> node_server_for env it (d_iamEndpoint d) nodeID ns
      | Fail e \<Rightarrow> True
      | Panic _ \<Rightarrow> False)"
proof -
  have data: "yields (GetClusterNodeData (DriverStatsUtils env) n) (\<lambda>r es. \<forall>p. r \<noteq> Panic p)" for n
    by (rule yields_mono [OF su.node_data]) simp
  have tail: "yields (attempt (State_Monad.return (max_volumes s)) fail (\<lambda>maxVolumesPerNode.
      ret (make_nodeServer env it (d_iamEndpoint d) maxVolumesPerNode x nodeID (cipher_suite x))))
     (\<lambda>r es. case r of Ret ns \<Rightarrow> node_server_for env it (d_iamEndpoint d) nodeID ns | Fail e \<Rightarrow> True | Panic _ \<Rightarrow> False)"
    for s x
    unfolding attempt_return
    using max_volumes_range [of s] max_volumes_no_panic [of s]
    by (cases "max_volumes s") (auto simp: node_server_for_def intro!: yields_ret yields_fail, blast)
  show ?thesis
    unfolding newNodeServer_def
    by (rule yields_bind [OF getenv_yields])
       (auto intro!: yields_fail yields_attempt_fail [OF data] yields_bind [OF getenv_yields] yields_mono [OF tail])
qed

lemma NewS3CosDriver_no_panic:
  "yields (NewS3CosDriver env it driver nodeID endpoint) (\<lambda>r es. \<forall>p. r \<noteq> Panic p)"
  unfolding NewS3CosDriver_def Let_def
  by (rule yields_attempt_fail [OF su.endpoints])
     (auto intro!: yields_ret yields_attempt_fail [OF newNodeServer_yields])

text \<open>
  C31. The driver that \<open>NewS3CosDriver\<close> returns has an identity service with its name and version,
  the endpoint of the cluster, the capabilities of the driver, a controller service exactly in the
  modes \<open>controller\<close> and \<open>controller-node\<close> and a node service exactly in the modes \<open>node\<close> and
  \<open>controller-node\<close>; both services have the same IAM endpoint. An unknown mode is no error and has
  neither service. The setup never panics.
\<close>

theorem NewS3CosDriver_modes:
  "yields (NewS3CosDriver env it driver nodeID endpoint)
     (\<lambda>r es. case r of
        Ret d \<Rightarrow>
          d_name d = d_name driver \<and> d_version d = d_version driver \<and> d_mode d = d_mode driver \<and>
          d_endpoint d = endpoint \<and>
          d_ids d = Some \<lparr> id_driver = Some (d_name driver, d_version driver) \<rparr> \<and>
          d_vcap d = [SINGLE_NODE_WRITER] \<and> d_cscap d = [CREATE_DELETE_VOLUME] \<and>
          d_nscap d = [GET_VOLUME_STATS, VOLUME_CONDITION, VOLUME_MOUNT_GROUP] \<and>
          d_cs d = (if d_mode driver = ''controller'' \<or> d_mode driver = ''controller-node''
                    then Some (newControllerServer env (d_iamEndpoint d)) else d_cs driver) \<and>
          (if d_mode driver = ''node'' \<or> d_mode driver = ''controller-node''
           then \<exists>ns. d_ns d = Some ns \<and> node_server_for env it (d_iamEndpoint d) nodeID ns
           else d_ns d = d_ns driver)
      | Fail _ \<Rightarrow> True
      | Panic _ \<Rightarrow> False)"
proof -
  have ep: "yields (GetEndpoints (DriverStatsUtils env)) (\<lambda>r es. \<forall>p. r \<noteq> Panic p)"
    by (rule yields_mono [OF su.endpoints]) simp
  show ?thesis
    unfolding NewS3CosDriver_def Let_def
    by (rule yields_attempt_fail [OF ep])
       (auto simp: AddVolumeCapabilityAccessModes_def AddControllerServiceCapabilities_def
          AddNodeServiceCapabilities_def foldl_snoc volumeCapabilities_def controllerCapabilities_def
          nodeServerCapabilities_def newIdentityServer_def
          intro!: yields_ret yields_attempt_fail [OF newNodeServer_yields])
qed

text \<open>
  The node server refuses to start without \<open>KUBE_NODE_NAME\<close>, before any call to the cluster,
  and with a \<open>MAX_VOLUMES_PER_NODE\<close> that is not a 64-bit integer; a negative one is accepted. The
  cipher suite is set exactly for nodes whose operating system image contains \<open>ubuntu\<close> in any case.
\<close>

theorem newNodeServer_checks:
  "yields (newNodeServer env it d nodeID)
     (\<lambda>r es. case r of
        Ret ns \<Rightarrow> \<exists>n s. n \<noteq> [] \<and> Proc (EvGetenv KubeNodeName n) \<in> set es \<and>
          Proc (EvGetenv MaxVolumesPerNodeEnv s) \<in> set es \<and>
          (if s = [] then nc_MaxVolumesPerNode (ns_Config ns) = 0
           else parse_int64 s = Inr (nc_MaxVolumesPerNode (ns_Config ns))) \<and>
          (nc_TLSCipherSuite (ns_Config ns) = ''AESGCM'' \<or> nc_TLSCipherSuite (ns_Config ns) = []) \<and>
          nc_NodeID (ns_Config ns) = nodeID \<and> nc_KnownS3FSOptions (ns_Config ns) = Some GetKnownS3FSOptions
      | Fail _ \<Rightarrow> es = [Proc (EvGetenv KubeNodeName [])] \<or>
          (\<exists>n. n \<noteq> [] \<and> Proc (EvGetenv KubeNodeName n) \<in> set es)
      | Panic _ \<Rightarrow> False)"
proof -
  have data: "yields (GetClusterNodeData (DriverStatsUtils env) n) (\<lambda>r es. \<forall>p. r \<noteq> Panic p)" for n
    by (rule yields_mono [OF su.node_data]) simp
  have suite: "cipher_suite x = ''AESGCM'' \<or> cipher_suite x = []" for x
    by (simp add: cipher_suite_def)
  show ?thesis
    unfolding newNodeServer_def attempt_return
  proof (rule yields_bind [OF getenv_yields], goal_cases)
    case (1 n es)
    note start = 1
    show ?case
    proof (cases "n = []")
      case True
      then show ?thesis using 1 by (auto intro: yields_fail)
    next
      case False
      then show ?thesis
        unfolding if_not_P [OF False]
      proof (intro yields_attempt_fail [OF data] yields_bind [OF getenv_yields], goal_cases)
        case (1 x es2 s es3)
        with start have ev: "Proc (EvGetenv KubeNodeName n) \<in> set (es @ es2 @ es3)"
            "Proc (EvGetenv MaxVolumesPerNodeEnv s) \<in> set (es @ es2 @ es3)" by auto
        show ?case
        proof (cases "max_volumes s")
          case (Ret m)
          show ?thesis
            unfolding Ret outcome.case
            by (rule yields_ret, unfold outcome.case append_Nil2, rule exI [of _ n], rule exI [of _ s])
               (use max_volumes_Ret [OF Ret] suite [of x] ev False in \<open>auto simp: make_nodeServer_def\<close>)
        next
          case (Fail e)
          show ?thesis
            unfolding Fail outcome.case
            by (rule yields_fail, unfold outcome.case append_Nil2, rule disjI2, rule exI [of _ n]) (use ev False in auto)
        qed (simp add: max_volumes_no_panic)
      qed (use start in auto)
    qed
  qed
qed

fun registered :: "event \<Rightarrow> string option" where
  "registered (Net (EvRegister s)) = Some s"
| "registered _ = None"

lemma register_all_yields:
  "yields (register_all ss) (\<lambda>_ es. es = map (\<lambda>s. Net (EvRegister s)) ss)"
  by (induction ss)
     (auto intro!: yields_return yields_bind [OF yields_tell [where Q = "\<lambda>_ es. es = [Net (EvRegister s)]" for s]]
       elim: yields_mono)

fun listens :: "event \<Rightarrow> (string \<times> string) option" where
  "listens (Net (EvListen scheme addr _)) = Some (scheme, addr)"
| "listens _ = None"

text \<open>The requests that give the socket its group and its permissions.\<close>

definition socket_set_up :: "string \<Rightarrow> event list \<Rightarrow> bool" where
  "socket_set_up addr es \<longleftrightarrow>
     (\<exists>g gid. parse_int64 (if g = [] then ''0'' else g) = Inr gid \<and>
        es = [Proc (EvGetenv ''SIDECAR_GROUP_ID'' g), Fs (EvChown addr (- 1) gid (Inr ())),
              Fs (EvChmod addr (Inr ()))])"

text \<open>
  All that a set-up that succeeds does from the listening on: in a node server the socket is set up
  next, and the services are registered last.
\<close>

definition ready_log :: "string \<Rightarrow> string \<Rightarrow> string \<Rightarrow> event list \<Rightarrow> bool" where
  "ready_log mode scheme addr es \<longleftrightarrow>
     (\<exists>v side.
        es = [Net (EvListen scheme addr (Inr ())), Proc (EvGetenv ''IS_NODE_SERVER'' v)] @ side @
             map (\<lambda>s. Net (EvRegister s))
               (''identity'' # (if mode = ''controller'' then [''controller'']
                  else if mode = ''node'' then [''node'']
                  else if mode = ''controller-node'' then [''controller'', ''node''] else [])) \<and>
        (if v = ''true'' then socket_set_up addr side else side = []))"

text \<open>What \<open>setupSidecar\<close> relies on: one call each, with the reply as its result.\<close>

locale socket_permission =
  fixes ops :: socketPermission
  assumes chown: "yields (Chown ops n u g) (\<lambda>r es. \<exists>x. es = [Fs (EvChown n u g x)] \<and> r = of_res x)"
    and chmod: "yields (Chmod ops n) (\<lambda>r es. \<exists>x. es = [Fs (EvChmod n x)] \<and> r = of_res x)"
begin

lemma setupSidecar_yields:
  "yields (setupSidecar env addr ops)
     (\<lambda>r es. (\<forall>e \<in> set es. removes e = None \<and> registered e = None \<and> listens e = None) \<and>
        (case r of Ret _ \<Rightarrow> socket_set_up addr es | Fail _ \<Rightarrow> True | Panic _ \<Rightarrow> False))"
  unfolding setupSidecar_def Let_def
  by (rule yields_bind [OF getenv_yields])
     (auto simp: socket_set_up_def split: sum.split intro!: yields_fail yields_ret yields_attempt_fail [OF chown]
        yields_attempt_fail [OF chmod])

end

interpretation sp: socket_permission "opsSocketPermission env" for env
  by unfold_locales (simp_all add: opsSocketPermission_def os_Chown_def os_Chmod_def yields_reply)

definition listen_post :: "string \<Rightarrow> string \<Rightarrow> string \<Rightarrow> unit outcome \<Rightarrow> event list \<Rightarrow> bool" where
  "listen_post mode scheme addr r es \<longleftrightarrow>
     (\<forall>e \<in> set es. removes e = None \<and> (listens e = None \<or> listens e = Some (scheme, addr))) \<and>
     (case r of
        Ret _ \<Rightarrow> ready_log mode scheme addr es
      | Fail _ \<Rightarrow> \<forall>e \<in> set es. registered e = None
      | Panic _ \<Rightarrow> False)"

lemma listen_on_yields: "yields (listen_on env mode scheme addr) (listen_post mode scheme addr)"
proof -
  have side: "yields (if b then setupSidecar env addr (opsSocketPermission env) else ret ())
     (\<lambda>r es. (\<forall>e \<in> set es. removes e = None \<and> registered e = None \<and> listens e = None) \<and>
        (case r of Ret _ \<Rightarrow> if b then socket_set_up addr es else es = [] | Fail _ \<Rightarrow> True | Panic _ \<Rightarrow> False))" for b
    by (cases b) (auto intro: yields_ret yields_mono [OF sp.setupSidecar_yields])
  have node: "IsNodeServer = ''IS_NODE_SERVER''"
    by (simp add: IsNodeServer_def)
  have ready: "listen_post mode scheme addr (Ret ())
      ([Net (EvListen scheme addr (Inr ())), Proc (EvGetenv IsNodeServer v)] @ es @
       map (\<lambda>s. Net (EvRegister s)) (services mode))"
    if "\<forall>e \<in> set es. removes e = None \<and> registered e = None \<and> listens e = None"
      and "if v = ''true'' then socket_set_up addr es else es = []" for v es
    unfolding listen_post_def outcome.case ready_log_def services_def node using that by auto
  have serving: "yields (State_Monad.bind (register_all (services mode)) (\<lambda>_. ret ()))
      (\<lambda>r es'. listen_post mode scheme addr r
         ([Net (EvListen scheme addr (Inr ())), Proc (EvGetenv IsNodeServer v)] @ es @ es'))"
    if "\<forall>e \<in> set es. removes e = None \<and> registered e = None \<and> listens e = None"
      and "if v = ''true'' then socket_set_up addr es else es = []" for v es
    using ready [OF that] by (intro yields_bind [OF register_all_yields] yields_ret) simp
  show ?thesis
    unfolding listen_on_def net_Listen_def
  proof (rule yields_attempt [OF yields_reply], goal_cases)
    case (1 x es)
    then have es: "es = [Net (EvListen scheme addr (Inr ()))]" by auto
    show ?case
    proof (rule yields_bind [OF getenv_yields], rule yields_attempt_fail [OF side], goal_cases)
      case (1 v es1 x es2)
      then show ?case using serving [of es2 v] by (simp add: es)
    qed (auto simp: es listen_post_def)
  qed (auto simp: listen_post_def intro!: yields_fail)
qed

definition setup_post ::
    "(string \<Rightarrow> url res) \<Rightarrow> string \<Rightarrow> string \<Rightarrow> unit outcome \<Rightarrow> event list \<Rightarrow> bool" where
  "setup_post parse mode endpoint r es \<longleftrightarrow>
     list_all (\<lambda>e.
        (case removes e of
           None \<Rightarrow> True
         | Some p \<Rightarrow> \<exists>u. parse endpoint = Inr u \<and> url_scheme u = ''unix'' \<and> p = url_path u) \<and>
        (case listens e of
           None \<Rightarrow> True
         | Some (scheme, addr) \<Rightarrow>
             \<exists>u. parse endpoint = Inr u \<and> url_scheme u = scheme \<and>
               (scheme = ''unix'' \<and> addr = url_path u \<or> scheme = ''tcp'' \<and> addr = url_host u))) es \<and>
     (case r of
        Ret _ \<Rightarrow>
          \<exists>u. parse endpoint = Inr u \<and>
            (if url_scheme u = ''unix''
             then \<exists>x es'. es = Fs (EvRemove (url_path u) x) # es' \<and>
               (case x of Inr _ \<Rightarrow> True | Inl e \<Rightarrow> IsNotExist e) \<and> ready_log mode ''unix'' (url_path u) es'
             else url_scheme u = ''tcp'' \<and> ready_log mode ''tcp'' (url_host u) es)
      | Fail _ \<Rightarrow> list_all (\<lambda>e. registered e = None) es
      | Panic _ \<Rightarrow> False)"

lemma listen_setup:
  assumes post: "listen_post mode scheme addr r es" and u: "parse endpoint = Inr u" "url_scheme u = scheme"
    and ends: "scheme = ''unix'' \<and> addr = url_path u \<and>
        pre = [Fs (EvRemove (url_path u) x)] \<and> (case x of Inr _ \<Rightarrow> True | Inl e \<Rightarrow> IsNotExist e) \<or>
      scheme = ''tcp'' \<and> addr = url_host u \<and> pre = []"
  shows "setup_post parse mode endpoint r (pre @ es)"
  using post u ends
  by (cases r) (auto simp: setup_post_def listen_post_def list_all_iff split: option.split)

lemma yields_Setup: "yields (Setup env parse mode endpoint) (setup_post parse mode endpoint)"
proof (cases "parse endpoint")
  case (Inl e)
  then show ?thesis by (auto simp: Setup_def setup_post_def intro: yields_fail)
next
  case (Inr u)
  consider "url_scheme u = ''unix''" | "url_scheme u = ''tcp''" | "url_scheme u \<noteq> ''unix''" "url_scheme u \<noteq> ''tcp''"
    by blast
  then show ?thesis
  proof cases
    case 1
    have go: "yields (listen_on env mode ''unix'' (url_path u))
        (\<lambda>r es. setup_post parse mode endpoint r ([Fs (EvRemove (url_path u) x)] @ es))"
      if "case x of Inr _ \<Rightarrow> True | Inl e \<Rightarrow> IsNotExist e" for x
      by (rule yields_mono [OF listen_on_yields], erule listen_setup [where u = u]) (use Inr 1 that in simp_all)
    have stop: "setup_post parse mode endpoint (Fail e) [Fs (EvRemove (url_path u) (Inl e))]" for e
      using Inr 1 by (simp add: setup_post_def)
    show ?thesis
      unfolding Setup_def Inr sum.case os_Remove_def if_P [OF 1]
      by (rule yields_attempt [OF yields_reply]) (use 1 go stop in \<open>auto intro!: yields_fail\<close>)
  next
    case 2
    then show ?thesis
      by (simp add: Setup_def Inr, intro yields_mono [OF listen_on_yields])
         (drule listen_setup [where u = u and pre = "[]" and parse = parse and endpoint = endpoint],
          use Inr in simp_all)
  next
    case 3
    then show ?thesis by (auto simp: Setup_def Inr setup_post_def intro: yields_fail)
  qed
qed

text \<open>
  C32. The gRPC server listens only on the parsed endpoint, which is a unix or tcp one, and removes
  nothing but the old socket file of a unix endpoint. A set-up that succeeds has made exactly these
  calls: the removal, for a unix endpoint, which succeeded or found no file; the listening; the
  question whether this is a node server; then, if it is, the group and the permissions of the socket,
  both set without an error; and, after all that, the registration of the identity service and of the
  services of the mode, in this order. A set-up that fails has registered nothing; it never panics.
\<close>

theorem Setup_registers:
  "yields (Setup env parse mode endpoint)
     (\<lambda>r es.
        list_all (\<lambda>e.
          (case removes e of
             None \<Rightarrow> True
           | Some p \<Rightarrow> \<exists>u. parse endpoint = Inr u \<and> url_scheme u = ''unix'' \<and> p = url_path u) \<and>
          (case listens e of
             None \<Rightarrow> True
           | Some (scheme, addr) \<Rightarrow>
               \<exists>u. parse endpoint = Inr u \<and> url_scheme u = scheme \<and>
                 (scheme = ''unix'' \<and> addr = url_path u \<or> scheme = ''tcp'' \<and> addr = url_host u))) es \<and>
        (case r of
           Ret _ \<Rightarrow>
             \<exists>u. parse endpoint = Inr u \<and>
               (if url_scheme u = ''unix''
                then \<exists>x es'. es = Fs (EvRemove (url_path u) x) # es' \<and>
                  (case x of Inr _ \<Rightarrow> True | Inl e \<Rightarrow> IsNotExist e) \<and> ready_log mode ''unix'' (url_path u) es'
                else url_scheme u = ''tcp'' \<and> ready_log mode ''tcp'' (url_host u) es)
         | Fail _ \<Rightarrow> list_all (\<lambda>e. registered e = None) es
         | Panic _ \<Rightarrow> False))"
  using yields_Setup [of env parse mode endpoint] unfolding setup_post_def .

lemma setup_post_registered:
  assumes "setup_post parse mode endpoint (Ret ()) es"
  shows "\<exists>es'. es = es' @ map (\<lambda>s. Net (EvRegister s)) (services mode)"
  using assms by (auto simp: setup_post_def ready_log_def services_def split: if_splits)

text \<open>The end of the set-up and the serving: services registered, in order, and then \<open>Serve\<close>.\<close>

definition served_log :: "string \<Rightarrow> event list \<Rightarrow> bool" where
  "served_log mode es \<longleftrightarrow>
     (\<exists>es' x. es = es' @ map (\<lambda>s. Net (EvRegister s)) (services mode) @ [Net (EvServe x)])"

definition serve_post :: "string \<Rightarrow> unit outcome \<Rightarrow> event list \<Rightarrow> bool" where
  "serve_post mode r es \<longleftrightarrow>
     (case r of
        Ret _ \<Rightarrow> served_log mode es
      | Fail _ \<Rightarrow> False
      | Panic p \<Rightarrow> p = exit_1 \<and> list_all (\<lambda>e. registered e = None) es)"

lemma serve_yields: "yields (serve env parse mode endpoint) (serve_post mode)"
  unfolding serve_def server_Serve_def
proof (rule yields_attempt [OF yields_Setup], goal_cases)
  case (1 x es)
  then obtain es' where es: "es = es' @ map (\<lambda>s. Net (EvRegister s)) (services mode)"
    using setup_post_registered by (metis (full_types) old.unit.exhaust)
  have "serve_post mode (Ret ()) (es @ [Net (EvServe x)])" for x
    unfolding serve_post_def served_log_def es by auto
  then show ?case
    by (auto intro!: yields_attempt [OF yields_reply] yields_ret)
next
  case (2 e es)
  then show ?case by (auto simp: setup_post_def serve_post_def intro: yields_panic)
qed (simp add: setup_post_def)

text \<open>
  \<open>Run\<close> never returns: nothing takes back what \<open>Start\<close> adds to the wait group, so that the
  process waits for ever once the services have been registered and the server has served, even when
  that ended with an error; the process ends only when the server cannot be set up, and then nothing
  has been registered.
\<close>

lemma Run_never_returns:
  "yields (Run env parse driver)
     (\<lambda>r es. case r of
        None \<Rightarrow> served_log (d_mode driver) es
      | Some r' \<Rightarrow> r' = Panic exit_1 \<and> list_all (\<lambda>e. registered e = None) es)"
  unfolding Run_def Start_def Let_def NewNonBlockingGRPCServer_def
  by (auto simp: Wait_def serve_post_def intro!: yields_bind [OF serve_yields] yields_return
      split: outcome.splits)

end
