(* ===== verification/DriverProcess.thy ===== *)
theory DriverProcess
  imports DriverSetup
begin

section \<open>The driver process: cmd/main.go\<close>

text \<open>
  Command line, environment, the endpoint for metrics and health, and \<open>main\<close>. The package flag is
  part of the standard library and modelled as it reads the arguments; the flags that klog registers
  are parameters: \<open>kind\<close> says which there are and whether they are boolean, \<open>accepts\<close> which values
  they take. The logger is not modelled. The end of the process is a panic with its exit status.
\<close>


subsection \<open>The command line\<close>

record Options =
  o_ServerMode :: string
  o_Endpoint :: string
  o_NodeID :: string
  o_MetricsAddress :: string

definition default_options :: Options where
  "default_options =
     \<lparr> o_ServerMode = ''controller'', o_Endpoint = ''unix:/tmp/csi.sock'', o_NodeID = ''host01'',
       o_MetricsAddress = ''0.0.0.0:9080'' \<rparr>"

definition set_flag :: "string \<Rightarrow> string \<Rightarrow> Options \<Rightarrow> Options option" where
  "set_flag name val options =
     (if name = ''endpoint'' then Some (options\<lparr> o_Endpoint := val \<rparr>)
      else if name = ''servermode'' then Some (options\<lparr> o_ServerMode := val \<rparr>)
      else if name = ''nodeid'' then Some (options\<lparr> o_NodeID := val \<rparr>)
      else if name = ''metrics-address'' then Some (options\<lparr> o_MetricsAddress := val \<rparr>)
      else None)"

datatype flag_kind = BoolFlag | ValueFlag

text \<open>An argument \<open>-name\<close>, \<open>--name\<close>, \<open>-name=val\<close> or \<open>--name=val\<close>.\<close>

definition flag_text :: "string \<Rightarrow> string" where
  "flag_text s = (if s ! 1 = CHR ''-'' then drop 2 s else drop 1 s)"

definition flag_parts :: "string \<Rightarrow> string \<times> string option" where
  "flag_parts t =
     (if CHR ''='' \<in> set t
      then (takeWhile (\<lambda>c. c \<noteq> CHR ''='') t, Some (tl (dropWhile (\<lambda>c. c \<noteq> CHR ''='') t)))
      else (t, None))"

text \<open>
  \<open>flag.Parse\<close> stops at the first argument that is not a flag. A malformed or unknown flag ends the
  process with status 2, a request for help with 0.
\<close>

fun parse_flags ::
    "(string \<Rightarrow> flag_kind option) \<Rightarrow> (string \<Rightarrow> string \<Rightarrow> bool) \<Rightarrow> Options \<Rightarrow> string list \<Rightarrow> nat + Options" where
  "parse_flags kind accepts options [] = Inr options"
| "parse_flags kind accepts options (s # args) =
     (if length s < 2 \<or> s ! 0 \<noteq> CHR ''-'' \<or> s = ''--'' then Inr options
      else if flag_text s = [] \<or> hd (flag_text s) = CHR ''-'' \<or> hd (flag_text s) = CHR ''='' then Inl 2
      else
        (case flag_parts (flag_text s) of
           (name, val) \<Rightarrow>
             (case set_flag name [] options of
                Some _ \<Rightarrow>
                  (case val of
                     Some v \<Rightarrow> parse_flags kind accepts (the (set_flag name v options)) args
                   | None \<Rightarrow>
                       (case args of
                          [] \<Rightarrow> Inl 2
                        | v # args' \<Rightarrow> parse_flags kind accepts (the (set_flag name v options)) args'))
              | None \<Rightarrow>
                  (case kind name of
                     None \<Rightarrow> Inl (if name = ''help'' \<or> name = ''h'' then 0 else 2)
                   | Some BoolFlag \<Rightarrow>
                       (if accepts name (case val of Some v \<Rightarrow> v | None \<Rightarrow> ''true'')
                        then parse_flags kind accepts options args else Inl 2)
                   | Some ValueFlag \<Rightarrow>
                       (case val of
                          Some v \<Rightarrow> (if accepts name v then parse_flags kind accepts options args else Inl 2)
                        | None \<Rightarrow>
                            (case args of
                               [] \<Rightarrow> Inl 2
                             | v # args' \<Rightarrow>
                                 (if accepts name v then parse_flags kind accepts options args' else Inl 2)))))))"

definition getOptions ::
    "(string \<Rightarrow> flag_kind option) \<Rightarrow> (string \<Rightarrow> string \<Rightarrow> bool) \<Rightarrow> string list \<Rightarrow> nat + Options" where
  "getOptions kind accepts args = parse_flags kind accepts default_options args"


subsection \<open>The process\<close>

definition getEnv :: "env \<Rightarrow> string \<Rightarrow> string run" where
  "getEnv env key = os_Getenv env (to_upper key)"

definition getConfigBool :: "env \<Rightarrow> string \<Rightarrow> bool \<Rightarrow> bool run" where
  "getConfigBool env envKey defaultConf =
     do {
       val \<leftarrow> getEnv env envKey;
       State_Monad.return
         (if val \<noteq> [] then (case parse_bool val of Some envBool \<Rightarrow> envBool | None \<Rightarrow> defaultConf) else defaultConf)
     }"

definition checkCosCsiMounterSocketHealth :: "env \<Rightarrow> unit outcome run" where
  "checkCosCsiMounterSocketHealth env =
     do {
       s \<leftarrow> os_Getenv env COSCSIMounterSocketPathEnv;
       let socketPath = (if s = [] then COSCSIMounterSocketPath else s);
       attempt (net_Dial env socketPath) fail (\<lambda>_. attempt (conn_Close env socketPath) fail ret)
     }"

text \<open>The status and the body that the health endpoint answers, and the endpoints of a mode.\<close>

definition socket_health :: "env \<Rightarrow> (nat \<times> string) outcome run" where
  "socket_health env =
     attempt (checkCosCsiMounterSocketHealth env)
       (\<lambda>err. ret (500, ''unhealthy: '' @ error_text err @ [CHR 0x0A]))
       (\<lambda>_. ret (200, ''ok''))"

definition metrics_endpoints :: "string \<Rightarrow> string list" where
  "metrics_endpoints mode =
     ''/metrics'' # (if contains mode ''node'' then [''/cos-csi-mounter/socket-health''] else [])"

fun handle_all :: "string list \<Rightarrow> unit run" where
  "handle_all [] = State_Monad.return ()"
| "handle_all (p # ps) = State_Monad.bind (tell (Net (EvHandle p))) (\<lambda>_. handle_all ps)"

text \<open>The goroutine only logs the error with which the server of the endpoints ends.\<close>

definition serveMetrics :: "env \<Rightarrow> string \<Rightarrow> string \<Rightarrow> unit run" where
  "serveMetrics env mode metricsAddress =
     do {
       _ \<leftarrow> handle_all (metrics_endpoints mode);
       _ \<leftarrow> http_ListenAndServe env metricsAddress;
       State_Monad.return ()
     }"

definition serverSetup :: "env \<Rightarrow> iteration \<Rightarrow> (string \<Rightarrow> url res) \<Rightarrow> Options \<Rightarrow> unit outcome option run" where
  "serverSetup env it parse options =
     (case Setups3Driver (o_ServerMode options) CSIDriverName VendorVersion of
        Inl _ \<Rightarrow> State_Monad.return (Some (Panic exit_1))
      | Inr csiDriver \<Rightarrow>
          do {
            r \<leftarrow> NewS3CosDriver env it csiDriver (o_NodeID options) (o_Endpoint options);
            (case r of
               Ret driver \<Rightarrow>
                 do { _ \<leftarrow> serveMetrics env (o_ServerMode options) (o_MetricsAddress options); Run env parse driver }
             | Fail _ \<Rightarrow> State_Monad.return (Some (Panic exit_1))
             | Panic p \<Rightarrow> State_Monad.return (Some (Panic p)))
          })"

definition exit_status :: "nat \<Rightarrow> string" where
  "exit_status n = ''exit status '' @ dec_nat n"

text \<open>\<open>main\<close>: nothing is returned when the process never ends.\<close>

definition driver_main ::
    "env \<Rightarrow> iteration \<Rightarrow> (string \<Rightarrow> url res) \<Rightarrow> (string \<Rightarrow> flag_kind option) \<Rightarrow> (string \<Rightarrow> string \<Rightarrow> bool)
     \<Rightarrow> string list \<Rightarrow> unit outcome option run" where
  "driver_main env it parse kind accepts args =
     (case getOptions kind accepts args of
        Inl code \<Rightarrow> State_Monad.return (Some (Panic (exit_status code)))
      | Inr options \<Rightarrow>
          do {
            debugTrace \<leftarrow> getConfigBool env ''DEBUG_TRACE'' False;
            r \<leftarrow> serverSetup env it parse options;
            State_Monad.return
              (case r of
                 None \<Rightarrow> None
               | Some (Panic p) \<Rightarrow> Some (Panic p)
               | Some _ \<Rightarrow> Some (Panic (exit_status 0)))
          })"


subsection \<open>Reading the command line\<close>

text \<open>One flag of the driver in its two forms.\<close>

datatype flag_form = Joined | Separate

fun render_flag :: "flag_form \<times> string \<times> string \<Rightarrow> string list" where
  "render_flag (Joined, name, val) = [''--'' @ name @ ''='' @ val]"
| "render_flag (Separate, name, val) = [''-'' @ name, val]"

definition own_flags :: "string list" where
  "own_flags = [''endpoint'', ''servermode'', ''nodeid'', ''metrics-address'']"

lemma flag_parts_joined: "CHR ''='' \<notin> set n \<Longrightarrow> flag_parts (n @ CHR ''='' # v) = (n, Some v)"
  by (induction n) (auto simp: flag_parts_def)

lemma flag_parts_separate: "CHR ''='' \<notin> set n \<Longrightarrow> flag_parts n = (n, None)"
  by (simp add: flag_parts_def)

lemma own_flag:
  assumes "name \<in> set own_flags"
  shows "name \<noteq> []" "hd name \<noteq> CHR ''-''" "hd name \<noteq> CHR ''=''" "CHR ''='' \<notin> set name"
    "\<exists>options'. set_flag name v options = Some options'"
  using assms by (auto simp: own_flags_def set_flag_def)

lemma parse_own_flag:
  assumes "name \<in> set own_flags"
  shows "parse_flags kind accepts options (render_flag (form, name, val) @ args) =
    parse_flags kind accepts (the (set_flag name val options)) args"
proof -
  note own = own_flag [OF assms]
  obtain c n where name: "name = c # n" "c \<noteq> CHR ''-''" "c \<noteq> CHR ''=''"
    using own by (cases name) auto
  obtain o1 where set1: "set_flag name [] options = Some o1"
    using own(5) by blast
  show ?thesis
  proof (cases form)
    case Joined
    have "flag_text (''--'' @ name @ ''='' @ val) = name @ CHR ''='' # val"
      by (simp add: flag_text_def)
    with flag_parts_joined [OF own(4), of val] set1 name show ?thesis
      by (simp add: Joined)
  next
    case Separate
    have "flag_text (''-'' @ name) = name"
      using name by (simp add: flag_text_def)
    with flag_parts_separate [OF own(4)] set1 name show ?thesis
      by (simp add: Separate)
  qed
qed

text \<open>
  Any sequence of the driver's own flags, each in either form, is read back, the last value of a
  name winning, and what follows the first other argument is not read.
\<close>

lemma getOptions_render:
  assumes "list_all (\<lambda>(_, name, _). name \<in> set own_flags) flags" and "rest = [] \<or> hd rest = ''--''"
  shows "getOptions kind accepts (concat (map render_flag flags) @ rest) =
    Inr (foldl (\<lambda>options (_, name, val). the (set_flag name val options)) default_options flags)"
proof -
  have "parse_flags kind accepts options (concat (map render_flag flags) @ rest) =
    Inr (foldl (\<lambda>options (_, name, val). the (set_flag name val options)) options flags)" for options
    using assms
  proof (induction flags arbitrary: options)
    case Nil
    then show ?case by (cases rest) auto
  next
    case (Cons f flags)
    then show ?case
      by (cases f) (simp del: parse_flags.simps render_flag.simps add: parse_own_flag)
  qed
  then show ?thesis by (simp add: getOptions_def)
qed


subsection \<open>Properties\<close>

text \<open>
  C37. The health endpoint answers 200 exactly when the socket of the mounter service accepts a
  connection that also closes cleanly, the same test that every mount makes before its request, and
  500 otherwise.
\<close>

theorem socket_health_matches_mount:
  "checkCosCsiMounterSocketHealth env = State_Monad.bind (mounter_socket env) (isGRPCServerAvailable env) \<and>
   yields (socket_health env)
     (\<lambda>r es. case r of
        Ret (code, body) \<Rightarrow>
          (\<exists>path. code = 200 \<and> Net (EvDial path (Inr ())) \<in> set es \<and> Net (EvConnClose path (Inr ())) \<in> set es) \<or>
          (\<exists>path e. code = 500 \<and>
             (Net (EvDial path (Inl e)) \<in> set es \<or> Net (EvConnClose path (Inl e)) \<in> set es))
      | Fail _ \<Rightarrow> False
      | Panic _ \<Rightarrow> False)"
proof
  show "checkCosCsiMounterSocketHealth env = State_Monad.bind (mounter_socket env) (isGRPCServerAvailable env)"
    by (simp add: checkCosCsiMounterSocketHealth_def mounter_socket_def isGRPCServerAvailable_def Let_def)
  have check: "yields (checkCosCsiMounterSocketHealth env)
     (\<lambda>r es. case r of
        Ret _ \<Rightarrow> \<exists>path. Net (EvDial path (Inr ())) \<in> set es \<and> Net (EvConnClose path (Inr ())) \<in> set es
      | Fail _ \<Rightarrow> \<exists>path e. Net (EvDial path (Inl e)) \<in> set es \<or> Net (EvConnClose path (Inl e)) \<in> set es
      | Panic _ \<Rightarrow> False)"
    unfolding checkCosCsiMounterSocketHealth_def net_Dial_def conn_Close_def Let_def
    by (rule yields_bind [OF getenv_yields])
       (auto intro!: yields_ret yields_attempt_fail [OF yields_reply])
  show "yields (socket_health env)
     (\<lambda>r es. case r of
        Ret (code, body) \<Rightarrow>
          (\<exists>path. code = 200 \<and> Net (EvDial path (Inr ())) \<in> set es \<and> Net (EvConnClose path (Inr ())) \<in> set es) \<or>
          (\<exists>path e. code = 500 \<and>
             (Net (EvDial path (Inl e)) \<in> set es \<or> Net (EvConnClose path (Inl e)) \<in> set es))
      | Fail _ \<Rightarrow> False
      | Panic _ \<Rightarrow> False)"
    unfolding socket_health_def
    by (rule yields_attempt [OF check]) (auto intro!: yields_ret, blast+)
qed

lemma handle_all_yields: "yields (handle_all ps) (\<lambda>_ es. es = map (\<lambda>p. Net (EvHandle p)) ps)"
  by (induction ps)
     (auto intro!: yields_return yields_bind [OF yields_tell [where Q = "\<lambda>_ es. es = [Net (EvHandle p)]" for p]]
       elim: yields_mono)

lemma serveMetrics_yields:
  "yields (serveMetrics env mode addr)
     (\<lambda>_ es. \<exists>x. es = map (\<lambda>p. Net (EvHandle p)) (metrics_endpoints mode) @ [Net (EvListenAndServe addr x)])"
  unfolding serveMetrics_def http_ListenAndServe_def
  by (rule yields_bind [OF handle_all_yields], rule yields_bind [OF yields_reply]) (auto intro: yields_return)

text \<open>Making the driver only asks the cluster and the environment; the mode is that of the option.\<close>

definition asks_only :: "event list \<Rightarrow> bool" where
  "asks_only es \<longleftrightarrow> (\<forall>e \<in> set es. is_k8s e \<or> is_proc e)"

lemma asks_only_registered: "asks_only es \<Longrightarrow> list_all (\<lambda>e. registered e = None) es"
proof -
  have "registered e = None" if "is_k8s e \<or> is_proc e" for e
    using that by (cases e) auto
  then show "asks_only es \<Longrightarrow> list_all (\<lambda>e. registered e = None) es"
    by (simp add: asks_only_def list_all_iff)
qed

lemma asks_only_simps:
  "asks_only []" "asks_only (e # es) \<longleftrightarrow> (is_k8s e \<or> is_proc e) \<and> asks_only es"
  "asks_only (es @ es') \<longleftrightarrow> asks_only es \<and> asks_only es'"
  by (auto simp: asks_only_def)

lemma asks_only_k8s: "\<forall>e \<in> set es. is_k8s e \<Longrightarrow> asks_only es"
  by (simp add: asks_only_def)

lemma newNodeServer_asks:
  "yields (newNodeServer env it d nodeID) (\<lambda>r es. asks_only es \<and> (\<forall>p. r \<noteq> Panic p))"
  unfolding newNodeServer_def attempt_return
  by (rule yields_bind [OF getenv_yields])
     (auto simp: asks_only_simps asks_only_k8s max_volumes_no_panic split: outcome.split
       intro!: yields_fail yields_ret yields_attempt_fail [OF su.node_data] yields_bind [OF getenv_yields])

lemma NewS3CosDriver_asks:
  "yields (NewS3CosDriver env it driver nodeID endpoint)
     (\<lambda>r es. asks_only es \<and> (\<forall>p. r \<noteq> Panic p) \<and> (\<forall>d. r = Ret d \<longrightarrow> d_mode d = d_mode driver))"
  unfolding NewS3CosDriver_def Let_def
  by (rule yields_attempt_fail [OF su.endpoints])
     (auto simp: asks_only_simps asks_only_k8s AddVolumeCapabilityAccessModes_def AddControllerServiceCapabilities_def
        AddNodeServiceCapabilities_def
      intro!: yields_ret yields_attempt_fail [OF newNodeServer_asks])

definition ends_log :: "string \<Rightarrow> string \<Rightarrow> unit outcome option \<Rightarrow> event list \<Rightarrow> bool" where
  "ends_log mode addr r es \<longleftrightarrow>
     (case r of
        None \<Rightarrow>
          \<exists>pre es' x y. es = pre @ map (\<lambda>p. Net (EvHandle p)) (metrics_endpoints mode) @ [Net (EvListenAndServe addr x)] @
            es' @ map (\<lambda>s. Net (EvRegister s)) (services mode) @ [Net (EvServe y)]
      | Some r' \<Rightarrow> r' = Panic exit_1 \<and> list_all (\<lambda>e. registered e = None) es)"

lemma ends_log_prefix: "ends_log mode addr r es \<Longrightarrow> asks_only pre \<Longrightarrow> ends_log mode addr r (pre @ es)"
proof (cases r)
  case None
  assume "ends_log mode addr r es"
  then obtain pre' es' x y where
    "es = pre' @ map (\<lambda>p. Net (EvHandle p)) (metrics_endpoints mode) @ [Net (EvListenAndServe addr x)] @
       es' @ map (\<lambda>s. Net (EvRegister s)) (services mode) @ [Net (EvServe y)]"
    by (auto simp: ends_log_def None)
  then show "ends_log mode addr r (pre @ es)"
    unfolding ends_log_def None option.case
    by - (rule exI [of _ "pre @ pre'"], simp only: append_assoc, blast)
next
  case (Some r')
  assume "ends_log mode addr r es" "asks_only pre"
  then show "ends_log mode addr r (pre @ es)"
    using asks_only_registered [of pre] by (simp add: ends_log_def Some)
qed

lemma serverSetup_yields:
  "yields (serverSetup env it parse options) (ends_log (o_ServerMode options) (o_MetricsAddress options))"
proof -
  have quiet: "list_all (\<lambda>e. registered e = None) (map (\<lambda>p. Net (EvHandle p)) ps @ [Net (EvListenAndServe addr x)])" for ps addr x
    by (simp add: list_all_iff)
  have run: "yields (do { _ \<leftarrow> serveMetrics env (d_mode driver) addr; Run env parse driver }) (ends_log (d_mode driver) addr)"
    for addr driver
  proof (rule yields_bind [OF serveMetrics_yields], elim exE, rule yields_mono [OF Run_never_returns])
    fix u es x and r :: "unit outcome option" and es'
    assume es: "es = map (\<lambda>p. Net (EvHandle p)) (metrics_endpoints (d_mode driver)) @ [Net (EvListenAndServe addr x)]"
      and post: "case r of None \<Rightarrow> served_log (d_mode driver) es'
        | Some r' \<Rightarrow> r' = Panic exit_1 \<and> list_all (\<lambda>e. registered e = None) es'"
    show "ends_log (d_mode driver) addr r (es @ es')"
    proof (cases r)
      case None
      with post obtain es'' y where es': "es' = es'' @ map (\<lambda>s. Net (EvRegister s)) (services (d_mode driver)) @ [Net (EvServe y)]"
        by (auto simp: served_log_def)
      show ?thesis
        unfolding ends_log_def None option.case es es'
        by (rule exI [of _ "[]"], rule exI [of _ es''], rule exI [of _ x], rule exI [of _ y]) simp
    next
      case (Some r')
      with post quiet [of _ addr x] show ?thesis by (simp add: ends_log_def es)
    qed
  qed
  have named: "CSIDriverName \<noteq> []"
    by (simp add: CSIDriverName_def)
  show ?thesis
    unfolding serverSetup_def Setups3Driver_def if_not_P [OF named] sum.case
  proof (rule yields_bind [OF NewS3CosDriver_asks], goal_cases)
    case (1 r es)
    show ?case
    proof (cases r)
      case (Ret driver)
      with 1 have "d_mode driver = o_ServerMode options" and asks: "asks_only es" by simp_all
      then show ?thesis
        using ends_log_prefix [OF _ asks]
        by (simp add: Ret, intro yields_mono [OF run [of driver, unfolded \<open>d_mode driver = _\<close>]]) blast
    next
      case (Fail e)
      with 1 show ?thesis
        by (auto simp: ends_log_def asks_only_registered intro!: yields_return)
    qed (use 1 in simp)
  qed
qed

text \<open>
  C36. The process of the driver never ends well. Its \<open>main\<close> waits for ever exactly when it has handed
  all endpoints of its mode to the metrics server and started it, then registered the services of the
  mode, then served them, whatever that ended with: after a service has been registered it never exits.
  It exits with status 1 only when the driver or the server cannot be set up, with no service
  registered; and before anything else with 2 or, for help, 0 when the command line is wrong.
\<close>

theorem main_never_ends_well:
  "yields (driver_main env it parse kind accepts args)
     (\<lambda>r es.
       case getOptions kind accepts args of
         Inl code \<Rightarrow> r = Some (Panic (exit_status code)) \<and> es = []
       | Inr options \<Rightarrow>
           (case r of
              None \<Rightarrow>
                \<exists>pre es' x y. es = pre @ map (\<lambda>p. Net (EvHandle p)) (metrics_endpoints (o_ServerMode options)) @
                  [Net (EvListenAndServe (o_MetricsAddress options) x)] @
                  es' @ map (\<lambda>s. Net (EvRegister s)) (services (o_ServerMode options)) @ [Net (EvServe y)]
            | Some r' \<Rightarrow> r' = Panic (exit_status 1) \<and> list_all (\<lambda>e. registered e = None) es))"
proof (cases "getOptions kind accepts args")
  case (Inl code)
  then show ?thesis
    by (auto simp: driver_main_def intro: yields_return)
next
  case (Inr options)
  have config: "yields (getConfigBool env k b) (\<lambda>_ es. asks_only es)" for k b
    unfolding getConfigBool_def getEnv_def
    by (rule yields_bind [OF getenv_yields]) (rule yields_return, simp add: asks_only_def)
  have exit: "exit_1 = exit_status 1"
    by code_simp
  have result: "(case r of None \<Rightarrow> None | Some (Panic p) \<Rightarrow> Some (Panic p) | Some _ \<Rightarrow> Some (Panic (exit_status 0))) = r"
    if "ends_log m a r es" for m a r es
    using that by (auto simp: ends_log_def split: option.splits)
  have "yields (driver_main env it parse kind accepts args)
      (ends_log (o_ServerMode options) (o_MetricsAddress options))"
    unfolding driver_main_def Inr sum.case
    by (rule yields_bind [OF config], rule yields_bind [OF serverSetup_yields], rule yields_return)
       (simp add: result ends_log_prefix)
  then show ?thesis
    unfolding Inr sum.case ends_log_def exit .
qed

end
