(* ===== verification/ServerUtils.thy ===== *)
theory ServerUtils
  imports MounterRequest
begin

section \<open>The mounter service, shared parts: cos-csi-mounter/server/utils.go\<close>

text \<open>
  The request of the driver, the checks on paths that it names, and the parser of its arguments.
  The two kinds of arguments (\<open>ServerS3fs\<close>, \<open>ServerRclone\<close>) share the contract
  \<open>mounter_args\<close>, from which the contract \<open>args_parser\<close> of the request handler follows.
\<close>

subsection \<open>The request\<close>

text \<open>The raw message \<open>Args\<close> is kept as the value it is the text of; \<open>None\<close> is the empty one.\<close>

record MountRequest =
  mr_Path :: string
  mr_Bucket :: string
  mr_Mounter :: string
  mr_Args :: "json option"

definition no_MountRequest :: MountRequest where
  "no_MountRequest = \<lparr> mr_Path = [], mr_Bucket = [], mr_Mounter = [], mr_Args = None \<rparr>"

definition MountRequest_fields :: "MountRequest fields" where
  "MountRequest_fields = string_fields
     [(''path'', mr_Path, \<lambda>v r. r\<lparr>mr_Path := v\<rparr>),
      (''bucket'', mr_Bucket, \<lambda>v r. r\<lparr>mr_Bucket := v\<rparr>),
      (''mounter'', mr_Mounter, \<lambda>v r. r\<lparr>mr_Mounter := v\<rparr>)]
     @ [(''args'', \<lambda>v r. Some (r\<lparr>mr_Args := Some v\<rparr>))]"

text \<open>
  \<open>Decode\<close> into a target with \<open>DisallowUnknownFields\<close>: an empty message is the end of the file.
\<close>

definition strictDecodeForUnknownFields :: "string \<Rightarrow> 'r struct \<Rightarrow> 'r \<Rightarrow> json option \<Rightarrow> 'r res" where
  "strictDecodeForUnknownFields name table zero data =
     (case data of
        None \<Rightarrow> Inl (Plain ''EOF'')
      | Some v \<Rightarrow> decode_struct name True (string_fields table) zero v)"


subsection \<open>Paths\<close>

definition safeMountDirs :: "string list" where
  "safeMountDirs = [''/var/data/kubelet/pods'', ''/var/lib/kubelet/pods'']"

definition safeMounterConfigDir :: string where
  "safeMounterConfigDir = ''/var/lib/coscsi-config''"

text \<open>\<open>filepath.Abs\<close>, which asks for the working directory when the path is not rooted.\<close>

definition filepath_Abs :: "env \<Rightarrow> string \<Rightarrow> string outcome run" where
  "filepath_Abs env path =
     (if is_rooted path then ret (clean path)
      else attempt (os_Getwd env) fail (\<lambda>wd. ret (path_join [wd, path])))"

definition pathValidator :: "env \<Rightarrow> string \<Rightarrow> unit outcome run" where
  "pathValidator env targetPath =
     attempt (filepath_Abs env targetPath)
       (\<lambda>err. fail (Plain (sprintf [''failed to resolve absolute mount path: '', error_text err])))
       (\<lambda>absPath.
          if \<not> has_prefix absPath (safeMountDirs ! 0) \<and> \<not> has_prefix absPath (safeMountDirs ! 1)
          then fail (Plain (sprintf [''bad value for target path \"'', targetPath, ''\"'']))
          else ret ())"

definition isBoolString :: "string \<Rightarrow> bool" where
  "isBoolString s = (let s' = trim_space (to_lower s) in s' = ''true'' \<or> s' = ''false'')"

definition fileExists :: "env \<Rightarrow> string \<Rightarrow> bool outcome run" where
  "fileExists env path =
     attempt (filepath_Abs env path)
       (\<lambda>err. fail (Plain (sprintf [''failed to resolve absolute path: '', error_text err])))
       (\<lambda>absPath.
          if \<not> has_prefix absPath safeMounterConfigDir
          then fail (Plain (sprintf [''path '', absPath, '' is outside the safe directory'']))
          else
            attempt (os_Stat env absPath)
              (\<lambda>err. if IsNotExist err then ret False else fail err)
              (\<lambda>isDir. ret (\<not> isDir)))"


subsection \<open>Checks on the arguments\<close>

text \<open>
  The methods \<open>Validate\<close> are sequences of checks, each of which returns its error. Most of them
  are one of two: a value that is given must be a boolean (\<open>check_bool\<close>) or an integer
  (\<open>check_int\<close>).
\<close>

fun in_order :: "unit outcome run list \<Rightarrow> unit outcome run" where
  "in_order [] = ret ()"
| "in_order (c # cs) = attempt c fail (\<lambda>_. in_order cs)"

definition check_that :: "bool \<Rightarrow> string list \<Rightarrow> unit outcome run" where
  "check_that ok message = (if ok then ret () else fail (Plain (sprintf message)))"

definition check_bool :: "string \<Rightarrow> string \<Rightarrow> unit outcome run" where
  "check_bool name v =
     (if v \<noteq> []
      then check_that (isBoolString v) [''cannot convert value of '', name, '' into boolean: '', v]
      else ret ())"

definition check_int :: "string \<Rightarrow> string \<Rightarrow> unit outcome run" where
  "check_int name v =
     (if v \<noteq> []
      then (case parse_int64 v of
              Inl e \<Rightarrow> fail (Plain (sprintf [''cannot convert value of '', name, '' into integer: '',
                                            num_error_text ''Atoi'' v e]))
            | Inr _ \<Rightarrow> ret ())
      else ret ())"

text \<open>The check of the credentials, with the same messages for every error.\<close>

definition check_credentials :: "env \<Rightarrow> string \<Rightarrow> string \<Rightarrow> unit outcome run" where
  "check_credentials env what path =
     attempt (fileExists env path)
       (\<lambda>_. fail (Plain (sprintf [''error checking '', what, '' existence''])))
       (\<lambda>exists. check_that exists [what, '' not found''])"


subsection \<open>Properties of the checks\<close>

text \<open>
  What the checks find out is seen in the events: \<open>resolves es p a\<close>, the path \<open>p\<close> was resolved
  to \<open>a\<close>; \<open>safe_mount_path es p\<close>, it is below one of the safe directories; \<open>credentials_seen\<close>,
  a file that is no directory was there.
\<close>

definition resolves :: "event list \<Rightarrow> string \<Rightarrow> string \<Rightarrow> bool" where
  "resolves es p a \<longleftrightarrow>
     (if is_rooted p then a = clean p
      else list_ex (\<lambda>e. case e of Proc (EvGetwd (Inr wd)) \<Rightarrow> a = path_join [wd, p] | _ \<Rightarrow> False) es)"

definition safe_mount_path :: "event list \<Rightarrow> string \<Rightarrow> bool" where
  "safe_mount_path es p \<longleftrightarrow>
     (\<exists>a. resolves es p a \<and> list_ex (has_prefix a) safeMountDirs)"

definition credentials_seen :: "event list \<Rightarrow> string \<Rightarrow> bool" where
  "credentials_seen es p \<longleftrightarrow>
     (\<exists>a. resolves es p a \<and> has_prefix a safeMounterConfigDir \<and> Fs (EvStat a (Inr False)) \<in> set es)"

fun looks :: "event \<Rightarrow> bool" where
  "looks (Fs (EvStat _ _)) = True"
| "looks (Proc (EvGetwd _)) = True"
| "looks _ = False"

lemma resolves_append: "resolves es p a \<Longrightarrow> resolves (es' @ es @ es'') p a"
  by (auto simp: resolves_def split: if_splits)

lemma safe_mount_path_append: "safe_mount_path es p \<Longrightarrow> safe_mount_path (es' @ es @ es'') p"
  unfolding safe_mount_path_def using resolves_append by blast

lemma credentials_seen_append: "credentials_seen es p \<Longrightarrow> credentials_seen (es' @ es @ es'') p"
  unfolding credentials_seen_def using resolves_append by fastforce

lemma filepath_Abs_yields:
  "yields (filepath_Abs env p)
     (\<lambda>r es. list_all looks es \<and> (case r of Ret a \<Rightarrow> resolves es p a | Fail _ \<Rightarrow> True | Panic _ \<Rightarrow> False))"
  unfolding filepath_Abs_def os_Getwd_def
  by (auto simp: resolves_def intro!: yields_ret yields_attempt_fail [OF yields_reply])

lemma pathValidator_yields:
  "yields (pathValidator env p)
     (\<lambda>r es. list_all looks es \<and> (case r of Ret _ \<Rightarrow> safe_mount_path es p | Fail _ \<Rightarrow> True | Panic _ \<Rightarrow> False))"
  unfolding pathValidator_def
  by (rule yields_attempt [OF filepath_Abs_yields])
     (auto simp: safe_mount_path_def safeMountDirs_def intro!: yields_ret yields_fail)

lemma fileExists_yields:
  "yields (fileExists env p)
     (\<lambda>r es. list_all looks es \<and> (case r of Ret b \<Rightarrow> b \<longrightarrow> credentials_seen es p | Fail _ \<Rightarrow> True | Panic _ \<Rightarrow> False))"
  unfolding fileExists_def os_Stat_def
  by (rule yields_attempt [OF filepath_Abs_yields])
     (auto simp: credentials_seen_def resolves_def intro!: yields_ret yields_fail yields_attempt [OF yields_reply]
        split: if_splits)

lemma check_credentials_yields:
  "yields (check_credentials env what p)
     (\<lambda>r es. list_all looks es \<and> (case r of Ret _ \<Rightarrow> credentials_seen es p | Fail _ \<Rightarrow> True | Panic _ \<Rightarrow> False))"
  unfolding check_credentials_def check_that_def
  by (rule yields_attempt [OF fileExists_yields]) (auto intro!: yields_ret yields_fail)

text \<open>A pure check makes no calls, and fails with an error or passes.\<close>

definition pure_check :: "unit outcome run \<Rightarrow> bool" where
  "pure_check c \<longleftrightarrow> c = ret () \<or> (\<exists>e. c = fail e)"

lemma pure_checks [simp]:
  "pure_check (ret ())" "pure_check (fail e)"
  "pure_check (check_that ok ms)" "pure_check (check_bool name v)" "pure_check (check_int name v)"
  by (auto simp: pure_check_def check_that_def check_bool_def check_int_def split: sum.split)

lemma in_order_pure:
  "list_all pure_check cs \<Longrightarrow> in_order cs = ret () \<or> (\<exists>e. in_order cs = fail e)"
  by (induction cs) (auto simp: pure_check_def)

lemma ret_not_fail [simp]: "ret x \<noteq> (fail e :: 'a outcome run)" "(fail e :: 'a outcome run) \<noteq> ret x"
proof -
  have "run_state (ret x) [] \<noteq> run_state (fail e :: 'a outcome run) []" by simp
  then show "ret x \<noteq> (fail e :: 'a outcome run)" "(fail e :: 'a outcome run) \<noteq> ret x" by metis+
qed

lemma in_order_ret: "list_all pure_check cs \<Longrightarrow> in_order cs = ret () \<longleftrightarrow> (\<forall>c \<in> set cs. c = ret ())"
  by (induction cs) (auto simp: pure_check_def)

lemma in_order_pure_yields:
  assumes "list_all pure_check cs"
  shows "yields (in_order cs)
     (\<lambda>r es. es = [] \<and> (case r of Ret _ \<Rightarrow> True | Fail _ \<Rightarrow> True | Panic _ \<Rightarrow> False))"
  using in_order_pure [OF assms] by (auto intro!: yields_ret yields_fail)

text \<open>When a sequence of pure checks passes, in terms of the values.\<close>

definition bool_arg :: "string \<Rightarrow> bool" where
  "bool_arg v \<longleftrightarrow> v = [] \<or> isBoolString v"

definition int_arg :: "(int \<Rightarrow> bool) \<Rightarrow> string \<Rightarrow> bool" where
  "int_arg P v \<longleftrightarrow> v = [] \<or> (case parse_int64 v of Inl _ \<Rightarrow> False | Inr n \<Rightarrow> P n)"

lemma check_ret [simp]:
  "check_that ok ms = ret () \<longleftrightarrow> ok"
  "check_bool name v = ret () \<longleftrightarrow> bool_arg v"
  "check_int name v = ret () \<longleftrightarrow> int_arg (\<lambda>_. True) v"
  by (auto simp: check_that_def check_bool_def check_int_def bool_arg_def int_arg_def split: sum.split)

lemma run_in_order_pure:
  assumes "list_all pure_check cs"
  shows "snd (run_state (in_order cs) h) = h" and "fst (run_state (in_order cs) h) = Ret () \<longleftrightarrow> (\<forall>c \<in> set cs. c = ret ())"
  using in_order_pure [OF assms] in_order_ret [OF assms] by auto

lemma attempt_unit [simp]: "attempt m fail (\<lambda>_. ret ()) = (m :: unit outcome run)"
  by (intro state.expand ext) (auto split: prod.split outcome.split)

lemma in_order_append: "in_order (cs @ cs') = attempt (in_order cs) fail (\<lambda>_. in_order cs')"
proof (induction cs)
  case (Cons c cs)
  have "attempt c fail (\<lambda>_. attempt (in_order cs) fail (\<lambda>_. in_order cs'))
      = attempt (attempt c fail (\<lambda>_. in_order cs)) fail (\<lambda>_. in_order cs')"
    by (intro state.expand ext) (simp split: prod.split outcome.split)
  with Cons show ?case by simp
qed simp


text \<open>Both methods \<open>Validate\<close> check the path first, and the credentials between other checks.\<close>

lemma validate_yields:
  assumes "list_all pure_check cs" and "list_all pure_check cs'"
  shows "yields (in_order ([pathValidator env p] @ cs @ [check_credentials env what q] @ cs'))
     (\<lambda>r es. list_all looks es \<and>
        (case r of
           Ret _ \<Rightarrow> safe_mount_path es p \<and> credentials_seen es q
         | Fail _ \<Rightarrow> True
         | Panic _ \<Rightarrow> False))"
proof -
  have rest: "yields (in_order ([check_credentials env what q] @ cs'))
     (\<lambda>r es. list_all looks es \<and> (case r of Ret _ \<Rightarrow> credentials_seen es q | Fail _ \<Rightarrow> True | Panic _ \<Rightarrow> False))"
    by (simp, rule yields_attempt_fail [OF check_credentials_yields])
       (auto intro!: yields_mono [OF in_order_pure_yields [OF assms(2)]] split: outcome.splits)
  have "yields (in_order (cs @ [check_credentials env what q] @ cs'))
     (\<lambda>r es. list_all looks es \<and> (case r of Ret _ \<Rightarrow> credentials_seen es q | Fail _ \<Rightarrow> True | Panic _ \<Rightarrow> False))"
    unfolding in_order_append [of cs]
    by (rule yields_attempt_fail [OF in_order_pure_yields [OF assms(1)]]) (use rest in \<open>auto cong: outcome.case_cong\<close>)
  then show ?thesis
    by (simp, intro yields_attempt_fail [OF pathValidator_yields])
       (auto elim!: yields_mono dest: safe_mount_path_append [of _ _ "[]"] credentials_seen_append [of _ _ _ "[]"]
          split: outcome.splits)
qed

lemma run_pathValidator:
  assumes "is_rooted p"
  shows "snd (run_state (pathValidator env p) h) = h"
    and "fst (run_state (pathValidator env p) h) = Ret () \<longleftrightarrow> list_ex (has_prefix (clean p)) safeMountDirs"
  using assms by (auto simp: pathValidator_def filepath_Abs_def safeMountDirs_def)

lemma run_check_credentials:
  assumes "is_rooted q"
  shows "fst (run_state (check_credentials env what q) h) = Ret () \<longleftrightarrow>
     has_prefix (clean q) safeMounterConfigDir \<and> sys_stat (fs env) h (clean q) = Inr False"
  using assms
  by (cases "sys_stat (fs env) h (clean q)")
     (auto simp: check_credentials_def fileExists_def filepath_Abs_def os_Stat_def check_that_def)

lemma validate_accepts:
  assumes "is_rooted p" and "is_rooted q" and "list_all pure_check cs" and "list_all pure_check cs'"
  shows "fst (run_state (in_order ([pathValidator env p] @ cs @ [check_credentials env what q] @ cs')) h) = Ret () \<longleftrightarrow>
    list_ex (has_prefix (clean p)) safeMountDirs \<and> (\<forall>c \<in> set cs \<union> set cs'. c = ret ()) \<and>
    has_prefix (clean q) safeMounterConfigDir \<and> sys_stat (fs env) h (clean q) = Inr False"
proof -
  have step: "fst (run_state (attempt m fail (\<lambda>_. k)) h) = Ret () \<longleftrightarrow>
      fst (run_state m h) = Ret () \<and> fst (run_state k (snd (run_state m h))) = Ret ()"
    for m k :: "unit outcome run" and h
    by (auto split: prod.split outcome.split)
  show ?thesis
    unfolding in_order_append in_order.simps attempt_unit step
    using run_pathValidator [OF assms(1)] run_check_credentials [OF assms(2)]
      run_in_order_pure [OF assms(3)] run_in_order_pure [OF assms(4)]
    by auto
qed


subsection \<open>Where the validated paths lie\<close>

lemma split_on_prefix:
  assumes "CHR ''/'' \<notin> set d"
  shows "split_on (CHR ''/'') (d @ s) = (d @ hd (split_on (CHR ''/'') s)) # tl (split_on (CHR ''/'') s)"
  using assms by (induction d) auto

lemma split_on_safe_dir:
  assumes "d \<in> {''data'', ''lib''}"
  shows "split_on (CHR ''/'') (''/var/'' @ d @ ''/kubelet/pods'' @ s) =
     [[], ''var'', d, ''kubelet'', ''pods'' @ hd (split_on (CHR ''/'') s)] @ tl (split_on (CHR ''/'') s)"
  using assms split_on_prefix [of "''pods''" s] by auto

lemma pathValidator_rooted:
  assumes "is_rooted p"
  shows "pathValidator env p =
    (if has_prefix (clean p) ''/var/data/kubelet/pods'' \<or> has_prefix (clean p) ''/var/lib/kubelet/pods''
     then ret () else fail (Plain (sprintf [''bad value for target path \"'', p, ''\"''])))"
  using assms by (simp add: pathValidator_def filepath_Abs_def safeMountDirs_def)

text \<open>
  C29. A rooted target path is accepted only if, after all its \<open>.\<close> and \<open>..\<close> elements are resolved,
  it lies in the kubelet directory, in \<open>pods\<close> or in a directory whose name starts with
  \<open>pods\<close>: a path cannot leave the directory by \<open>..\<close>, but the check does not end at a separator.
\<close>

theorem pathValidator_confines:
  assumes "is_rooted p" and "pathValidator env p = ret ()"
  shows "\<exists>d x es. split_on (CHR ''/'') (clean p) = [[], ''var'', d, ''kubelet'', ''pods'' @ x] @ es \<and>
     d \<in> {''data'', ''lib''} \<and> ''..'' \<notin> set es"
proof -
  obtain d where d: "d \<in> {''data'', ''lib''}" "prefix (''/var/'' @ d @ ''/kubelet/pods'') (clean p)"
  proof -
    have "prefix (''/var/'' @ ''data'' @ ''/kubelet/pods'') (clean p) \<or>
        prefix (''/var/'' @ ''lib'' @ ''/kubelet/pods'') (clean p)"
      using assms(2) by (auto simp: pathValidator_rooted [OF assms(1)] has_prefix_def split: if_splits)
    then show ?thesis using that by blast
  qed
  then obtain s where "clean p = (''/var/'' @ d @ ''/kubelet/pods'') @ s"
    by (auto simp: prefix_def)
  then have "split_on (CHR ''/'') (clean p) =
     [[], ''var'', d, ''kubelet'', ''pods'' @ hd (split_on (CHR ''/'') s)] @ tl (split_on (CHR ''/'') s)"
    using split_on_safe_dir [OF d(1), of s] by simp
  moreover have "''..'' \<notin> set (split_on (CHR ''/'') (clean p))"
    by (rule clean_rooted_no_dotdot [OF assms(1)])
  ultimately show ?thesis
    using d(1) by (intro exI [of _ d] exI [of _ "hd (split_on (CHR ''/'') s)"] exI [of _ "tl (split_on (CHR ''/'') s)"]) simp
qed

text \<open>The witness is a directory beside the one meant, which the check accepts.\<close>

theorem pathValidator_confines_witness:
  "pathValidator env_ok ''/var/lib/kubelet/pods/../pods-x/v'' = ret () \<and>
   (\<exists>d x es. split_on (CHR ''/'') (clean ''/var/lib/kubelet/pods/../pods-x/v'') =
      [[], ''var'', d, ''kubelet'', ''pods'' @ x] @ es \<and> d \<in> {''data'', ''lib''} \<and> ''..'' \<notin> set es)"
proof
  show "pathValidator env_ok ''/var/lib/kubelet/pods/../pods-x/v'' = ret ()"
    by (simp add: pathValidator_rooted is_rooted_def clean_def clean_elems_def has_prefix_def)
  then show "\<exists>d x es. split_on (CHR ''/'') (clean ''/var/lib/kubelet/pods/../pods-x/v'') =
      [[], ''var'', d, ''kubelet'', ''pods'' @ x] @ es \<and> d \<in> {''data'', ''lib''} \<and> ''..'' \<notin> set es"
    by (rule pathValidator_confines [rotated]) (simp add: is_rooted_def)
qed


subsection \<open>The contract of the two kinds of arguments\<close>

text \<open>
  The interface \<open>MounterArgs\<close>: what \<open>Validate\<close> passes has a safe target path and credentials
  that exist, checking makes no change, and the arguments are always built and name the bucket and
  the path.
\<close>

locale mounter_args =
  fixes Validate :: "env \<Rightarrow> 'a \<Rightarrow> string \<Rightarrow> unit outcome run"
    and Populate :: "iteration \<Rightarrow> 'a \<Rightarrow> string \<Rightarrow> string \<Rightarrow> string list res"
    and cred :: "'a \<Rightarrow> string"
  assumes validate: "yields (Validate env a p)
       (\<lambda>r es. list_all looks es \<and>
          (case r of
             Ret _ \<Rightarrow> safe_mount_path es p \<and> credentials_seen es (cred a)
           | Fail _ \<Rightarrow> True
           | Panic _ \<Rightarrow> False))"
    and populate: "\<exists>xs. Populate it a b p = Inr xs \<and> b \<in> set xs \<and> p \<in> set xs"

text \<open>A branch of \<open>ParseMounterArgs\<close>; the two branches differ in the type of the arguments only.\<close>

definition parse_args ::
    "string \<Rightarrow> string \<Rightarrow> 'a struct \<Rightarrow> 'a \<Rightarrow> ('a \<Rightarrow> string \<Rightarrow> unit outcome run) \<Rightarrow>
     ('a \<Rightarrow> string \<Rightarrow> string \<Rightarrow> string list res) \<Rightarrow> MountRequest \<Rightarrow> string list outcome run" where
  "parse_args label name table zero validate populate req =
     (case strictDecodeForUnknownFields name table zero (mr_Args req) of
        Inl err \<Rightarrow> fail (Plain (sprintf [''invalid '', label, '' args decode error: '', error_text err]))
      | Inr args \<Rightarrow>
          attempt (validate args (mr_Path req))
            (\<lambda>err. fail (Plain (sprintf [label, '' args validation failed: '', error_text err])))
            (\<lambda>_. lift_res (populate args (mr_Bucket req) (mr_Path req))))"

context mounter_args begin

lemma parse_args_yields:
  "yields (parse_args label name table zero (Validate env) (Populate it) req)
     (\<lambda>r es. list_all looks es \<and>
        (case r of
           Ret xs \<Rightarrow> (\<exists>a. strictDecodeForUnknownFields name table zero (mr_Args req) = Inr a \<and>
             Populate it a (mr_Bucket req) (mr_Path req) = Inr xs \<and>
             safe_mount_path es (mr_Path req) \<and> credentials_seen es (cred a))
         | Fail _ \<Rightarrow> True
         | Panic _ \<Rightarrow> False))"
proof (cases "strictDecodeForUnknownFields name table zero (mr_Args req)")
  case (Inl err)
  then show ?thesis by (auto simp: parse_args_def intro!: yields_fail)
next
  case (Inr a)
  obtain xs where "Populate it a (mr_Bucket req) (mr_Path req) = Inr xs"
    using populate by blast
  with Inr show ?thesis
    unfolding parse_args_def
    by (auto intro!: yields_attempt [OF validate] yields_lift_res yields_fail)
qed

end

end
