(* ===== verification/ServerS3fs.thy ===== *)
theory ServerS3fs
  imports ServerUtils
begin

section \<open>The arguments of s3fs: cos-csi-mounter/server/s3fs.go\<close>

text \<open>
  The record has the fields of the Go struct with the prefix \<open>sa_\<close>; \<open>s3fs_table\<close> are their
  names in the text. \<open>s3fs_Validate\<close> is the method \<open>Validate\<close>, its checks in the order of the
  code, and \<open>s3fs_PopulateArgsSlice\<close> builds the command line.
\<close>

record S3FSArgs =
  sa_AllowOther :: string
  sa_AutoCache :: string
  sa_CipherSuites :: string
  sa_ConnectTimeoutSeconds :: string
  sa_CurlDebug :: string
  sa_DebugLevel :: string
  sa_DefaultACL :: string
  sa_DisableNoobjCache :: string
  sa_EndPoint :: string
  sa_GID :: string
  sa_IBMIamAuth :: string
  sa_IBMIamEndpoint :: string
  sa_InstanceName :: string
  sa_KernelCache :: string
  sa_MaxBackground :: string
  sa_MaxDirtyData :: string
  sa_MaxStatCacheSize :: string
  sa_MPUmask :: string
  sa_MultiPartSize :: string
  sa_MultiReqMax :: string
  sa_ParallelCount :: string
  sa_PasswdFilePath :: string
  sa_ReadOnly :: string
  sa_ReadwriteTimeoutSeconds :: string
  sa_RetryCount :: string
  sa_SigV2 :: string
  sa_SigV4 :: string
  sa_StatCacheExpireSeconds :: string
  sa_UID :: string
  sa_Umask :: string
  sa_URL :: string
  sa_UsePathRequestStyle :: string
  sa_UseXattr :: string
  sa_AddMountParam :: string

definition no_S3FSArgs :: S3FSArgs where
  "no_S3FSArgs =
     \<lparr> sa_AllowOther = [],
       sa_AutoCache = [],
       sa_CipherSuites = [],
       sa_ConnectTimeoutSeconds = [],
       sa_CurlDebug = [],
       sa_DebugLevel = [],
       sa_DefaultACL = [],
       sa_DisableNoobjCache = [],
       sa_EndPoint = [],
       sa_GID = [],
       sa_IBMIamAuth = [],
       sa_IBMIamEndpoint = [],
       sa_InstanceName = [],
       sa_KernelCache = [],
       sa_MaxBackground = [],
       sa_MaxDirtyData = [],
       sa_MaxStatCacheSize = [],
       sa_MPUmask = [],
       sa_MultiPartSize = [],
       sa_MultiReqMax = [],
       sa_ParallelCount = [],
       sa_PasswdFilePath = [],
       sa_ReadOnly = [],
       sa_ReadwriteTimeoutSeconds = [],
       sa_RetryCount = [],
       sa_SigV2 = [],
       sa_SigV4 = [],
       sa_StatCacheExpireSeconds = [],
       sa_UID = [],
       sa_Umask = [],
       sa_URL = [],
       sa_UsePathRequestStyle = [],
       sa_UseXattr = [],
       sa_AddMountParam = [] \<rparr>"

definition s3fs_table :: "S3FSArgs struct" where
  "s3fs_table =
     [(''allow_other'', sa_AllowOther, \<lambda>v r. r\<lparr>sa_AllowOther := v\<rparr>),
      (''auto_cache'', sa_AutoCache, \<lambda>v r. r\<lparr>sa_AutoCache := v\<rparr>),
      (''cipher_suites'', sa_CipherSuites, \<lambda>v r. r\<lparr>sa_CipherSuites := v\<rparr>),
      (''connect_timeout'', sa_ConnectTimeoutSeconds, \<lambda>v r. r\<lparr>sa_ConnectTimeoutSeconds := v\<rparr>),
      (''curldbg'', sa_CurlDebug, \<lambda>v r. r\<lparr>sa_CurlDebug := v\<rparr>),
      (''dbglevel'', sa_DebugLevel, \<lambda>v r. r\<lparr>sa_DebugLevel := v\<rparr>),
      (''default_acl'', sa_DefaultACL, \<lambda>v r. r\<lparr>sa_DefaultACL := v\<rparr>),
      (''disable_noobj_cache'', sa_DisableNoobjCache, \<lambda>v r. r\<lparr>sa_DisableNoobjCache := v\<rparr>),
      (''endpoint'', sa_EndPoint, \<lambda>v r. r\<lparr>sa_EndPoint := v\<rparr>),
      (''gid'', sa_GID, \<lambda>v r. r\<lparr>sa_GID := v\<rparr>),
      (''ibm_iam_auth'', sa_IBMIamAuth, \<lambda>v r. r\<lparr>sa_IBMIamAuth := v\<rparr>),
      (''ibm_iam_endpoint'', sa_IBMIamEndpoint, \<lambda>v r. r\<lparr>sa_IBMIamEndpoint := v\<rparr>),
      (''instance_name'', sa_InstanceName, \<lambda>v r. r\<lparr>sa_InstanceName := v\<rparr>),
      (''kernel_cache'', sa_KernelCache, \<lambda>v r. r\<lparr>sa_KernelCache := v\<rparr>),
      (''max_background'', sa_MaxBackground, \<lambda>v r. r\<lparr>sa_MaxBackground := v\<rparr>),
      (''max_dirty_data'', sa_MaxDirtyData, \<lambda>v r. r\<lparr>sa_MaxDirtyData := v\<rparr>),
      (''max_stat_cache_size'', sa_MaxStatCacheSize, \<lambda>v r. r\<lparr>sa_MaxStatCacheSize := v\<rparr>),
      (''mp_umask'', sa_MPUmask, \<lambda>v r. r\<lparr>sa_MPUmask := v\<rparr>),
      (''multipart_size'', sa_MultiPartSize, \<lambda>v r. r\<lparr>sa_MultiPartSize := v\<rparr>),
      (''multireq_max'', sa_MultiReqMax, \<lambda>v r. r\<lparr>sa_MultiReqMax := v\<rparr>),
      (''parallel_count'', sa_ParallelCount, \<lambda>v r. r\<lparr>sa_ParallelCount := v\<rparr>),
      (''passwd_file'', sa_PasswdFilePath, \<lambda>v r. r\<lparr>sa_PasswdFilePath := v\<rparr>),
      (''ro'', sa_ReadOnly, \<lambda>v r. r\<lparr>sa_ReadOnly := v\<rparr>),
      (''readwrite_timeout'', sa_ReadwriteTimeoutSeconds, \<lambda>v r. r\<lparr>sa_ReadwriteTimeoutSeconds := v\<rparr>),
      (''retries'', sa_RetryCount, \<lambda>v r. r\<lparr>sa_RetryCount := v\<rparr>),
      (''sigv2'', sa_SigV2, \<lambda>v r. r\<lparr>sa_SigV2 := v\<rparr>),
      (''sigv4'', sa_SigV4, \<lambda>v r. r\<lparr>sa_SigV4 := v\<rparr>),
      (''stat_cache_expire'', sa_StatCacheExpireSeconds, \<lambda>v r. r\<lparr>sa_StatCacheExpireSeconds := v\<rparr>),
      (''uid'', sa_UID, \<lambda>v r. r\<lparr>sa_UID := v\<rparr>),
      (''umask'', sa_Umask, \<lambda>v r. r\<lparr>sa_Umask := v\<rparr>),
      (''url'', sa_URL, \<lambda>v r. r\<lparr>sa_URL := v\<rparr>),
      (''use_path_request_style'', sa_UsePathRequestStyle, \<lambda>v r. r\<lparr>sa_UsePathRequestStyle := v\<rparr>),
      (''use_xattr'', sa_UseXattr, \<lambda>v r. r\<lparr>sa_UseXattr := v\<rparr>),
      (''add-mount-param'', sa_AddMountParam, \<lambda>v r. r\<lparr>sa_AddMountParam := v\<rparr>)]"


subsection \<open>Validate\<close>

definition check_curldbg :: "string \<Rightarrow> unit outcome run" where
  "check_curldbg v =
     check_that (\<not> (v \<noteq> [] \<and> v \<noteq> ''body'' \<and> v \<noteq> ''normal''))
       [''invalid value for '', squote ''curldbg'', '' param. Should be either '', squote ''body'', '' or '',
        squote ''normal'', '': '', v]"

definition has_scheme :: "string \<Rightarrow> bool" where
  "has_scheme v \<longleftrightarrow> has_prefix v ''https://'' \<or> has_prefix v ''http://''"

definition check_iam_endpoint :: "string \<Rightarrow> unit outcome run" where
  "check_iam_endpoint v =
     (if v \<noteq> []
      then check_that (has_scheme v)
             [''bad value for ibm_iam_endpoint \"'', v,
              ''\": Must be of the form https://<hostname> or http://<hostname>'']
      else ret ())"

definition check_url :: "string \<Rightarrow> unit outcome run" where
  "check_url v =
     check_that (has_scheme v)
       [''bad value for url \"'', v,
        ''\": scheme is missing. Must be of the form http://<hostname> or https://<hostname>'']"

text \<open>The two integers with a lower bound; the messages name the first one \<open>retires\<close>.\<close>

definition check_retries :: "string \<Rightarrow> unit outcome run" where
  "check_retries v =
     (if v \<noteq> []
      then (case parse_int64 v of
              Inl e \<Rightarrow> fail (Plain (sprintf [''cannot convert value of retires into integer: '',
                                            num_error_text ''Atoi'' v e]))
            | Inr n \<Rightarrow> check_that (\<not> n < 1) [''value of retires should be >= 1''])
      else ret ())"

definition check_stat_cache_expire :: "string \<Rightarrow> unit outcome run" where
  "check_stat_cache_expire v =
     (if v \<noteq> []
      then (case parse_int64 v of
              Inl e \<Rightarrow> fail (Plain (sprintf [''cannot convert value of stat_cache_expire into integer: '',
                                            num_error_text ''Atoi'' v e]))
            | Inr n \<Rightarrow> check_that (\<not> n < 0) [''value of stat_cache_expire should be >= 0''])
      else ret ())"

text \<open>The checks before and after the one of the credentials.\<close>

definition s3fs_checks_before :: "S3FSArgs \<Rightarrow> unit outcome run list" where
  "s3fs_checks_before args =
     [check_bool ''allow_other'' (sa_AllowOther args),
      check_bool ''auto_cache'' (sa_AutoCache args),
      check_int ''connect_timeout'' (sa_ConnectTimeoutSeconds args),
      check_curldbg (sa_CurlDebug args),
      check_bool ''disable_noobj_cache'' (sa_DisableNoobjCache args),
      check_int ''gid'' (sa_GID args),
      check_bool ''ibm_iam_auth'' (sa_IBMIamAuth args),
      check_iam_endpoint (sa_IBMIamEndpoint args),
      check_bool ''kernel_cache'' (sa_KernelCache args),
      check_int ''max_background'' (sa_MaxBackground args),
      check_int ''max_dirty_data'' (sa_MaxDirtyData args),
      check_int ''max_stat_cache_size'' (sa_MaxStatCacheSize args),
      check_int ''multipart_size'' (sa_MultiPartSize args),
      check_int ''multireq_max'' (sa_MultiReqMax args),
      check_int ''parallel_count'' (sa_ParallelCount args)]"

definition s3fs_checks_after :: "S3FSArgs \<Rightarrow> unit outcome run list" where
  "s3fs_checks_after args =
     [check_bool ''roe'' (sa_ReadOnly args),
      check_int ''readwrite_timeout'' (sa_ReadwriteTimeoutSeconds args),
      check_retries (sa_RetryCount args),
      check_bool ''sigv2'' (sa_SigV2 args),
      check_bool ''sigv4'' (sa_SigV4 args),
      check_stat_cache_expire (sa_StatCacheExpireSeconds args),
      check_int ''uid'' (sa_UID args),
      check_bool ''use_path_request_style'' (sa_UsePathRequestStyle args),
      check_bool ''use_xattr'' (sa_UseXattr args),
      check_url (sa_URL args)]"

definition s3fs_Validate :: "env \<Rightarrow> S3FSArgs \<Rightarrow> string \<Rightarrow> unit outcome run" where
  "s3fs_Validate env args targetPath =
     in_order
       ([pathValidator env targetPath] @ s3fs_checks_before args @
        [check_credentials env ''credential file'' (sa_PasswdFilePath args)] @ s3fs_checks_after args)"


subsection \<open>PopulateArgsSlice\<close>

definition is_true :: "string \<Rightarrow> bool" where
  "is_true v \<longleftrightarrow> to_lower (trim_space v) = ''true''"

definition s3fs_option :: "string \<times> string \<Rightarrow> string list" where
  "s3fs_option = (\<lambda>(k, v). if is_true v then [''-o'', k] else [''-o'', sprintf [k, ''='', v]])"

text \<open>The two options that s3fs must see first, in this order.\<close>

definition iam_auth_args :: "smap \<Rightarrow> string list" where
  "iam_auth_args m =
     (case map_of m ''ibm_iam_auth'' of
        None \<Rightarrow> []
      | Some val \<Rightarrow> s3fs_option (''ibm_iam_auth'', val))"

definition iam_endpoint_args :: "smap \<Rightarrow> string list" where
  "iam_endpoint_args m =
     (case map_of m ''ibm_iam_endpoint'' of
        None \<Rightarrow> []
      | Some val \<Rightarrow> [''-o'', sprintf [''ibm_iam_endpoint='', val]])"

text \<open>The loop over the other options.\<close>

definition dropped :: "string \<times> string \<Rightarrow> bool" where
  "dropped = (\<lambda>(k, v). k = ''add-mount-param'' \<or>
     k = ''cipher_suites'' \<and> to_lower (trim_space v) = ''default'')"

definition add_option :: "string list \<Rightarrow> string \<times> string \<Rightarrow> string list" where
  "add_option result kv = (if dropped kv then result else result @ s3fs_option kv)"

text \<open>The additional options of the user, which are not checked.\<close>

definition add_param :: "string list \<Rightarrow> string \<Rightarrow> string list" where
  "add_param result value =
     (let value' = trim_space value in if value' \<noteq> [] then result @ [''-o'', value'] else result)"

definition s3fs_PopulateArgsSlice :: "iteration \<Rightarrow> S3FSArgs \<Rightarrow> string \<Rightarrow> string \<Rightarrow> string list res" where
  "s3fs_PopulateArgsSlice it args bucket targetPath =
     (case json_strings (json_object (omit_empty s3fs_table args)) of
        Inl err \<Rightarrow> Inl err
      | Inr m \<Rightarrow>
          (let result = [bucket, targetPath] @ iam_auth_args m;
               m1 = mdel m ''ibm_iam_auth'';
               result1 = result @ iam_endpoint_args m1;
               m2 = mdel m1 ''ibm_iam_endpoint'';
               result2 = foldl add_option result1 (it RangeS3fsArgs m2)
           in if sa_AddMountParam args \<noteq> []
              then Inr (foldl add_param result2 (split_on (CHR '','') (sa_AddMountParam args)))
              else Inr result2))"


subsection \<open>The struct\<close>

lemma s3fs_get_put:
  "\<forall>(n, get, put) \<in> set s3fs_table. \<forall>(n', get', put') \<in> set s3fs_table.
     \<forall>v r. get' (put v r) = (if n' = n then v else get' r)"
  by (simp add: s3fs_table_def)

interpretation s3a: json_struct s3fs_table no_S3FSArgs
proof
  show "distinct (map fst s3fs_table)"
    by (simp add: s3fs_table_def)
  show "get no_S3FSArgs = []" if "(n, get, put) \<in> set s3fs_table" for n get put
    using that by (auto simp: s3fs_table_def no_S3FSArgs_def)
  show "get' (put v r) = (if n' = n then v else get' r)"
    if "(n, get, put) \<in> set s3fs_table" "(n', get', put') \<in> set s3fs_table" for n get put n' get' put' v r
    using s3fs_get_put that by blast
qed


subsection \<open>What Validate finds out\<close>

lemma s3fs_check_pure [simp]:
  "pure_check (check_curldbg v)" "pure_check (check_iam_endpoint v)" "pure_check (check_url v)"
  "pure_check (check_retries v)" "pure_check (check_stat_cache_expire v)"
  by (simp_all add: check_curldbg_def check_iam_endpoint_def check_url_def check_retries_def
      check_stat_cache_expire_def split: sum.split)

lemma s3fs_checks_pure [simp]:
  "list_all pure_check (s3fs_checks_before args)" "list_all pure_check (s3fs_checks_after args)"
  by (simp_all add: s3fs_checks_before_def s3fs_checks_after_def)

lemma s3fs_check_ret [simp]:
  "check_curldbg v = ret () \<longleftrightarrow> v \<in> {[], ''body'', ''normal''}"
  "check_iam_endpoint v = ret () \<longleftrightarrow> v = [] \<or> has_scheme v"
  "check_url v = ret () \<longleftrightarrow> has_scheme v"
  "check_retries v = ret () \<longleftrightarrow> int_arg (\<lambda>n. n \<ge> 1) v"
  "check_stat_cache_expire v = ret () \<longleftrightarrow> int_arg (\<lambda>n. n \<ge> 0) v"
  by (auto simp: check_curldbg_def check_iam_endpoint_def check_url_def check_retries_def
      check_stat_cache_expire_def int_arg_def split: sum.split)

text \<open>The values that are valid, by their kind.\<close>

definition s3fs_values_ok :: "S3FSArgs \<Rightarrow> bool" where
  "s3fs_values_ok args \<longleftrightarrow>
     list_all bool_arg
       [sa_AllowOther args, sa_AutoCache args, sa_DisableNoobjCache args, sa_IBMIamAuth args,
        sa_KernelCache args, sa_ReadOnly args, sa_SigV2 args, sa_SigV4 args,
        sa_UsePathRequestStyle args, sa_UseXattr args] \<and>
     list_all (int_arg (\<lambda>_. True))
       [sa_ConnectTimeoutSeconds args, sa_GID args, sa_MaxBackground args, sa_MaxDirtyData args,
        sa_MaxStatCacheSize args, sa_MultiPartSize args, sa_MultiReqMax args, sa_ParallelCount
        args, sa_ReadwriteTimeoutSeconds args, sa_UID args] \<and>
     int_arg (\<lambda>n. n \<ge> 1) (sa_RetryCount args) \<and> int_arg (\<lambda>n. n \<ge> 0) (sa_StatCacheExpireSeconds args) \<and>
     sa_CurlDebug args \<in> {[], ''body'', ''normal''} \<and>
     (sa_IBMIamEndpoint args = [] \<or> has_scheme (sa_IBMIamEndpoint args)) \<and> has_scheme (sa_URL args)"

lemma s3fs_checks_ret:
  "(\<forall>c \<in> set (s3fs_checks_before args) \<union> set (s3fs_checks_after args). c = ret ()) \<longleftrightarrow> s3fs_values_ok args"
  by (simp add: s3fs_checks_before_def s3fs_checks_after_def s3fs_values_ok_def) blast

lemma s3fs_Validate_yields:
  "yields (s3fs_Validate env args p)
     (\<lambda>r es. list_all looks es \<and>
        (case r of
           Ret _ \<Rightarrow> safe_mount_path es p \<and> credentials_seen es (sa_PasswdFilePath args)
         | Fail _ \<Rightarrow> True
         | Panic _ \<Rightarrow> False))"
  unfolding s3fs_Validate_def by (rule validate_yields) simp_all

text \<open>
  C27. The s3fs arguments that are accepted: for a rooted target path and a rooted path of the
  credentials, \<open>Validate\<close> passes exactly when the cleaned target path is below a kubelet
  directory, the values are valid, and a file that is no directory is at the path of the
  credentials, which is below the configuration directory.
\<close>

theorem s3fs_Validate_accepts:
  assumes "is_rooted p" and "is_rooted (sa_PasswdFilePath args)"
  shows "fst (run_state (s3fs_Validate env args p) h) = Ret () \<longleftrightarrow>
    list_ex (has_prefix (clean p)) safeMountDirs \<and> s3fs_values_ok args \<and>
    has_prefix (clean (sa_PasswdFilePath args)) safeMounterConfigDir \<and>
    sys_stat (fs env) h (clean (sa_PasswdFilePath args)) = Inr False"
  unfolding s3fs_Validate_def s3fs_checks_ret [symmetric]
  by (rule validate_accepts [OF assms]) simp_all

definition sample_s3fs :: S3FSArgs where
  "sample_s3fs = no_S3FSArgs \<lparr> sa_URL := ''https://s3'', sa_PasswdFilePath := ''/var/lib/coscsi-config/h/.passwd-s3fs'',
     sa_ReadOnly := ''True'', sa_RetryCount := ''5'', sa_AddMountParam := ''use_sse, curldbg'' \<rparr>"

theorem s3fs_Validate_accepts_witness:
  "fst (run_state (s3fs_Validate env_ok sample_s3fs ''/var/lib/kubelet/pods/v'') []) = Ret ()"
proof -
  have rooted: "is_rooted ''/var/lib/kubelet/pods/v''" "is_rooted (sa_PasswdFilePath sample_s3fs)"
    by (simp_all add: sample_s3fs_def is_rooted_def)
  have "list_ex (has_prefix (clean ''/var/lib/kubelet/pods/v'')) safeMountDirs"
    "has_prefix (clean (sa_PasswdFilePath sample_s3fs)) safeMounterConfigDir"
    by (simp_all add: sample_s3fs_def clean_def clean_elems_def is_rooted_def has_prefix_def safeMountDirs_def
        safeMounterConfigDir_def)
  moreover have "s3fs_values_ok sample_s3fs"
    by code_simp
  ultimately show ?thesis
    unfolding s3fs_Validate_accepts [OF rooted] by (simp add: env_ok_defs)
qed


subsection \<open>The command line\<close>

lemma add_options:
  "foldl add_option result kvs = result @ concat (map s3fs_option (filter (\<lambda>kv. \<not> dropped kv) kvs))"
  by (induction kvs arbitrary: result) (auto simp: add_option_def)

lemma add_params:
  "foldl add_param result vs =
     result @ concat (map (\<lambda>v. [''-o'', v]) (filter (\<lambda>v. v \<noteq> []) (map trim_space vs)))"
  by (induction vs arbitrary: result) (auto simp: add_param_def Let_def)

text \<open>The additional options, in the order given; none for an empty list.\<close>

definition extra_options :: "S3FSArgs \<Rightarrow> string list" where
  "extra_options args =
     concat (map (\<lambda>v. [''-o'', v])
       (filter (\<lambda>v. v \<noteq> []) (map trim_space (split_on (CHR '','') (sa_AddMountParam args)))))"

text \<open>The options of the fields that the loop adds.\<close>

definition loop_options :: "S3FSArgs \<Rightarrow> smap" where
  "loop_options args =
     filter (\<lambda>kv. \<not> dropped kv \<and> fst kv \<noteq> ''ibm_iam_auth'' \<and> fst kv \<noteq> ''ibm_iam_endpoint'')
       (omit_empty s3fs_table args)"

lemma mdel_filter: "mdel m k = filter (\<lambda>kv. fst kv \<noteq> k) m"
  by (auto simp: mdel_def AList.delete_eq case_prod_unfold intro!: filter_cong)

lemma s3fs_args_built:
  assumes "fair_iteration it"
  shows "\<exists>opts. mset opts = mset (loop_options args) \<and>
    s3fs_PopulateArgsSlice it args b p = Inr ([b, p]
      @ (if sa_IBMIamAuth args = [] then [] else s3fs_option (''ibm_iam_auth'', sa_IBMIamAuth args))
      @ (if sa_IBMIamEndpoint args = [] then []
         else [''-o'', sprintf [''ibm_iam_endpoint='', sa_IBMIamEndpoint args]])
      @ concat (map s3fs_option opts) @ extra_options args)"
proof -
  let ?m = "omit_empty s3fs_table args"
  let ?m2 = "mdel (mdel ?m ''ibm_iam_auth'') ''ibm_iam_endpoint''"
  define opts where "opts = filter (\<lambda>kv. \<not> dropped kv) (it RangeS3fsArgs ?m2)"
  have "mset opts = mset (filter (\<lambda>kv. \<not> dropped kv) ?m2)"
    using assms by (simp add: opts_def fair_iteration_def)
  then have "mset opts = mset (loop_options args)"
    by (simp add: mdel_filter loop_options_def conj_commute conj_left_commute)
  moreover have "map_of ?m ''ibm_iam_auth'' = (if sa_IBMIamAuth args = [] then None else Some (sa_IBMIamAuth args))"
    "map_of ?m ''ibm_iam_endpoint'' = (if sa_IBMIamEndpoint args = [] then None else Some (sa_IBMIamEndpoint args))"
    by (rule s3a.omit_empty_lookup [of _ _ "_"], simp add: s3fs_table_def)+
  moreover have "extra_options args = []" if "sa_AddMountParam args = []"
    using that by (simp add: extra_options_def trim_space_def)
  ultimately show ?thesis
    by (intro exI [of _ opts])
       (auto simp: s3fs_PopulateArgsSlice_def s3a.marshal_unmarshal Let_def iam_auth_args_def iam_endpoint_args_def
          add_options add_params opts_def extra_options_def smap_lookup)
qed

text \<open>
  The other fields, each under its name on the command line: those that were given, without the
  default cipher suite.
\<close>

definition named_fields :: "S3FSArgs \<Rightarrow> smap" where
  "named_fields args =
     [(''allow_other'', sa_AllowOther args), (''auto_cache'', sa_AutoCache args),
      (''cipher_suites'', sa_CipherSuites args), (''connect_timeout'', sa_ConnectTimeoutSeconds args),
      (''curldbg'', sa_CurlDebug args), (''dbglevel'', sa_DebugLevel args),
      (''default_acl'', sa_DefaultACL args), (''disable_noobj_cache'', sa_DisableNoobjCache args),
      (''endpoint'', sa_EndPoint args), (''gid'', sa_GID args),
      (''instance_name'', sa_InstanceName args), (''kernel_cache'', sa_KernelCache args),
      (''max_background'', sa_MaxBackground args), (''max_dirty_data'', sa_MaxDirtyData args),
      (''max_stat_cache_size'', sa_MaxStatCacheSize args), (''mp_umask'', sa_MPUmask args),
      (''multipart_size'', sa_MultiPartSize args), (''multireq_max'', sa_MultiReqMax args),
      (''parallel_count'', sa_ParallelCount args), (''passwd_file'', sa_PasswdFilePath args),
      (''ro'', sa_ReadOnly args), (''readwrite_timeout'', sa_ReadwriteTimeoutSeconds args),
      (''retries'', sa_RetryCount args), (''sigv2'', sa_SigV2 args), (''sigv4'', sa_SigV4 args),
      (''stat_cache_expire'', sa_StatCacheExpireSeconds args), (''uid'', sa_UID args),
      (''umask'', sa_Umask args), (''url'', sa_URL args),
      (''use_path_request_style'', sa_UsePathRequestStyle args), (''use_xattr'', sa_UseXattr args)]"

definition given_options :: "S3FSArgs \<Rightarrow> smap" where
  "given_options args =
     filter (\<lambda>(k, v). v \<noteq> [] \<and> \<not> (k = ''cipher_suites'' \<and> to_lower (trim_space v) = ''default'')) (named_fields args)"

lemma loop_options_given: "loop_options args = given_options args"
proof -
  have "loop_options args =
      filter (\<lambda>(k, v). v \<noteq> [] \<and> \<not> (k = ''cipher_suites'' \<and> to_lower (trim_space v) = ''default''))
        (filter (\<lambda>kv. fst kv \<noteq> ''ibm_iam_auth'' \<and> fst kv \<noteq> ''ibm_iam_endpoint'' \<and> fst kv \<noteq> ''add-mount-param'')
          (map (\<lambda>(n, get, _). (n, get args)) s3fs_table))"
    unfolding loop_options_def omit_empty_def filter_filter
    by (rule filter_cong) (auto simp: dropped_def)
  also have "filter (\<lambda>kv. fst kv \<noteq> ''ibm_iam_auth'' \<and> fst kv \<noteq> ''ibm_iam_endpoint'' \<and> fst kv \<noteq> ''add-mount-param'')
      (map (\<lambda>(n, get, _). (n, get args)) s3fs_table) = named_fields args"
    by (simp add: s3fs_table_def named_fields_def)
  finally show ?thesis by (simp add: given_options_def)
qed

lemma option_words:
  "s3fs_option = (\<lambda>(k, v). if to_lower (trim_space v) = ''true'' then [''-o'', k] else [''-o'', k @ ''='' @ v])"
  by (simp add: s3fs_option_def is_true_def sprintf_def fun_eq_iff)

text \<open>
  C20. The command line of s3fs: bucket and target path, then \<open>ibm_iam_auth\<close> and
  \<open>ibm_iam_endpoint\<close> in this order, then each of the 31 other fields that was given, exactly once, in
  any order, with the one exception of the cipher suite \<open>default\<close>, then the additional options, the
  pieces between commas without blanks, in the order given and without the empty ones. An option with
  the value \<open>true\<close>, in any case, is its name alone, every other one is name and value.
\<close>

theorem s3fs_PopulateArgsSlice_spec:
  assumes "fair_iteration it"
  shows "\<exists>opts. mset opts = mset (given_options args) \<and>
    (let words = (\<lambda>(k, v). if to_lower (trim_space v) = ''true'' then [''-o'', k] else [''-o'', k @ ''='' @ v])
     in s3fs_PopulateArgsSlice it args b p = Inr ([b, p]
          @ (if sa_IBMIamAuth args = [] then [] else words (''ibm_iam_auth'', sa_IBMIamAuth args))
          @ (if sa_IBMIamEndpoint args = [] then []
             else [''-o'', ''ibm_iam_endpoint='' @ sa_IBMIamEndpoint args])
          @ concat (map words opts)
          @ concat (map (\<lambda>x. [''-o'', x])
              (filter (\<lambda>x. x \<noteq> []) (map trim_space (split_on (CHR '','') (sa_AddMountParam args)))))))"
proof -
  have two: "sprintf [x, y] = x @ y" for x y
    by (simp add: sprintf_def)
  show ?thesis
    using s3fs_args_built [OF assms, of args b p]
    unfolding Let_def loop_options_given option_words extra_options_def two prod.case .
qed

theorem s3fs_PopulateArgsSlice_spec_witness:
  "\<exists>opts. mset opts = mset [(''passwd_file'', ''/var/lib/coscsi-config/h/.passwd-s3fs''), (''ro'', ''True''),
      (''retries'', ''5''), (''url'', ''https://s3'')] \<and>
    s3fs_PopulateArgsSlice (\<lambda>_. rev) sample_s3fs ''b'' ''/p'' = Inr ([''b'', ''/p''] @
      concat (map (\<lambda>(k, v). if to_lower (trim_space v) = ''true'' then [''-o'', k] else [''-o'', k @ ''='' @ v]) opts) @
      [''-o'', ''use_sse'', ''-o'', ''curldbg''])"
proof -
  have "given_options sample_s3fs = [(''passwd_file'', ''/var/lib/coscsi-config/h/.passwd-s3fs''), (''ro'', ''True''),
      (''retries'', ''5''), (''url'', ''https://s3'')]"
    by code_simp
  moreover have "concat (map (\<lambda>x. [''-o'', x])
        (filter (\<lambda>x. x \<noteq> []) (map trim_space (split_on (CHR '','') (sa_AddMountParam sample_s3fs)))))
      = [''-o'', ''use_sse'', ''-o'', ''curldbg'']"
    by code_simp
  ultimately show ?thesis
    using s3fs_PopulateArgsSlice_spec [OF fair_rev, of sample_s3fs "''b''" "''/p''"]
    by (simp add: sample_s3fs_def no_S3FSArgs_def Let_def)
qed

interpretation s3args: mounter_args s3fs_Validate s3fs_PopulateArgsSlice sa_PasswdFilePath
proof
  show "\<exists>xs. s3fs_PopulateArgsSlice it a b p = Inr xs \<and> b \<in> set xs \<and> p \<in> set xs" for it a b p
    by (auto simp: s3fs_PopulateArgsSlice_def s3a.marshal_unmarshal Let_def add_options add_params)
qed (rule s3fs_Validate_yields)

end
