(* ===== verification/ServerRclone.thy ===== *)
theory ServerRclone
  imports ServerUtils
begin

section \<open>The arguments of rclone: cos-csi-mounter/server/rclone.go\<close>

text \<open>
  The record has the fields of the Go struct with the prefix \<open>ra_\<close>; \<open>rclone_table\<close> are their
  names in the text. Of the values only the booleans and the configuration file are checked.
\<close>

record RCloneArgs =
  ra_AllowOther :: string
  ra_AllowRoot :: string
  ra_AsyncRead :: string
  ra_AttrTimeout :: string
  ra_ConfigPath :: string
  ra_Daemon :: string
  ra_DaemonTimeout :: string
  ra_DaemonWait :: string
  ra_DirCacheTime :: string
  ra_DirectIO :: string
  ra_GID :: string
  ra_LogFile :: string
  ra_LogLevel :: string
  ra_NoModificationTime :: string
  ra_PollInterval :: string
  ra_ReadOnly :: string
  ra_UID :: string
  ra_UMask :: string
  ra_VfsCacheMaxAge :: string
  ra_VfsCacheMaxSize :: string
  ra_VfsCacheMinFreeSpace :: string
  ra_VfsCacheMode :: string
  ra_VfsCachePollInterval :: string
  ra_VfsDiskSpaceTotalSize :: string
  ra_VfsReadAhead :: string
  ra_VfsReadChunkSize :: string
  ra_VfsReadChunkSizeLimit :: string
  ra_VfsReadChunkStreams :: string
  ra_VfsReadWait :: string
  ra_VfsRefresh :: string
  ra_VfsWriteBack :: string
  ra_VfsWriteWait :: string
  ra_WriteBackCache :: string

definition no_RCloneArgs :: RCloneArgs where
  "no_RCloneArgs =
     \<lparr> ra_AllowOther = [],
       ra_AllowRoot = [],
       ra_AsyncRead = [],
       ra_AttrTimeout = [],
       ra_ConfigPath = [],
       ra_Daemon = [],
       ra_DaemonTimeout = [],
       ra_DaemonWait = [],
       ra_DirCacheTime = [],
       ra_DirectIO = [],
       ra_GID = [],
       ra_LogFile = [],
       ra_LogLevel = [],
       ra_NoModificationTime = [],
       ra_PollInterval = [],
       ra_ReadOnly = [],
       ra_UID = [],
       ra_UMask = [],
       ra_VfsCacheMaxAge = [],
       ra_VfsCacheMaxSize = [],
       ra_VfsCacheMinFreeSpace = [],
       ra_VfsCacheMode = [],
       ra_VfsCachePollInterval = [],
       ra_VfsDiskSpaceTotalSize = [],
       ra_VfsReadAhead = [],
       ra_VfsReadChunkSize = [],
       ra_VfsReadChunkSizeLimit = [],
       ra_VfsReadChunkStreams = [],
       ra_VfsReadWait = [],
       ra_VfsRefresh = [],
       ra_VfsWriteBack = [],
       ra_VfsWriteWait = [],
       ra_WriteBackCache = [] \<rparr>"

definition rclone_table :: "RCloneArgs struct" where
  "rclone_table =
     [(''allow-other'', ra_AllowOther, \<lambda>v r. r\<lparr>ra_AllowOther := v\<rparr>),
      (''allow-root'', ra_AllowRoot, \<lambda>v r. r\<lparr>ra_AllowRoot := v\<rparr>),
      (''async-read'', ra_AsyncRead, \<lambda>v r. r\<lparr>ra_AsyncRead := v\<rparr>),
      (''attr-timeout'', ra_AttrTimeout, \<lambda>v r. r\<lparr>ra_AttrTimeout := v\<rparr>),
      (''config'', ra_ConfigPath, \<lambda>v r. r\<lparr>ra_ConfigPath := v\<rparr>),
      (''daemon'', ra_Daemon, \<lambda>v r. r\<lparr>ra_Daemon := v\<rparr>),
      (''daemon-timeout'', ra_DaemonTimeout, \<lambda>v r. r\<lparr>ra_DaemonTimeout := v\<rparr>),
      (''daemon-wait'', ra_DaemonWait, \<lambda>v r. r\<lparr>ra_DaemonWait := v\<rparr>),
      (''dir-cache-time'', ra_DirCacheTime, \<lambda>v r. r\<lparr>ra_DirCacheTime := v\<rparr>),
      (''direct-io'', ra_DirectIO, \<lambda>v r. r\<lparr>ra_DirectIO := v\<rparr>),
      (''gid'', ra_GID, \<lambda>v r. r\<lparr>ra_GID := v\<rparr>),
      (''log-file'', ra_LogFile, \<lambda>v r. r\<lparr>ra_LogFile := v\<rparr>),
      (''log-level'', ra_LogLevel, \<lambda>v r. r\<lparr>ra_LogLevel := v\<rparr>),
      (''no-modtime'', ra_NoModificationTime, \<lambda>v r. r\<lparr>ra_NoModificationTime := v\<rparr>),
      (''poll-interval'', ra_PollInterval, \<lambda>v r. r\<lparr>ra_PollInterval := v\<rparr>),
      (''read-only'', ra_ReadOnly, \<lambda>v r. r\<lparr>ra_ReadOnly := v\<rparr>),
      (''uid'', ra_UID, \<lambda>v r. r\<lparr>ra_UID := v\<rparr>),
      (''umask'', ra_UMask, \<lambda>v r. r\<lparr>ra_UMask := v\<rparr>),
      (''vfs-cache-max-age'', ra_VfsCacheMaxAge, \<lambda>v r. r\<lparr>ra_VfsCacheMaxAge := v\<rparr>),
      (''vfs-cache-max-size'', ra_VfsCacheMaxSize, \<lambda>v r. r\<lparr>ra_VfsCacheMaxSize := v\<rparr>),
      (''vfs-cache-min-free-space'', ra_VfsCacheMinFreeSpace, \<lambda>v r. r\<lparr>ra_VfsCacheMinFreeSpace := v\<rparr>),
      (''vfs-cache-mode'', ra_VfsCacheMode, \<lambda>v r. r\<lparr>ra_VfsCacheMode := v\<rparr>),
      (''vfs-cache-poll-interval'', ra_VfsCachePollInterval, \<lambda>v r. r\<lparr>ra_VfsCachePollInterval := v\<rparr>),
      (''vfs-disk-space-total-size'', ra_VfsDiskSpaceTotalSize, \<lambda>v r. r\<lparr>ra_VfsDiskSpaceTotalSize := v\<rparr>),
      (''vfs-read-ahead'', ra_VfsReadAhead, \<lambda>v r. r\<lparr>ra_VfsReadAhead := v\<rparr>),
      (''vfs-read-chunk-size'', ra_VfsReadChunkSize, \<lambda>v r. r\<lparr>ra_VfsReadChunkSize := v\<rparr>),
      (''vfs-read-chunk-size-limit'', ra_VfsReadChunkSizeLimit, \<lambda>v r. r\<lparr>ra_VfsReadChunkSizeLimit := v\<rparr>),
      (''vfs-read-chunk-streams'', ra_VfsReadChunkStreams, \<lambda>v r. r\<lparr>ra_VfsReadChunkStreams := v\<rparr>),
      (''vfs-read-wait'', ra_VfsReadWait, \<lambda>v r. r\<lparr>ra_VfsReadWait := v\<rparr>),
      (''vfs-refresh'', ra_VfsRefresh, \<lambda>v r. r\<lparr>ra_VfsRefresh := v\<rparr>),
      (''vfs-write-back'', ra_VfsWriteBack, \<lambda>v r. r\<lparr>ra_VfsWriteBack := v\<rparr>),
      (''vfs-write-wait'', ra_VfsWriteWait, \<lambda>v r. r\<lparr>ra_VfsWriteWait := v\<rparr>),
      (''write-back-cache'', ra_WriteBackCache, \<lambda>v r. r\<lparr>ra_WriteBackCache := v\<rparr>)]"


definition rclone_checks_before :: "RCloneArgs \<Rightarrow> unit outcome run list" where
  "rclone_checks_before args =
     [check_bool ''allow-other'' (ra_AllowOther args),
      check_bool ''allow-root'' (ra_AllowRoot args),
      check_bool ''async-read'' (ra_AsyncRead args)]"

definition rclone_checks_after :: "RCloneArgs \<Rightarrow> unit outcome run list" where
  "rclone_checks_after args =
     [check_bool ''daemon'' (ra_Daemon args),
      check_bool ''direct-io'' (ra_DirectIO args),
      check_bool ''no-modtime'' (ra_NoModificationTime args),
      check_bool ''read-only'' (ra_ReadOnly args),
      check_bool ''vfs-refresh'' (ra_VfsRefresh args),
      check_bool ''write-back-cache'' (ra_WriteBackCache args)]"

definition rclone_Validate :: "env \<Rightarrow> RCloneArgs \<Rightarrow> string \<Rightarrow> unit outcome run" where
  "rclone_Validate env args targetPath =
     in_order
       ([pathValidator env targetPath] @ rclone_checks_before args @
        [check_credentials env ''rclone config file'' (ra_ConfigPath args)] @ rclone_checks_after args)"

definition rclone_option :: "string \<times> string \<Rightarrow> string" where
  "rclone_option = (\<lambda>(k, v). sprintf [''--'', k, ''='', v])"

definition rclone_PopulateArgsSlice :: "iteration \<Rightarrow> RCloneArgs \<Rightarrow> string \<Rightarrow> string \<Rightarrow> string list res" where
  "rclone_PopulateArgsSlice it args bucket targetPath =
     (case json_strings (json_object (omit_empty rclone_table args)) of
        Inl err \<Rightarrow> Inl err
      | Inr m \<Rightarrow>
          Inr (foldl (\<lambda>result kv. result @ [rclone_option kv]) [''mount'', bucket, targetPath]
                 (it RangeRcloneArgs m)))"


subsection \<open>Properties\<close>

lemma rclone_get_put:
  "\<forall>(n, get, put) \<in> set rclone_table. \<forall>(n', get', put') \<in> set rclone_table.
     \<forall>v r. get' (put v r) = (if n' = n then v else get' r)"
  by (simp add: rclone_table_def)

interpretation rca: json_struct rclone_table no_RCloneArgs
proof
  show "distinct (map fst rclone_table)"
    by (simp add: rclone_table_def)
  show "get no_RCloneArgs = []" if "(n, get, put) \<in> set rclone_table" for n get put
    using that by (auto simp: rclone_table_def no_RCloneArgs_def)
  show "get' (put v r) = (if n' = n then v else get' r)"
    if "(n, get, put) \<in> set rclone_table" "(n', get', put') \<in> set rclone_table" for n get put n' get' put' v r
    using rclone_get_put that by blast
qed

lemma rclone_checks_pure [simp]:
  "list_all pure_check (rclone_checks_before args)" "list_all pure_check (rclone_checks_after args)"
  by (simp_all add: rclone_checks_before_def rclone_checks_after_def)

definition rclone_values_ok :: "RCloneArgs \<Rightarrow> bool" where
  "rclone_values_ok args \<longleftrightarrow>
     list_all bool_arg
      [ra_AllowOther args, ra_AllowRoot args, ra_AsyncRead args, ra_Daemon args, ra_DirectIO
       args, ra_NoModificationTime args, ra_ReadOnly args, ra_VfsRefresh args, ra_WriteBackCache
       args]"

lemma rclone_checks_ret:
  "(\<forall>c \<in> set (rclone_checks_before args) \<union> set (rclone_checks_after args). c = ret ()) \<longleftrightarrow>
   rclone_values_ok args"
  by (simp add: rclone_checks_before_def rclone_checks_after_def rclone_values_ok_def) blast

lemma rclone_Validate_yields:
  "yields (rclone_Validate env args p)
     (\<lambda>r es. list_all looks es \<and>
        (case r of
           Ret _ \<Rightarrow> safe_mount_path es p \<and> credentials_seen es (ra_ConfigPath args)
         | Fail _ \<Rightarrow> True
         | Panic _ \<Rightarrow> False))"
  unfolding rclone_Validate_def by (rule validate_yields) simp_all

text \<open>
  The rclone arguments that are accepted: for a rooted target path and a rooted path of the
  configuration, \<open>Validate\<close> passes exactly when the cleaned target path is below a kubelet
  directory, the boolean values are booleans, and a file that is no directory is at the path of
  the configuration, which is below the configuration directory.
\<close>

theorem rclone_Validate_accepts:
  assumes "is_rooted p" and "is_rooted (ra_ConfigPath args)"
  shows "fst (run_state (rclone_Validate env args p) h) = Ret () \<longleftrightarrow>
    list_ex (has_prefix (clean p)) safeMountDirs \<and> rclone_values_ok args \<and>
    has_prefix (clean (ra_ConfigPath args)) safeMounterConfigDir \<and>
    sys_stat (fs env) h (clean (ra_ConfigPath args)) = Inr False"
  unfolding rclone_Validate_def rclone_checks_ret [symmetric]
  by (rule validate_accepts [OF assms]) simp_all

definition sample_rclone :: RCloneArgs where
  "sample_rclone = no_RCloneArgs \<lparr> ra_ConfigPath := ''/var/lib/coscsi-config/h/rclone.conf'',
     ra_ReadOnly := ''true'', ra_VfsCacheMode := ''writes'' \<rparr>"

theorem rclone_Validate_accepts_witness:
  "fst (run_state (rclone_Validate env_ok sample_rclone ''/var/data/kubelet/pods/v'') []) = Ret ()"
proof -
  have rooted: "is_rooted ''/var/data/kubelet/pods/v''" "is_rooted (ra_ConfigPath sample_rclone)"
    by (simp_all add: sample_rclone_def is_rooted_def)
  have "list_ex (has_prefix (clean ''/var/data/kubelet/pods/v'')) safeMountDirs"
    "has_prefix (clean (ra_ConfigPath sample_rclone)) safeMounterConfigDir"
    by (simp_all add: sample_rclone_def clean_def clean_elems_def is_rooted_def has_prefix_def safeMountDirs_def
        safeMounterConfigDir_def)
  moreover have "rclone_values_ok sample_rclone"
    by code_simp
  ultimately show ?thesis
    unfolding rclone_Validate_accepts [OF rooted] by (simp add: env_ok_defs)
qed

text \<open>The command line: one flag per field that was given.\<close>

lemma rclone_args_built:
  "rclone_PopulateArgsSlice it args b p =
     Inr ([''mount'', b, p] @ map rclone_option (it RangeRcloneArgs (omit_empty rclone_table args)))"
proof -
  have "foldl (\<lambda>result kv. result @ [rclone_option kv]) xs kvs = xs @ map rclone_option kvs" for xs kvs
    by (induction kvs arbitrary: xs) auto
  then show ?thesis
    by (simp add: rclone_PopulateArgsSlice_def rca.marshal_unmarshal)
qed

interpretation rcargs: mounter_args rclone_Validate rclone_PopulateArgsSlice ra_ConfigPath
proof
  show "\<exists>xs. rclone_PopulateArgsSlice it a b p = Inr xs \<and> b \<in> set xs \<and> p \<in> set xs" for it a b p
    by (simp add: rclone_args_built)
qed (rule rclone_Validate_yields)

end
