(* ===== verification/MounterServer.thy ===== *)
theory MounterServer
  imports ServerS3fs ServerRclone
begin

section \<open>The mounter service on the worker: cos-csi-mounter/server/server.go\<close>

text \<open>
  The service takes requests from the driver over a unix socket and starts s3fs or rclone on the
  worker. The web framework gin is not part of the repository: how it binds the body of a request is the
  parameter \<open>binding\<close> of the handlers, and a handler is the reply it gives, a status code and the
  bindings of the JSON object in the body.
\<close>

type_synonym reply = "nat \<times> smap"

subsection \<open>The parser\<close>

definition ParseMounterArgs :: "env \<Rightarrow> iteration \<Rightarrow> MountRequest \<Rightarrow> string list outcome run" where
  "ParseMounterArgs env it req =
     (if mr_Mounter req = S3FS then
        parse_args ''s3fs'' ''S3FSArgs'' s3fs_table no_S3FSArgs (s3fs_Validate env) (s3fs_PopulateArgsSlice it) req
      else if mr_Mounter req = RClone then
        parse_args ''rclone'' ''RCloneArgs'' rclone_table no_RCloneArgs (rclone_Validate env)
          (rclone_PopulateArgsSlice it) req
      else fail (Plain (sprintf [''unknown mounter: '', mr_Mounter req])))"

record MounterArgsParser =
  Parse :: "MountRequest \<Rightarrow> string list outcome run"

definition DefaultMounterArgsParser :: "env \<Rightarrow> iteration \<Rightarrow> MounterArgsParser" where
  "DefaultMounterArgsParser env it = \<lparr> Parse = ParseMounterArgs env it \<rparr>"


subsection \<open>The handlers\<close>

definition handleCosMount ::
    "MounterUtils \<Rightarrow> MounterArgsParser \<Rightarrow> (string \<Rightarrow> MountRequest res) \<Rightarrow> string \<Rightarrow> reply outcome run" where
  "handleCosMount mu parser binding body =
     (case binding body of
        Inl err \<Rightarrow> ret (400, [(''error'', ''invalid request'')])
      | Inr request \<Rightarrow>
          if mr_Mounter request \<noteq> S3FS \<and> mr_Mounter request \<noteq> RClone
          then ret (400, [(''error'', ''invalid mounter'')])
          else if mr_Bucket request = []
          then ret (400, [(''error'', ''missing bucket'')])
          else
            attempt (Parse parser request)
              (\<lambda>err. ret (400, [(''error'', sprintf [''invalid args for mounter: '', error_text err])]))
              (\<lambda>args.
                 attempt (mu_FuseMount mu (mr_Path request) (mr_Mounter request) args)
                   (\<lambda>err. ret (500, [(''error'', sprintf [''mount failed: '', error_text err])]))
                   (\<lambda>_. ret (200, [(''status'', ''success'')]))))"

text \<open>The anonymous struct of the handler has one field, the path.\<close>

definition handleCosUnmount :: "MounterUtils \<Rightarrow> (string \<Rightarrow> string res) \<Rightarrow> string \<Rightarrow> reply outcome run" where
  "handleCosUnmount mu binding body =
     (case binding body of
        Inl err \<Rightarrow> ret (400, [(''error'', ''invalid request'')])
      | Inr path \<Rightarrow>
          attempt (mu_FuseUnmount mu path)
            (\<lambda>err. ret (500, [(''error'', sprintf [''unmount failed :'', error_text err])]))
            (\<lambda>_. ret (200, [(''status'', ''success'')])))"

definition newRouter ::
    "env \<Rightarrow> iteration \<Rightarrow> (string \<Rightarrow> MountRequest res) \<Rightarrow> (string \<Rightarrow> string res) \<Rightarrow>
     (string \<times> (string \<Rightarrow> reply outcome run)) list" where
  "newRouter env it bind_mount bind_unmount =
     (let utils = MounterOptsUtils env; parser = DefaultMounterArgsParser env it
      in [(''/api/cos/mount'', handleCosMount utils parser bind_mount),
          (''/api/cos/unmount'', handleCosUnmount utils bind_unmount)])"


subsection \<open>The process\<close>

definition isInvalidSync :: "gerror \<Rightarrow> bool" where
  "isInvalidSync err \<longleftrightarrow>
     contains (to_lower (error_text err)) ''invalid argument'' \<or>
     contains (to_lower (error_text err)) ''inappropriate ioctl''"

definition server_socket :: string where
  "server_socket = path_join [SocketDir, SocketFile]"

text \<open>A stale socket is removed; a failure to look at it or to remove it is only logged.\<close>

definition setupSocket :: "env \<Rightarrow> string outcome run" where
  "setupSocket env =
     attempt (MkdirAll env SocketDir) fail
       (\<lambda>_. attempt
          (attempt (os_Stat env server_socket) (\<lambda>_. ret ())
             (\<lambda>_. attempt (os_Remove env server_socket) (\<lambda>_. ret ()) ret))
          fail
          (\<lambda>_. attempt (net_Listen env ''unix'' server_socket) fail (\<lambda>_. ret server_socket)))"

text \<open>
  \<open>handleSignals\<close> asks for the signals and starts a goroutine; what that does when a signal comes
  is \<open>on_signal\<close>: it ends the process.
\<close>

definition handleSignals :: "unit run" where
  "handleSignals = tell (Proc EvNotify)"

definition on_signal :: "env \<Rightarrow> nat outcome run" where
  "on_signal env = attempt (os_Remove env server_socket) (\<lambda>_. ret 0) (\<lambda>_. ret 0)"

text \<open>
  The listener is closed when serving ends, and a failure of that is only printed. The HTTP server
  calls the handlers of the router; that is not a step of this function.
\<close>

definition startService :: "env \<Rightarrow> string outcome run \<Rightarrow> unit run \<Rightarrow> unit outcome run" where
  "startService env setupSocketFunc handleSignalsFunc =
     attempt setupSocketFunc fail
       (\<lambda>listener. State_Monad.bind handleSignalsFunc (\<lambda>_.
          attempt (server_Serve env)
            (\<lambda>err. attempt (conn_Close env listener) (\<lambda>_. fail err) (\<lambda>_. fail err))
            (\<lambda>_. attempt (conn_Close env listener) (\<lambda>_. ret ()) (\<lambda>_. ret ()))))"

text \<open>The exit code of the process.\<close>

definition server_main :: "env \<Rightarrow> string list \<Rightarrow> nat outcome run" where
  "server_main env args =
     (if length args > 1 \<and> args ! 1 = ''version'' then ret 0
      else attempt (startService env (setupSocket env) handleSignals) (\<lambda>_. ret 1) (\<lambda>_. ret 0))"


subsection \<open>The contract of the parser\<close>

text \<open>
  \<open>parsed it es req args\<close>: the arguments are those of the request, decoded and built by the parser of
  its mounter, and the checks of the target path and of the credentials succeeded.
\<close>

definition parsed :: "iteration \<Rightarrow> event list \<Rightarrow> MountRequest \<Rightarrow> string list \<Rightarrow> bool" where
  "parsed it es req xs \<longleftrightarrow> safe_mount_path es (mr_Path req) \<and>
     (if mr_Mounter req = S3FS
      then \<exists>a. strictDecodeForUnknownFields ''S3FSArgs'' s3fs_table no_S3FSArgs (mr_Args req) = Inr a \<and>
             s3fs_PopulateArgsSlice it a (mr_Bucket req) (mr_Path req) = Inr xs \<and>
             credentials_seen es (sa_PasswdFilePath a)
      else mr_Mounter req = RClone \<and>
           (\<exists>a. strictDecodeForUnknownFields ''RCloneArgs'' rclone_table no_RCloneArgs (mr_Args req) = Inr a \<and>
             rclone_PopulateArgsSlice it a (mr_Bucket req) (mr_Path req) = Inr xs \<and>
             credentials_seen es (ra_ConfigPath a)))"

locale args_parser =
  fixes parser :: MounterArgsParser and ok :: "event list \<Rightarrow> MountRequest \<Rightarrow> string list \<Rightarrow> bool"
  assumes parse: "yields (Parse parser req)
       (\<lambda>r es. list_all looks es \<and>
          (case r of Ret xs \<Rightarrow> ok es req xs | Fail _ \<Rightarrow> True | Panic _ \<Rightarrow> False))"
    and ok_later: "ok es req xs \<Longrightarrow> ok (es @ es') req xs"

interpretation dp: args_parser "DefaultMounterArgsParser env it" "parsed it" for env it
proof
  fix req
  show "yields (Parse (DefaultMounterArgsParser env it) req)
       (\<lambda>r es. list_all looks es \<and>
          (case r of Ret xs \<Rightarrow> parsed it es req xs | Fail _ \<Rightarrow> True | Panic _ \<Rightarrow> False))"
    unfolding DefaultMounterArgsParser_def ParseMounterArgs_def parsed_def
    by (auto intro!: yields_fail
          yields_mono [OF s3args.parse_args_yields] yields_mono [OF rcargs.parse_args_yields]
          simp: S3FS_def RClone_def split: outcome.splits)
next
  show "parsed it (es @ es') req xs" if "parsed it es req xs" for es req xs es'
    using that safe_mount_path_append [of es _ "[]" es'] credentials_seen_append [of es _ "[]" es']
    by (auto simp: parsed_def split: if_splits)
qed


subsection \<open>What the handlers promise\<close>

text \<open>
  \<open>mount_reply\<close>: every command that was started is the mounter of the request with arguments the
  parser accepted, and there is none before a request is accepted; 200 means that the mount
  was seen, 400 that nothing was started, and there is no other code than 500 besides.
\<close>

definition may_start :: "(event list \<Rightarrow> MountRequest \<Rightarrow> string list \<Rightarrow> bool) \<Rightarrow> MountRequest \<Rightarrow>
    event list \<Rightarrow> event \<Rightarrow> bool" where
  "may_start ok req es e =
     (case starts e of
        None \<Rightarrow> True
      | Some (comm, args) \<Rightarrow> comm = mr_Mounter req \<and> comm \<in> {S3FS, RClone} \<and> mr_Bucket req \<noteq> [] \<and> ok es req args)"

definition mount_reply :: "(event list \<Rightarrow> MountRequest \<Rightarrow> string list \<Rightarrow> bool) \<Rightarrow> MountRequest res \<Rightarrow>
    reply outcome \<Rightarrow> event list \<Rightarrow> bool" where
  "mount_reply ok bound r es \<longleftrightarrow>
     (case bound of
        Inl _ \<Rightarrow> es = [] \<and> (case r of Ret (code, _) \<Rightarrow> code = 400 | _ \<Rightarrow> False)
      | Inr req \<Rightarrow>
          list_all local_event es \<and> list_all (may_start ok req es) es \<and>
          (case r of
             Ret (code, _) \<Rightarrow>
               code = 200 \<and> (\<exists>args. ok es req args) \<and> list_ex (seen_mounted (mr_Path req)) es \<or>
               code = 400 \<and> list_all looks es \<or>
               code = 500
           | _ \<Rightarrow> False))"

locale mount_service = mounter_utils mu + args_parser parser ok
  for mu :: MounterUtils and parser :: MounterArgsParser and ok
begin

lemma looks_simps: "looks e \<Longrightarrow> local_event e \<and> starts e = None"
  by (cases e rule: looks.cases) auto

lemma handleCosMount_reply:
  "yields (handleCosMount mu parser binding body) (mount_reply ok (binding body))"
proof (cases "binding body")
  case (Inl err)
  then show ?thesis by (auto simp: handleCosMount_def mount_reply_def intro!: yields_ret)
next
  case (Inr req)
  have early: "mount_reply ok (Inr req) (Ret (400, m)) es" if "list_all looks es" for m es
    using that looks_simps by (auto simp: mount_reply_def may_start_def list_all_iff)
  have run: "mount_reply ok (Inr req) (Ret (c, m)) (es @ es')"
    if es: "list_all looks es" "ok es req args" "mr_Mounter req \<in> {S3FS, RClone}" "mr_Bucket req \<noteq> []"
      and es': "list_all (runs_only (mr_Mounter req) args) es'"
      and c: "c = 500 \<or> c = 200 \<and> list_ex (seen_mounted (mr_Path req)) es'" for es es' c m args
  proof -
    have "may_start ok req (es @ es') e" if "e \<in> set (es @ es')" for e
      using that es es' ok_later [OF es(2), of es'] looks_simps [of e]
      by (auto simp: may_start_def list_all_iff runs_only_def split: option.split)
    then show ?thesis
      using es es' c ok_later [OF es(2), of es'] looks_simps
      by (auto simp: mount_reply_def list_all_iff runs_only_def)
  qed
  show ?thesis
    unfolding handleCosMount_def Inr sum.case
  proof (intro yields_if)
    assume known: "\<not> (mr_Mounter req \<noteq> S3FS \<and> mr_Mounter req \<noteq> RClone)" and bucket: "mr_Bucket req \<noteq> []"
    show "yields (attempt (Parse parser req)
              (\<lambda>err. ret (400, [(''error'', sprintf [''invalid args for mounter: '', error_text err])]))
              (\<lambda>args.
                 attempt (mu_FuseMount mu (mr_Path req) (mr_Mounter req) args)
                   (\<lambda>err. ret (500, [(''error'', sprintf [''mount failed: '', error_text err])]))
                   (\<lambda>_. ret (200, [(''status'', ''success'')]))))
        (mount_reply ok (Inr req))"
    proof (rule yields_attempt [OF parse], goal_cases)
      case (1 args es)
      then have es: "list_all looks es" "ok es req args" by auto
      show ?case
        by (rule yields_attempt [OF mount])
           (use known bucket in \<open>auto intro!: yields_ret run [OF es]\<close>)
    next
      case (2 e es)
      then show ?case by (auto intro!: yields_ret early)
    qed simp
  qed (auto intro!: yields_ret early)
qed

text \<open>The unmount handler always replies, and starts nothing on behalf of a request it cannot read.\<close>

lemma handleCosUnmount_reply:
  "yields (handleCosUnmount mu bind_path body)
     (\<lambda>r es. list_all local_event es \<and>
        (case r of
           Ret (code, _) \<Rightarrow> (if is_err (bind_path body) then code = 400 \<and> es = [] else code \<in> {200, 500})
         | _ \<Rightarrow> False))"
  unfolding handleCosUnmount_def
  by (cases "bind_path body") (auto intro!: yields_ret yields_attempt [OF unmount])

end

interpretation svc: mount_service "MounterOptsUtils env" "DefaultMounterArgsParser env it" "parsed it" for env it
  by unfold_locales

text \<open>
  C5. The mounter service never starts a command it should not, whatever a request says and however
  the body is bound to it: only s3fs or rclone, for a named bucket, with arguments decoded strictly
  and checked, on a target path below a kubelet directory, after the file with the credentials
  was seen in the configuration directory. It answers 200 only when the path was seen as a mount point, and
  400 only when nothing was started; it always answers.
\<close>

theorem handleCosMount_safe:
  "yields (handleCosMount (MounterOptsUtils env) (DefaultMounterArgsParser env it) binding body)
     (mount_reply (parsed it) (binding body))"
  by (rule svc.handleCosMount_reply)

text \<open>
  The unmount handler always answers: 400 without any call when the body cannot be bound, and
  otherwise 200 or 500, and it stays on the worker.
\<close>

theorem handleCosUnmount_answers:
  "yields (handleCosUnmount (MounterOptsUtils env) binding body)
     (\<lambda>r es. list_all local_event es \<and>
        (case r of
           Ret (code, _) \<Rightarrow> (if is_err (binding body) then code = 400 \<and> es = [] else code \<in> {200, 500})
         | _ \<Rightarrow> False))"
  by (rule svc.handleCosUnmount_reply)


subsection \<open>What the process does\<close>

definition only_removes :: "string \<Rightarrow> event list \<Rightarrow> bool" where
  "only_removes p es \<longleftrightarrow> list_all (\<lambda>e. removes e = None \<or> removes e = Some p) es"

lemma setupSocket_yields:
  "yields (setupSocket env)
     (\<lambda>r es. only_removes server_socket es \<and> list_all (\<lambda>e. \<not> (\<exists>x. e = Net (EvServe x))) es \<and>
        (case r of
           Ret s \<Rightarrow> s = server_socket \<and> Net (EvListen ''unix'' server_socket (Inr ())) \<in> set es
         | Fail _ \<Rightarrow> True
         | Panic _ \<Rightarrow> False))"
proof -
  have stale: "yields (attempt (os_Stat env server_socket) (\<lambda>_. ret ())
             (\<lambda>_. attempt (os_Remove env server_socket) (\<lambda>_. ret ()) ret))
      (\<lambda>r es. r = Ret () \<and> only_removes server_socket es \<and> list_all (\<lambda>e. \<not> (\<exists>x. e = Net (EvServe x))) es)"
    unfolding sys_fs_defs
    by (auto simp: only_removes_def intro!: yields_ret yields_attempt [OF yields_reply])
  show ?thesis
    unfolding setupSocket_def MkdirAll_def net_Listen_def
    by (rule yields_attempt_fail [OF yields_reply])
       (auto simp: only_removes_def intro!: yields_ret yields_attempt_fail [OF stale] yields_attempt_fail [OF yields_reply])
qed

definition is_serve :: "event \<Rightarrow> bool" where
  "is_serve e \<longleftrightarrow> (\<exists>x. e = Net (EvServe x))"

lemma is_serve_simps [simp]:
  "is_serve (Net (EvServe x))" "\<not> is_serve (Fs f)" "\<not> is_serve (Net (EvConnClose p y))"
  by (simp_all add: is_serve_def)

lemma startService_yields:
  "yields (startService env (setupSocket env) handleSignals)
     (\<lambda>r es. only_removes server_socket es \<and> length (filter is_serve es) \<le> 1 \<and>
        (list_ex is_serve es \<longrightarrow> Net (EvListen ''unix'' server_socket (Inr ())) \<in> set es \<and>
           (\<exists>y. last es = Net (EvConnClose server_socket y))) \<and>
        (case r of
           Ret _ \<Rightarrow> Net (EvServe (Inr ())) \<in> set es
         | Fail _ \<Rightarrow> Net (EvServe (Inr ())) \<notin> set es
         | Panic _ \<Rightarrow> False))"
proof -
  have quiet: "\<forall>e \<in> set es. \<not> is_serve e" if "list_all (\<lambda>e. \<not> (\<exists>x. e = Net (EvServe x))) es" for es
    using that by (auto simp: list_all_iff is_serve_def)
  have filt: "filter is_serve es = []" "Net (EvServe x) \<notin> set es"
    if "list_all (\<lambda>e. \<not> (\<exists>x. e = Net (EvServe x))) es" for es x
    using quiet [OF that] by (auto simp: filter_empty_conv)
  show ?thesis
    unfolding startService_def server_Serve_def conn_Close_def handleSignals_def
  proof (rule yields_attempt_fail [OF setupSocket_yields], goal_cases)
    case (1 s es)
    then have es: "s = server_socket" "Net (EvListen ''unix'' server_socket (Inr ())) \<in> set es"
      "only_removes server_socket es" "list_all (\<lambda>e. \<not> (\<exists>x. e = Net (EvServe x))) es" by auto
    show ?case
      by (rule yields_bind [OF yields_tell [where Q = "\<lambda>_ es. es = [Proc EvNotify]"]], simp,
          rule yields_attempt [OF yields_reply])
         (auto simp: es only_removes_def is_serve_def filt [OF es(4)]
            intro!: yields_ret yields_fail yields_attempt [OF yields_reply] es(3) [unfolded only_removes_def])
  next
    case (2 e es)
    then show ?case using filt [of es] quiet [of es] by (auto simp: list_ex_iff)
  qed simp
qed

text \<open>
  C30. The process of the service: with the argument \<open>version\<close> it ends with 0 and makes no call;
  otherwise it removes nothing but its own socket, serves at most once and only after it listens on
  that socket, closes the socket when serving ends, and ends with 0 exactly if serving ended
  without an error, and else with 1.
\<close>

theorem server_main_exit:
  "yields (server_main env args)
     (\<lambda>r es. only_removes server_socket es \<and> length (filter is_serve es) \<le> 1 \<and>
        (if list_ex is_serve es
         then Net (EvListen ''unix'' server_socket (Inr ())) \<in> set es \<and> (\<exists>y. last es = Net (EvConnClose server_socket y))
         else True) \<and>
        r = (if length args > 1 \<and> args ! 1 = ''version'' then Ret 0
             else if Net (EvServe (Inr ())) \<in> set es then Ret 0 else Ret 1))"
proof (cases "length args > 1 \<and> args ! 1 = ''version''")
  case True
  then show ?thesis by (auto simp: server_main_def only_removes_def intro!: yields_ret)
next
  case False
  show ?thesis
    unfolding server_main_def if_not_P [OF False]
    by (rule yields_attempt [OF startService_yields]) (auto intro!: yields_ret)
qed

end
