(* ===== verification/EndToEnd.thy ===== *)
theory EndToEnd
  imports NodeServer MounterServer
begin

section \<open>The driver and the mounter service together\<close>

text \<open>
  The driver on the node writes a JSON text, which the service reads: here the two sides are put
  together. What the service understands of the arguments that a mounter sends, which of them it
  refuses, and which command line it makes of them.
\<close>

subsection \<open>The payload of a mount\<close>

text \<open>
  The driver puts target path and bucket into the text without escaping them; for names
  without special characters the text is the encoding of an object. \<open>binds_json\<close> is what
  gin documents of \<open>BindJSON\<close>: it decodes the body with \<open>encoding/json\<close>.
\<close>

definition needs_no_escape :: "string \<Rightarrow> bool" where
  "needs_no_escape s \<longleftrightarrow> list_all (\<lambda>c. json_char c = [c]) s"

lemma json_string_plain: "needs_no_escape s \<Longrightarrow> json_string s = [CHR 0x22] @ s @ [CHR 0x22]"
  unfolding needs_no_escape_def json_string_def by (induction s) auto

definition payload_value :: "string \<Rightarrow> string \<Rightarrow> string \<Rightarrow> smap \<Rightarrow> json" where
  "payload_value target bucket mounter_name args =
     JObj [(''path'', JStr target), (''bucket'', JStr bucket), (''mounter'', JStr mounter_name),
           (''args'', JObj (string_members (sorted_bindings args)))]"

lemma json_key:
  "json_string ''path'' = [CHR 0x22] @ ''path'' @ [CHR 0x22]"
  "json_string ''bucket'' = [CHR 0x22] @ ''bucket'' @ [CHR 0x22]"
  "json_string ''mounter'' = [CHR 0x22] @ ''mounter'' @ [CHR 0x22]"
  "json_string ''args'' = [CHR 0x22] @ ''args'' @ [CHR 0x22]"
  by (rule json_string_plain, code_simp)+

lemma mount_payload_text:
  assumes "needs_no_escape target" and "needs_no_escape bucket" and "needs_no_escape m"
  shows "mount_payload target bucket m args = json_text (payload_value target bucket m args)"
  using assms
  by (simp add: mount_payload_def sprintf_def payload_value_def json_key json_string_plain json_map_def
      json_object_text)

lemma unmount_payload_text:
  "needs_no_escape target \<Longrightarrow> unmount_payload target = json_text (JObj [(''path'', JStr target)])"
  by (simp add: unmount_payload_def sprintf_def json_key json_string_plain)

definition binds_json :: "(string \<Rightarrow> MountRequest res) \<Rightarrow> bool" where
  "binds_json binding \<longleftrightarrow>
     (\<forall>body. binding body =
        (case json_decode body of
           Inl e \<Rightarrow> Inl e
         | Inr v \<Rightarrow> decode_struct ''MountRequest'' False MountRequest_fields no_MountRequest v))"

definition sample_binding :: "string \<Rightarrow> MountRequest res" where
  "sample_binding body =
     (case json_decode body of
        Inl e \<Rightarrow> Inl e
      | Inr v \<Rightarrow> decode_struct ''MountRequest'' False MountRequest_fields no_MountRequest v)"

lemma sample_binds: "binds_json sample_binding"
  by (simp add: binds_json_def sample_binding_def)

lemma payload_nests: "nests 0 (payload_value t b m args)"
  using nests_object(2) [of "sorted_bindings args"] by (simp add: payload_value_def max_nesting_def)

lemma find_field_args [simp]:
  "find_field MountRequest_fields ''path'' =
     Some (''path'', \<lambda>v r. map_option (\<lambda>s. r\<lparr>mr_Path := s\<rparr>) (into_string v (mr_Path r)))"
  "find_field MountRequest_fields ''bucket'' =
     Some (''bucket'', \<lambda>v r. map_option (\<lambda>s. r\<lparr>mr_Bucket := s\<rparr>) (into_string v (mr_Bucket r)))"
  "find_field MountRequest_fields ''mounter'' =
     Some (''mounter'', \<lambda>v r. map_option (\<lambda>s. r\<lparr>mr_Mounter := s\<rparr>) (into_string v (mr_Mounter r)))"
  "find_field MountRequest_fields ''args'' = Some (''args'', \<lambda>v r. Some (r\<lparr>mr_Args := Some v\<rparr>))"
  by (simp_all add: find_field_def MountRequest_fields_def string_fields_def)

lemma payload_bound:
  assumes "binds_json binding"
    and "needs_no_escape target" and "needs_no_escape bucket" and "needs_no_escape m"
  shows "binding (mount_payload target bucket m args) =
     Inr \<lparr> mr_Path = target, mr_Bucket = bucket, mr_Mounter = m,
           mr_Args = Some (JObj (string_members (sorted_bindings args))) \<rparr>"
proof -
  have "json_decode (mount_payload target bucket m args) = Inr (payload_value target bucket m args)"
    unfolding mount_payload_text [OF assms(2-4)] by (rule decode_text [OF payload_nests])
  then have "binding (mount_payload target bucket m args) =
      decode_struct ''MountRequest'' False MountRequest_fields no_MountRequest (payload_value target bucket m args)"
    using assms(1) unfolding binds_json_def by simp
  also have "\<dots> = Inr \<lparr> mr_Path = target, mr_Bucket = bucket, mr_Mounter = m,
           mr_Args = Some (JObj (string_members (sorted_bindings args))) \<rparr>"
    by (simp add: payload_value_def decode_struct_def struct_member_def no_MountRequest_def)
  finally show ?thesis .
qed


subsection \<open>Which arguments the service understands\<close>

lemma find_field_None:
  "find_field fds k = None \<longleftrightarrow> list_all (\<lambda>n. \<not> equal_fold n k) (map fst fds)"
proof (cases "find (\<lambda>(n, _). n = k) fds")
  case None
  show ?thesis
    unfolding find_field_def None option.case by (auto simp: find_None_iff list_all_iff)
next
  case (Some f)
  then have "f \<in> set fds" "equal_fold (fst f) k"
    by (auto simp: find_Some_iff equal_fold_def in_set_conv_nth)
  with Some show ?thesis by (auto simp: find_field_def list_all_iff)
qed

lemma fields_names [simp]: "map fst (string_fields table) = map fst table"
  by (auto simp: string_fields_def)

lemma s3fs_names: "map fst s3fs_table =
    [''allow_other'', ''auto_cache'', ''cipher_suites'', ''connect_timeout'', ''curldbg'', ''dbglevel'',
     ''default_acl'', ''disable_noobj_cache'', ''endpoint'', ''gid'', ''ibm_iam_auth'', ''ibm_iam_endpoint'',
     ''instance_name'', ''kernel_cache'', ''max_background'', ''max_dirty_data'', ''max_stat_cache_size'',
     ''mp_umask'', ''multipart_size'', ''multireq_max'', ''parallel_count'', ''passwd_file'', ''ro'',
     ''readwrite_timeout'', ''retries'', ''sigv2'', ''sigv4'', ''stat_cache_expire'', ''uid'', ''umask'', ''url'',
     ''use_path_request_style'', ''use_xattr'', ''add-mount-param'']"
  by (simp add: s3fs_table_def)

lemma known_names: "set (set_m GetKnownS3FSOptions) \<subseteq> set (map fst s3fs_table) \<union> {''tmpdir'', ''use_cache''}"
  unfolding s3fs_names by (auto simp: GetKnownS3FSOptions_def set_m_NewSetWithValues)

lemma cache_options_unknown:
  assumes "k \<in> {''tmpdir'', ''use_cache''}"
  shows "find_field (string_fields s3fs_table) k = None"
proof -
  have "list_all (\<lambda>n. \<not> equal_fold n ''tmpdir'') (map fst s3fs_table)"
    "list_all (\<lambda>n. \<not> equal_fold n ''use_cache'') (map fst s3fs_table)"
    unfolding s3fs_names by code_simp+
  with assms show ?thesis by (auto simp: find_field_None)
qed

lemma s3fs_args_decoded:
  assumes "smap_wf args" and "set (mkeys args) \<subseteq> set (map fst s3fs_table)" and "fair_iteration it"
    and "(k, v) \<in> set args" and "v \<noteq> []" and "\<not> dropped (k, v)" and "k \<notin> {''ibm_iam_auth'', ''ibm_iam_endpoint''}"
    and "strictDecodeForUnknownFields ''S3FSArgs'' s3fs_table no_S3FSArgs
           (Some (JObj (string_members (sorted_bindings args)))) = Inr a"
    and "s3fs_PopulateArgsSlice it a b p = Inr xs"
  shows "sublist (s3fs_option (k, v)) xs"
proof -
  obtain r where "decode_struct ''S3FSArgs'' True (string_fields s3fs_table) no_S3FSArgs
        (JObj (string_members (sorted_bindings args))) = Inr r"
      "mset (omit_empty s3fs_table r) = mset (filter (\<lambda>(_, v). v \<noteq> []) args)"
    using s3a.decode_sorted [OF assms(1,2)] by blast
  with assms(8) have "mset (omit_empty s3fs_table a) = mset (filter (\<lambda>(_, v). v \<noteq> []) args)"
    by (simp add: strictDecodeForUnknownFields_def)
  then have "(k, v) \<in> set (omit_empty s3fs_table a)"
    using assms(4,5) by (simp add: set_mset_mset [symmetric] del: set_mset_mset)
  then have "(k, v) \<in> set (loop_options a)"
    using assms(6,7) by (simp add: loop_options_def)
  moreover obtain opts where "mset opts = mset (loop_options a)"
    and xs: "s3fs_PopulateArgsSlice it a b p = Inr ([b, p]
      @ (if sa_IBMIamAuth a = [] then [] else s3fs_option (''ibm_iam_auth'', sa_IBMIamAuth a))
      @ (if sa_IBMIamEndpoint a = [] then []
         else [''-o'', sprintf [''ibm_iam_endpoint='', sa_IBMIamEndpoint a]])
      @ concat (map s3fs_option opts) @ extra_options a)"
    using s3fs_args_built [OF assms(3)] by blast
  ultimately have "(k, v) \<in> set opts" by (metis set_mset_mset)
  then obtain o1 o2 where "opts = o1 @ (k, v) # o2" by (metis in_set_conv_decomp)
  then have "sublist (s3fs_option (k, v)) (concat (map s3fs_option opts))"
    by (auto simp: sublist_def)
  then show ?thesis
    using xs assms(9) by (auto simp: sublist_def) (metis append.assoc append_Cons)+
qed

lemma mkeys_bound: "k \<in> set (mkeys m) \<Longrightarrow> \<exists>v. (k, v) \<in> set m"
  by (auto simp: mkeys_def)

lemma s3fs_args_unknown:
  assumes "(k, v) \<in> set args" and "find_field (string_fields s3fs_table) k = None"
  shows "\<exists>e. strictDecodeForUnknownFields ''S3FSArgs'' s3fs_table no_S3FSArgs
           (Some (JObj (string_members (sorted_bindings args)))) = Inl e"
proof -
  have "(k, JStr v) \<in> set (string_members (sorted_bindings args))"
    using assms(1) by (force simp: string_members_def)
  from decode_unknown [OF this assms(2)] show ?thesis
    by (simp add: strictDecodeForUnknownFields_def)
qed

text \<open>The commands of a request, from the safety of the handler.\<close>

lemma handler_starts:
  assumes "binding body = Inr req" and "\<And>es xs. parsed it es req xs \<Longrightarrow> P xs" and "mr_Mounter req = m"
  shows "yields (handleCosMount (MounterOptsUtils env) (DefaultMounterArgsParser env it) binding body)
     (\<lambda>_ es. list_all (\<lambda>e. case starts e of None \<Rightarrow> True | Some (c, xs) \<Rightarrow> c = m \<and> P xs) es)"
proof (rule yields_mono [OF svc.handleCosMount_reply], unfold assms(1))
  fix r es
  assume "mount_reply (parsed it) (Inr req) r es"
  then have "list_all (may_start (parsed it) req es) es" by (simp add: mount_reply_def)
  then show "list_all (\<lambda>e. case starts e of None \<Rightarrow> True | Some (c, xs) \<Rightarrow> c = m \<and> P xs) es"
    using assms(2) [of es] assms(3) by (auto simp: list_all_iff may_start_def split: option.splits prod.splits)
qed


subsection \<open>A read-only mount stays read-only\<close>

lemma no_escape_names: "needs_no_escape S3FS" "needs_no_escape RClone"
  by code_simp+

text \<open>
  C14. A read-only claim that uses s3fs is mounted read-only on the worker: whatever the options of
  the storage class and the secret are, in whatever order the maps are iterated on either side, every
  command that the service starts for the payload of the driver is s3fs with the option \<open>ro\<close>. If
  the payload has an option that the service does not know, it starts none.
\<close>

theorem s3fs_read_only_command:
  assumes "binds_json binding" and "fair_iteration it" and "fair_iteration it'"
    and "mp_KnownS3FSOptions p = Some GetKnownS3FSOptions" and "mp_DefaultMOMap p = Some [(CipherSuitesKey, c)]"
    and "mp_ReadOnly p" and "NewS3fsMounter it (s3fs_params env p) = Ret s3"
    and "needs_no_escape target" and "needs_no_escape (s3fs_bucket s3)"
  shows "yields (handleCosMount (MounterOptsUtils wenv) (DefaultMounterArgsParser wenv it') binding (s3fs_payload s3 target))
     (\<lambda>_ es. list_all (\<lambda>e. case starts e of
        None \<Rightarrow> True | Some (comm, xs) \<Rightarrow> comm = S3FS \<and> sublist [''-o'', ''ro''] xs) es)"
proof -
  let ?args = "snd (s3fs_formulateMountOptions s3 (s3fs_bucket s3) target (s3fs_file target))"
  let ?req = "\<lparr> mr_Path = target, mr_Bucket = s3fs_bucket s3, mr_Mounter = S3FS,
           mr_Args = Some (JObj (string_members (sorted_bindings ?args))) \<rparr>"
  have d: "plain_keys (deref (sp_DefaultParams (s3fs_params env p)))"
    by (simp add: s3fs_params_def assms(5) plain_keys_def smap_wf_def CipherSuitesKey_def)
  have known: "sp_KnownS3FSOptions (s3fs_params env p) = Some GetKnownS3FSOptions"
    by (simp add: s3fs_params_def assms(4))
  have "\<exists>s3. NewS3fsMounter it (s3fs_params env p) = Ret s3 \<and>
     (\<forall>b t f. map_of (snd (s3fs_formulateMountOptions s3 b t f)) ''ro'' = Some ''true'')"
    by (rule s3fs_read_only [OF assms(2) known d]) (simp add: s3fs_params_def assms(6))
  then have ro: "map_of ?args ''ro'' = Some ''true''"
    using assms(7) by auto
  have keys: "set (mkeys ?args) \<subseteq> set (map fst s3fs_table) \<union> {''tmpdir'', ''use_cache''}"
  proof -
    have "set (map fst (deref (sp_DefaultParams (s3fs_params env p)))) \<subseteq> set (map fst s3fs_table)"
      "''add-mount-param'' \<in> set (map fst s3fs_table)"
      unfolding s3fs_names by (simp_all add: s3fs_params_def assms(5) CipherSuitesKey_def)
    with formulate_keys [OF assms(2) known d assms(7)] known_names show ?thesis by blast
  qed
  have "sublist [''-o'', ''ro''] xs" if "parsed it' es ?req xs" for es xs
  proof (cases "set (mkeys ?args) \<subseteq> set (map fst s3fs_table)")
    case True
    from that obtain a where "strictDecodeForUnknownFields ''S3FSArgs'' s3fs_table no_S3FSArgs
           (Some (JObj (string_members (sorted_bindings ?args)))) = Inr a"
        "s3fs_PopulateArgsSlice it' a (s3fs_bucket s3) target = Inr xs"
      by (auto simp: parsed_def)
    from s3fs_args_decoded [OF formulate_wf True assms(3) map_of_SomeD [OF ro] _ _ _ this]
    have "sublist (s3fs_option (''ro'', ''true'')) xs" by (simp add: dropped_def)
    moreover have "is_true ''true''" by code_simp
    ultimately show ?thesis by (simp add: s3fs_option_def)
  next
    case False
    then obtain k where "k \<in> set (mkeys ?args)" "k \<in> {''tmpdir'', ''use_cache''}"
      using keys by blast
    then obtain v where "(k, v) \<in> set ?args" "k \<in> {''tmpdir'', ''use_cache''}"
      using mkeys_bound by blast
    from s3fs_args_unknown [OF this(1) cache_options_unknown [OF this(2)]] that
    show ?thesis by (auto simp: parsed_def)
  qed
  moreover have "binding (s3fs_payload s3 target) = Inr ?req"
    unfolding s3fs_payload_def by (rule payload_bound [OF assms(1,8,9) no_escape_names(1)])
  ultimately show ?thesis
    by (intro handler_starts [where req = ?req and P = "\<lambda>xs. sublist [''-o'', ''ro''] xs"]) simp_all
qed

lemma NewS3fsMounter_bucket:
  assumes "NewS3fsMounter it params = Ret s3" and "sp_SecretMap params = Some secret"
  shows "s3_BucketName s3 = mget secret ''bucketName'' \<and> s3_ObjectPath s3 = mget secret ''objectPath''"
  using assms by (auto simp: NewS3fsMounter_def Let_def split: outcome.splits)

definition sample_claim :: MounterParams where
  "sample_claim = \<lparr> mp_Attrib = None,
     mp_SecretMap = Some [(''apiKey'', ''k''), (''bucketName'', ''b''), (''cosEndpoint'', ''https://s3'')],
     mp_MountFlags = Some [''ro=false''], mp_KnownS3FSOptions = Some GetKnownS3FSOptions,
     mp_DefaultMOMap = Some [(CipherSuitesKey, ''AESGCM'')], mp_Gid = [], mp_ReadOnly = True \<rparr>"

definition sample_s3 :: S3fsMounter where
  "sample_s3 = (case NewS3fsMounter (\<lambda>_ m. m) (s3fs_params env_ok sample_claim) of
     Ret s3 \<Rightarrow> s3 | _ \<Rightarrow> zero_S3fsMounter (MounterOptsUtils env_ok))"

lemma sample_s3_made: "NewS3fsMounter (\<lambda>_ m. m) (s3fs_params env_ok sample_claim) = Ret sample_s3"
proof -
  have "\<exists>s3. NewS3fsMounter (\<lambda>_ m. m) (s3fs_params env_ok sample_claim) = Ret s3 \<and>
     (\<forall>b t p. map_of (snd (s3fs_formulateMountOptions s3 b t p)) ''ro'' = Some ''true'')"
    by (rule s3fs_read_only [OF fair_identity, where S = GetKnownS3FSOptions])
       (simp_all add: s3fs_params_def sample_claim_def plain_keys_def smap_wf_def CipherSuitesKey_def)
  then show ?thesis by (auto simp: sample_s3_def)
qed

lemma sample_bucket: "s3fs_bucket sample_s3 = ''b''"
  using NewS3fsMounter_bucket [OF sample_s3_made]
  by (simp add: s3fs_bucket_def s3fs_params_def factory_secrets_def sample_claim_def mget_def)

theorem s3fs_read_only_command_witness:
  "yields (handleCosMount (MounterOptsUtils env_ok) (DefaultMounterArgsParser env_ok (\<lambda>_. rev)) sample_binding
      (s3fs_payload sample_s3 ''/var/lib/kubelet/pods/v''))
     (\<lambda>_ es. list_all (\<lambda>e. case starts e of
        None \<Rightarrow> True | Some (comm, xs) \<Rightarrow> comm = S3FS \<and> sublist [''-o'', ''ro''] xs) es)"
proof (rule s3fs_read_only_command [OF sample_binds fair_identity fair_rev _ _ _ sample_s3_made])
  show "needs_no_escape ''/var/lib/kubelet/pods/v''" by code_simp
  show "needs_no_escape (s3fs_bucket sample_s3)" unfolding sample_bucket by code_simp
qed (simp_all add: sample_claim_def)


lemma rclone_args_known:
  "smap_wf (snd (rclone_formulateMountOptions rc b t d))"
  "set (mkeys (snd (rclone_formulateMountOptions rc b t d))) \<subseteq> set (map fst rclone_table)"
proof -
  let ?w = "\<lambda>f. [(''allow-other'', ''true''), (''daemon'', ''true''), (''config'', f),
                (''log-file'', ''/var/log/rclone.log''), (''vfs-cache-mode'', ''writes'')]"
  have "smap_wf (?w f)" for f by (simp add: smap_wf_def)
  then show "smap_wf (snd (rclone_formulateMountOptions rc b t d))"
    by (simp add: rclone_formulateMountOptions_def Let_def gm.wf_put)
  have "set (mkeys (?w f)) \<subseteq> set (map fst rclone_table)" for f
    by (simp add: mkeys_def rclone_table_def)
  moreover have "{''gid'', ''uid'', ''read-only''} \<subseteq> set (map fst rclone_table)"
    by (simp add: rclone_table_def)
  ultimately show "set (mkeys (snd (rclone_formulateMountOptions rc b t d))) \<subseteq> set (map fst rclone_table)"
    by (simp add: rclone_formulateMountOptions_def Let_def gm.keys_put)
qed

text \<open>
  C28. The same for rclone, whose arguments the service always understands: every command that it
  starts for the payload of the driver is rclone with the flag \<open>--read-only=true\<close>.
\<close>

theorem rclone_read_only_command:
  assumes "binds_json binding" and "fair_iteration it'" and "mp_ReadOnly p"
    and "needs_no_escape target" and "needs_no_escape (rclone_bucket (NewRcloneMounter it (rclone_params env p)))"
  shows "yields (handleCosMount (MounterOptsUtils wenv) (DefaultMounterArgsParser wenv it') binding
       (rclone_payload (NewRcloneMounter it (rclone_params env p)) target))
     (\<lambda>_ es. list_all (\<lambda>e. case starts e of
        None \<Rightarrow> True | Some (comm, xs) \<Rightarrow> comm = RClone \<and> ''--read-only=true'' \<in> set xs) es)"
proof -
  let ?rc = "NewRcloneMounter it (rclone_params env p)"
  let ?args = "snd (rclone_formulateMountOptions ?rc (rclone_bucket ?rc) target (cred_dir MounterConfigPathOnHost target))"
  let ?req = "\<lparr> mr_Path = target, mr_Bucket = rclone_bucket ?rc, mr_Mounter = RClone,
           mr_Args = Some (JObj (string_members (sorted_bindings ?args))) \<rparr>"
  have "rc_ReadOnly ?rc" by (simp add: NewRcloneMounter_def rclone_params_def Let_def assms(3))
  then have ro: "map_of ?args ''read-only'' = Some ''true''"
    by (simp add: rclone_formulateMountOptions_def Let_def smap_simps)
  have "''--read-only=true'' \<in> set xs" if parsed: "parsed it' es ?req xs" for es xs
  proof -
    from parsed obtain a where
      a: "strictDecodeForUnknownFields ''RCloneArgs'' rclone_table no_RCloneArgs
           (Some (JObj (string_members (sorted_bindings ?args)))) = Inr a"
        "rclone_PopulateArgsSlice it' a (rclone_bucket ?rc) target = Inr xs"
      by (auto simp: parsed_def S3FS_def RClone_def)
    obtain r where "decode_struct ''RCloneArgs'' True (string_fields rclone_table) no_RCloneArgs
        (JObj (string_members (sorted_bindings ?args))) = Inr r"
      "mset (omit_empty rclone_table r) = mset (filter (\<lambda>(_, v). v \<noteq> []) ?args)"
      using rca.decode_sorted [OF rclone_args_known] by blast
    with a(1) have "mset (omit_empty rclone_table a) = mset (filter (\<lambda>(_, v). v \<noteq> []) ?args)"
      by (simp add: strictDecodeForUnknownFields_def)
    then have "(''read-only'', ''true'') \<in> set (omit_empty rclone_table a)"
      using map_of_SomeD [OF ro] by (simp add: set_mset_mset [symmetric] del: set_mset_mset)
    then have "rclone_option (''read-only'', ''true'') \<in> set xs"
      using a(2) fair_iteration_set [OF assms(2)] by (auto simp: rclone_args_built)
    then show ?thesis by (simp add: rclone_option_def sprintf_def)
  qed
  moreover have "binding (rclone_payload ?rc target) = Inr ?req"
    unfolding rclone_payload_def by (rule payload_bound [OF assms(1,4,5) no_escape_names(2)])
  ultimately show ?thesis
    by (intro handler_starts [where req = ?req and P = "\<lambda>xs. ''--read-only=true'' \<in> set xs"]) simp_all
qed

theorem rclone_read_only_command_witness:
  "yields (handleCosMount (MounterOptsUtils env_ok) (DefaultMounterArgsParser env_ok (\<lambda>_. rev)) sample_binding
       (rclone_payload (NewRcloneMounter (\<lambda>_ m. m) (rclone_params env_ok sample_claim)) ''/var/lib/kubelet/pods/v''))
     (\<lambda>_ es. list_all (\<lambda>e. case starts e of
        None \<Rightarrow> True | Some (comm, xs) \<Rightarrow> comm = RClone \<and> ''--read-only=true'' \<in> set xs) es)"
proof (rule rclone_read_only_command [OF sample_binds fair_rev])
  show "mp_ReadOnly sample_claim" by (simp add: sample_claim_def)
  show "needs_no_escape ''/var/lib/kubelet/pods/v''" by code_simp
  have "rclone_bucket (NewRcloneMounter (\<lambda>_ m. m) (rclone_params env_ok sample_claim)) = ''ibmcos:b''"
    by (simp add: rclone_bucket_def NewRcloneMounter_def Let_def rclone_params_def factory_secrets_def
        sample_claim_def mget_def remote_def)
  moreover have "needs_no_escape ''ibmcos:b''" by code_simp
  ultimately show "needs_no_escape (rclone_bucket (NewRcloneMounter (\<lambda>_ m. m) (rclone_params env_ok sample_claim)))"
    by simp
qed


subsection \<open>Options that the service refuses\<close>

lemma cache_option_sent:
  assumes it: "fair_iteration it" and known: "sp_KnownS3FSOptions params = Some S"
    and d: "plain_keys (deref (sp_DefaultParams params))"
    and k: "k \<in> {''tmpdir'', ''use_cache''}" and v: "map_of (deref (sp_SecretMap params)) k = Some v"
    and s3: "NewS3fsMounter it params = Ret s3"
  shows "\<exists>v. map_of (snd (s3fs_formulateMountOptions s3 b t f)) k = Some v"
proof -
  let ?d = "deref (sp_DefaultParams params)"
  obtain m0 u where m0: "plain_keys m0"
    and up: "\<And>it. updateS3FSMountOptions it (case sp_MountOptions params of None \<Rightarrow> [] | Some ops \<Rightarrow> ops)
      (deref (sp_SecretMap params)) (Some S) ?d (sp_Gid params) (sp_ReadOnly params) =
           Ret (buildMountOptionsSlice it (override_options (deref (sp_SecretMap params)) (sp_Gid params)
                  (sp_ReadOnly params) m0) ?d, buildAddMountParam it u)"
    by (rule updateS3FSMountOptions_override
      [where ops = "case sp_MountOptions params of None \<Rightarrow> [] | Some ops \<Rightarrow> ops"
         and secretMap = "deref (sp_SecretMap params)" and S = S and d = ?d
         and gid = "sp_Gid params" and ro = "sp_ReadOnly params"]) (rule that)
  define m where "m = override_options (deref (sp_SecretMap params)) (sp_Gid params) (sp_ReadOnly params) m0"
  have "map_of m k = Some v"
    using override_lookup(5,6) [OF m_def] k v by auto
  from worker_fold_wanted [OF it _ d this] plain_override [OF m0]
  have fold: "map_of (foldl worker_option w (s3_MountOptions s3)) k = Some (entry_value (k, v))" for w
    using s3 by (auto simp: NewS3fsMounter_def known up m_def Let_def)
  have ne: "k \<noteq> n" if "n \<in> {''endpoint'', ''ibm_iam_auth'', ''ibm_iam_endpoint'', ''default_acl'', ''add-mount-param''}" for n
    using k that by auto
  show ?thesis
    by (simp add: s3fs_formulateMountOptions_def Let_def put_if_lookup smap_simps fold ne)
qed

text \<open>
  C26. The options for the cache of s3fs are known to the driver but not to the service: when the
  secret of a claim has \<open>tmpdir\<close> or \<open>use_cache\<close>, the service answers the payload of the driver
  with 400 and without a single call, so that such a claim is never mounted.
\<close>

theorem cache_secret_never_mounts:
  assumes "binds_json binding" and "fair_iteration it"
    and "mp_KnownS3FSOptions p = Some S" and "mp_DefaultMOMap p = Some [(CipherSuitesKey, c)]"
    and "NewS3fsMounter it (s3fs_params env p) = Ret s3"
    and "k \<in> {''tmpdir'', ''use_cache''}" and "map_of (factory_secrets p) k = Some v"
    and "needs_no_escape target" and "needs_no_escape (s3fs_bucket s3)"
  shows "yields (handleCosMount (MounterOptsUtils wenv) (DefaultMounterArgsParser wenv it') binding (s3fs_payload s3 target))
     (\<lambda>r es. es = [] \<and> (case r of Ret (code, _) \<Rightarrow> code = 400 | _ \<Rightarrow> False))"
proof -
  let ?args = "snd (s3fs_formulateMountOptions s3 (s3fs_bucket s3) target (s3fs_file target))"
  have "\<exists>v. map_of ?args k = Some v"
    by (rule cache_option_sent [OF assms(2) _ _ assms(6) _ assms(5)])
       (simp_all add: s3fs_params_def assms(3,4,7) plain_keys_def smap_wf_def CipherSuitesKey_def)
  then obtain w where "(k, w) \<in> set ?args" by (auto dest: map_of_SomeD)
  from s3fs_args_unknown [OF this cache_options_unknown [OF assms(6)]] obtain e where
    e: "strictDecodeForUnknownFields ''S3FSArgs'' s3fs_table no_S3FSArgs
           (Some (JObj (string_members (sorted_bindings ?args)))) = Inl e" by blast
  have "binding (s3fs_payload s3 target) = Inr \<lparr> mr_Path = target, mr_Bucket = s3fs_bucket s3, mr_Mounter = S3FS,
           mr_Args = Some (JObj (string_members (sorted_bindings ?args))) \<rparr>"
    unfolding s3fs_payload_def by (rule payload_bound [OF assms(1,8,9) no_escape_names(1)])
  then show ?thesis
    by (simp add: handleCosMount_def DefaultMounterArgsParser_def ParseMounterArgs_def parse_args_def e)
       (auto intro!: yields_ret)
qed

definition sample_cached :: MounterParams where
  "sample_cached = sample_claim \<lparr> mp_SecretMap :=
     Some [(''apiKey'', ''k''), (''bucketName'', ''b''), (''tmpdir'', ''/tmp'')] \<rparr>"

definition sample_s3_cached :: S3fsMounter where
  "sample_s3_cached = (case NewS3fsMounter (\<lambda>_ m. m) (s3fs_params env_ok sample_cached) of
     Ret s3 \<Rightarrow> s3 | _ \<Rightarrow> zero_S3fsMounter (MounterOptsUtils env_ok))"

theorem cache_secret_never_mounts_witness:
  "yields (handleCosMount (MounterOptsUtils env_ok) (DefaultMounterArgsParser env_ok (\<lambda>_ m. m)) sample_binding
      (s3fs_payload sample_s3_cached ''/var/lib/kubelet/pods/v''))
     (\<lambda>r es. es = [] \<and> (case r of Ret (code, _) \<Rightarrow> code = 400 | _ \<Rightarrow> False))"
proof -
  have made: "NewS3fsMounter (\<lambda>_ m. m) (s3fs_params env_ok sample_cached) = Ret sample_s3_cached"
  proof -
    have "\<exists>s3. NewS3fsMounter (\<lambda>_ m. m) (s3fs_params env_ok sample_cached) = Ret s3 \<and>
       (\<forall>b t p. map_of (snd (s3fs_formulateMountOptions s3 b t p)) ''ro'' = Some ''true'')"
      by (rule s3fs_read_only [OF fair_identity, where S = GetKnownS3FSOptions])
         (simp_all add: s3fs_params_def sample_cached_def sample_claim_def plain_keys_def smap_wf_def CipherSuitesKey_def)
    then show ?thesis by (auto simp: sample_s3_cached_def)
  qed
  have "s3fs_bucket sample_s3_cached = ''b''"
    using NewS3fsMounter_bucket [OF made]
    by (simp add: s3fs_bucket_def s3fs_params_def factory_secrets_def sample_cached_def sample_claim_def mget_def)
  moreover have "needs_no_escape ''b''" "needs_no_escape ''/var/lib/kubelet/pods/v''" by code_simp+
  ultimately show ?thesis
    by (intro cache_secret_never_mounts [OF sample_binds fair_identity _ _ made,
          where S = GetKnownS3FSOptions and k = "''tmpdir''" and v = "''/tmp''"])
       (simp_all add: sample_cached_def sample_claim_def factory_secrets_def)
qed


subsection \<open>What the service reads is what the driver meant\<close>

text \<open>
  C13. The request survives the way over the socket: for a target path and a bucket that need no
  escape in JSON, the service binds the payload to the same path, bucket and mounter, and when each
  argument has a field of the mounter's struct its strict decoder accepts them; the fields that it
  passes on to the command line are exactly the arguments that are not empty, each once.
\<close>

theorem mount_request_roundtrip:
  assumes "binds_json binding" and "needs_no_escape target" and "needs_no_escape bucket"
    and "smap_wf s3fs_args" and "set (mkeys s3fs_args) \<subseteq> set (map fst s3fs_table)"
    and "smap_wf rclone_args" and "set (mkeys rclone_args) \<subseteq> set (map fst rclone_table)"
  shows "(\<exists>req a. binding (mount_payload target bucket S3FS s3fs_args) = Inr req \<and>
            mr_Path req = target \<and> mr_Bucket req = bucket \<and> mr_Mounter req = S3FS \<and>
            strictDecodeForUnknownFields ''S3FSArgs'' s3fs_table no_S3FSArgs (mr_Args req) = Inr a \<and>
            mset (omit_empty s3fs_table a) = mset (filter (\<lambda>(_, v). v \<noteq> []) s3fs_args)) \<and>
         (\<exists>req a. binding (mount_payload target bucket RClone rclone_args) = Inr req \<and>
            mr_Path req = target \<and> mr_Bucket req = bucket \<and> mr_Mounter req = RClone \<and>
            strictDecodeForUnknownFields ''RCloneArgs'' rclone_table no_RCloneArgs (mr_Args req) = Inr a \<and>
            mset (omit_empty rclone_table a) = mset (filter (\<lambda>(_, v). v \<noteq> []) rclone_args))"
  using payload_bound [OF assms(1-3) no_escape_names(1), of s3fs_args]
    payload_bound [OF assms(1-3) no_escape_names(2), of rclone_args]
    s3a.decode_sorted [OF assms(4,5)] rca.decode_sorted [OF assms(6,7)]
  unfolding strictDecodeForUnknownFields_def by fastforce

text \<open>A sample with an argument that needs an escape and one that is empty.\<close>

theorem mount_request_roundtrip_witness:
  "\<exists>req a. sample_binding (mount_payload ''/p'' ''b'' S3FS [(''url'', ''x\"y''), (''ro'', ''true''), (''uid'', [])]) = Inr req \<and>
     mr_Path req = ''/p'' \<and>
     strictDecodeForUnknownFields ''S3FSArgs'' s3fs_table no_S3FSArgs (mr_Args req) = Inr a \<and>
     mset (omit_empty s3fs_table a) = {# (''url'', ''x\"y''), (''ro'', ''true'') #}"
proof -
  let ?args = "[(''url'', ''x\"y''), (''ro'', ''true''), (''uid'', [])] :: smap"
  have "smap_wf ?args" by (simp add: smap_wf_def)
  moreover have "set (mkeys ?args) \<subseteq> set (map fst s3fs_table)"
    by (simp add: mkeys_def s3fs_names)
  moreover have "smap_wf [(''daemon'', ''true'')]" by (simp add: smap_wf_def)
  moreover have "set (mkeys [(''daemon'', ''true'')]) \<subseteq> set (map fst rclone_table)"
    by (simp add: mkeys_def rclone_table_def)
  moreover have "needs_no_escape ''/p''" "needs_no_escape ''b''" by code_simp+
  ultimately show ?thesis
    using mount_request_roundtrip [OF sample_binds, of "''/p''" "''b''" ?args "[(''daemon'', ''true'')]"] by auto
qed


subsection \<open>Errors on the way back\<close>

text \<open>
  The error of the service reaches the caller of the driver unchanged: of any text that the
  handlers put into the body under \<open>error\<close>, encoded as JSON, the driver makes a gRPC error with
  exactly that text and the code of the HTTP status; 400 becomes an invalid argument and 500 an
  internal error.
\<close>

theorem service_error_reported:
  "parseGRPCResponse code (json_map [(''error'', text')]) = Status (http_code code) text' \<and>
   http_code 400 = InvalidArgument \<and> http_code 500 = Internal"
proof -
  have "smap_wf [(''error'', text')]" by (simp add: smap_wf_def)
  from json_strings_map [OF this] show ?thesis
    by (simp add: parseGRPCResponse_def parseErrFromResponse_def sorted_bindings_def http_code_def)
qed

end
