(* ===== verification/ControllerContract.thy ===== *)
theory ControllerContract
  imports Controller
begin

section \<open>What the controller service promises\<close>

text \<open>
  The lemmas about the handlers of \<open>Controller\<close> are proved in the locales
  \<open>object_storage_session\<close> and \<open>controller\<close>, for every implementation that keeps the contracts of
  \<open>DriverUtils\<close> and \<open>S3Client\<close>; \<open>newControllerServer\<close> is an instance. Each handler has one rule
  (\<open>CreateVolume_rule\<close>, \<open>DeleteVolume_rule\<close>) that follows its stages once; the properties are its
  instances.
\<close>


subsection \<open>What the bucket stage does\<close>

text \<open>
  \<open>permitted P h es\<close>: when an event of \<open>es\<close>, which follow \<open>h\<close>, deletes an object of a bucket or the
  bucket, then \<open>P\<close> holds of the events before it and of the bucket. \<open>may_delete h b\<close>: the service
  has answered a creation of \<open>b\<close> that it is made or owned, or, the third answer that \<open>createBucket\<close>
  lets pass, that the name is taken; and an access check of \<open>b\<close> has passed.
\<close>

fun delete_target :: "event \<Rightarrow> string option" where
  "delete_target (Cos (EvDeleteObject b _ _)) = Some b"
| "delete_target (Cos (EvDeleteBucket b _)) = Some b"
| "delete_target _ = None"

fun permitted :: "(event list \<Rightarrow> string \<Rightarrow> bool) \<Rightarrow> event list \<Rightarrow> event list \<Rightarrow> bool" where
  "permitted P h [] \<longleftrightarrow> True"
| "permitted P h (e # es) \<longleftrightarrow>
     (case delete_target e of None \<Rightarrow> True | Some b \<Rightarrow> P h b) \<and> permitted P (h @ [e]) es"

definition may_delete :: "event list \<Rightarrow> string \<Rightarrow> bool" where
  "may_delete h b \<longleftrightarrow>
     (list_ex (created_or_owned b) h \<or> list_ex (name_taken b) h) \<and> Cos (EvHeadBucket b (Inr ())) \<in> set h"

lemma may_delete_iff:
  "may_delete h b \<longleftrightarrow> (\<exists>c \<in> set h. bucket_opened b c) \<and> Cos (EvHeadBucket b (Inr ())) \<in> set h"
  unfolding may_delete_def list_ex_iff bucket_opened_iff by blast

lemma may_delete_mono: "may_delete h b \<Longrightarrow> set h \<subseteq> set h' \<Longrightarrow> may_delete h' b"
  unfolding may_delete_iff by blast

lemma permitted_append: "permitted P h (es @ es') \<longleftrightarrow> permitted P h es \<and> permitted P (h @ es) es'"
  by (induction es arbitrary: h) simp_all

lemma permitted_mono:
  "permitted P h es \<Longrightarrow> (\<And>xs b. P (h @ xs) b \<Longrightarrow> Q (h' @ xs) b) \<Longrightarrow> permitted Q h' es"
proof (induction es arbitrary: h h')
  case (Cons e es)
  have "permitted Q (h' @ [e]) es"
    by (rule Cons.IH [of "h @ [e]"]) (use Cons.prems in \<open>simp_all\<close>)
  moreover have "Q h' b" if "P h b" for b
    using Cons.prems(2) [of "[]"] that by simp
  ultimately show ?case
    using Cons.prems(1) by (auto split: option.splits)
qed simp

lemma permitted_more: "permitted may_delete h es \<Longrightarrow> set h \<subseteq> set h' \<Longrightarrow> permitted may_delete h' es"
  by (erule permitted_mono, erule may_delete_mono) auto

lemma permitted_targets:
  "(\<And>e b. e \<in> set es \<Longrightarrow> delete_target e = Some b \<Longrightarrow> may_delete h b) \<Longrightarrow> permitted may_delete h es"
proof (induction es arbitrary: h)
  case (Cons e es)
  have "permitted may_delete (h @ [e]) es"
    by (rule Cons.IH, rule may_delete_mono, rule Cons.prems) auto
  then show ?case
    using Cons.prems by (auto split: option.split)
qed simp

lemma delete_target_None: "\<not> is_delete e \<Longrightarrow> delete_target e = None"
  by (cases e rule: delete_target.cases) auto

lemma delete_target_concerns: "concerns b e \<Longrightarrow> delete_target e = Some b' \<Longrightarrow> b' = b"
  by (cases e rule: delete_target.cases) auto

lemma permitted_no_delete: "\<forall>e \<in> set es. \<not> is_delete e \<Longrightarrow> permitted P h es"
  by (induction es arbitrary: h) (auto simp: delete_target_None)

lemma permitted_concerns: "\<forall>e \<in> set es. concerns b e \<Longrightarrow> may_delete h b \<Longrightarrow> permitted may_delete h es"
  by (rule permitted_targets) (auto dest: delete_target_concerns)

lemma opened_not_delete: "bucket_opened b e \<Longrightarrow> \<not> is_delete e"
  by (cases "(b, e)" rule: bucket_opened.cases) auto

lemma opened_concerns: "bucket_opened b e \<Longrightarrow> concerns b e"
  by (cases "(b, e)" rule: bucket_opened.cases) auto

lemma write_opened: "bucket_opened b e \<Longrightarrow> is_write e"
  by (cases "(b, e)" rule: bucket_opened.cases) auto

fun lists_objects :: "string \<Rightarrow> event \<Rightarrow> bool" where
  "lists_objects b (Cos (EvListObjects b' _)) \<longleftrightarrow> b' = b"
| "lists_objects _ _ \<longleftrightarrow> False"

text \<open>
  A failure after the bucket was made: an option was refused, and when the bucket is the volume's own
  (\<open>own\<close>) its deletion was begun, with the listing of its objects; otherwise nothing is deleted.
\<close>

definition cleaned :: "bool \<Rightarrow> string \<Rightarrow> 'a outcome \<Rightarrow> event list \<Rightarrow> bool" where
  "cleaned own b r es \<longleftrightarrow>
     (\<forall>e \<in> set es. concerns b e \<and> \<not> bucket_opened b e) \<and> (own \<or> (\<forall>e \<in> set es. \<not> is_delete e)) \<and>
     (case r of
        Ret _ \<Rightarrow> \<forall>e \<in> set es. \<not> is_delete e
      | Fail e \<Rightarrow> (\<exists>m. e = Status Internal m) \<and> list_ex (refuses_option b) es \<and>
          (own \<longrightarrow> list_ex (lists_objects b) es)
      | Panic _ \<Rightarrow> False)"

text \<open>
  The two kinds of failure of the bucket stage, for bucket \<open>b\<close>. \<open>denied\<close>: nothing was deleted and no
  option was tried; the last event is an access check of the bucket that failed, or its creation
  refused with another answer than the three. \<open>undone\<close>: the bucket had passed an access check and
  an option was refused; when the call had made or adopted the bucket its deletion was begun,
  otherwise nothing was deleted.
\<close>

fun refuses_bucket :: "string \<Rightarrow> event \<Rightarrow> bool" where
  "refuses_bucket b (Cos (EvHeadBucket b' x)) \<longleftrightarrow> b' = b \<and> is_err x"
| "refuses_bucket b (Cos (EvCreateBucket b' k x)) \<longleftrightarrow>
     b' = b \<and> \<not> created_or_owned b (Cos (EvCreateBucket b' k x)) \<and> \<not> name_taken b (Cos (EvCreateBucket b' k x))"
| "refuses_bucket _ _ \<longleftrightarrow> False"

definition denied :: "string \<Rightarrow> gerror \<Rightarrow> event list \<Rightarrow> bool" where
  "denied b e es \<longleftrightarrow>
     (\<exists>m. e = Status PermissionDenied m) \<and> list_all (\<lambda>e. \<not> is_delete e \<and> \<not> is_option e) es \<and>
     es \<noteq> [] \<and> refuses_bucket b (last es)"

definition undone :: "string \<Rightarrow> gerror \<Rightarrow> event list \<Rightarrow> bool" where
  "undone b e es \<longleftrightarrow>
     (\<exists>m. e = Status Internal m) \<and> Cos (EvHeadBucket b (Inr ())) \<in> set es \<and> list_ex (refuses_option b) es \<and>
     (if list_ex (bucket_opened b) es then list_ex (lists_objects b) es
      else list_all (\<lambda>e. \<not> is_delete e) es)"

text \<open>
  The result of the two branches for bucket \<open>b\<close>, started with parameters \<open>params\<close>: on
  success the bucket answered an access check, nothing was deleted, and the volume is marked as
  having its own bucket only after the service opened it.
\<close>

definition staged :: "string \<Rightarrow> smap \<Rightarrow> smap outcome \<Rightarrow> event list \<Rightarrow> bool" where
  "staged b params r es \<longleftrightarrow>
     permitted may_delete [] es \<and>
     (case r of
        Ret ps \<Rightarrow>
          Cos (EvHeadBucket b (Inr ())) \<in> set es \<and> (\<forall>e \<in> set es. \<not> is_delete e) \<and>
          map_of ps ''bucketName'' = Some b \<and>
          (smap_wf params \<longrightarrow> smap_wf ps) \<and>
          (\<forall>k. k \<noteq> ''bucketName'' \<longrightarrow> k \<noteq> ''userProvidedBucket'' \<longrightarrow> map_of ps k = map_of params k) \<and>
          (map_of ps ''userProvidedBucket'' = Some ''true'' \<or>
           map_of ps ''userProvidedBucket'' = Some ''false'' \<and> (\<exists>c \<in> set es. bucket_opened b c))
      | Fail e \<Rightarrow> denied b e es \<or> undone b e es
      | Panic _ \<Rightarrow> False)"

lemma cleaned_permitted:
  assumes "cleaned own b r es'" and "own \<Longrightarrow> may_delete es b" and "\<forall>e \<in> set es. \<not> is_delete e"
  shows "permitted may_delete [] (es @ es')"
proof (cases own)
  case True
  with assms show ?thesis
    by (auto simp: permitted_append cleaned_def intro: permitted_no_delete permitted_concerns)
next
  case False
  with assms show ?thesis
    by (intro permitted_no_delete) (auto simp: cleaned_def)
qed

text \<open>A failure of the options after the bucket was found (\<open>own\<close> is false) or opened in \<open>es\<close>.\<close>

lemma cleaned_undone:
  assumes "cleaned own b (Fail e) es'" and "own \<longleftrightarrow> (\<exists>c \<in> set es. bucket_opened b c)"
    and "\<forall>e \<in> set es. \<not> is_delete e" and "Cos (EvHeadBucket b (Inr ())) \<in> set es"
  shows "undone b e (es @ es')"
  using assms by (auto simp: cleaned_def undone_def list_ex_iff list_all_iff)

context object_storage_session
begin

lemma createBucket_yields:
  "yields (createBucket sess b k)
     (\<lambda>r es. (\<forall>e \<in> set es. concerns b e \<and> \<not> is_delete e \<and> \<not> is_option e) \<and>
        (case r of
           Ret _ \<Rightarrow> \<exists>c. es = [c, Cos (EvHeadBucket b (Inr ()))] \<and> bucket_opened b c
         | Fail _ \<Rightarrow> es \<noteq> [] \<and> refuses_bucket b (last es)
         | Panic _ \<Rightarrow> False))"
  unfolding createBucket_def Let_def
  by (rule yields_attempt [OF create])
     (auto split: gerror.split intro!: yields_fail yields_attempt [OF check_access] yields_ret)

lemma delete_not_opened:
  "yields (DeleteBucket sess b)
     (\<lambda>r es. (\<forall>e \<in> set es. concerns b e \<and> \<not> bucket_opened b e) \<and> (\<forall>p. r \<noteq> Panic p) \<and>
        list_ex (lists_objects b) es)"
  by (rule yields_mono [OF delete_outcomes]) (auto simp: delete_outcome_def split: if_splits)

lemma quota_not_opened: "yields (UpdateQuotaLimit sess q key b ep iam)
       (\<lambda>r es. (\<forall>e \<in> set es. concerns b e \<and> \<not> bucket_opened b e \<and> \<not> is_delete e) \<and>
          (case r of Ret _ \<Rightarrow> True | Fail _ \<Rightarrow> list_ex (refuses_option b) es | Panic _ \<Rightarrow> False))"
  by (rule yields_mono [OF quota_writes]) (auto dest: is_delete_write write_opened split: outcome.splits)

lemma apply_quota_yields: "yields (apply_quota sess o' own b) (cleaned own b)"
  unfolding apply_quota_def Let_def
  by (auto simp: cleaned_def
      intro!: yields_ret yields_fail yields_attempt [OF quota_not_opened] yields_attempt [OF delete_not_opened])

lemma apply_versioning_yields: "yields (apply_versioning sess o' own what b) (cleaned own b)"
  unfolding apply_versioning_def Let_def
  by (auto simp: cleaned_def
      intro!: yields_ret yields_fail yields_attempt [OF versioning] yields_attempt [OF delete_not_opened])

lemma options_yields:
  "yields (attempt (apply_quota sess o' own b) fail
             (\<lambda>_. attempt (apply_versioning sess o' own what b) fail (\<lambda>_. ret v)))
     (\<lambda>r es. cleaned own b r es \<and> (\<forall>x. r = Ret x \<longrightarrow> x = v))"
  by (rule yields_attempt_fail [OF apply_quota_yields],
      rule yields_attempt_fail [OF apply_versioning_yields])
     (auto simp: cleaned_def intro!: yields_ret)

lemma provided_bucket_yields:
  assumes "map_of params ''userProvidedBucket'' = Some ''true''"
  shows "yields (provided_bucket sess o' b params) (staged b params)"
  unfolding provided_bucket_def Let_def
proof (rule yields_attempt_fail)
  let ?head = "Cos (EvHeadBucket b (Inr ()))"
  show "yields (attempt (CheckBucketAccess sess b)
          (\<lambda>_. attempt (createBucket sess b (bo_kpRootKeyCrn o'))
             (\<lambda>err. fail (Status PermissionDenied (sprintf [error_text err, '': '', b])))
             (\<lambda>_. ret (mput params ''userProvidedBucket'' ''false'')))
          (\<lambda>_. ret params))
      (\<lambda>r es. (\<forall>e \<in> set es. \<not> is_delete e) \<and>
         (case r of
            Ret ps \<Rightarrow> ?head \<in> set es \<and>
              ps = (if \<exists>c \<in> set es. bucket_opened b c then mput params ''userProvidedBucket'' ''false'' else params)
          | Fail e \<Rightarrow> denied b e es
          | Panic _ \<Rightarrow> False))"
    by (rule yields_attempt [OF check_access])
       (auto simp: denied_def list_all_iff intro!: yields_ret yields_fail yields_attempt [OF createBucket_yields])
next
  fix ps es
  let ?head = "Cos (EvHeadBucket b (Inr ()))"
  let ?own = "mget ps ''userProvidedBucket'' = ''false''"
  assume "(\<forall>e \<in> set es. \<not> is_delete e) \<and>
      (case Ret ps of
            Ret ps \<Rightarrow> ?head \<in> set es \<and>
              ps = (if \<exists>c \<in> set es. bucket_opened b c then mput params ''userProvidedBucket'' ''false'' else params)
          | Fail e \<Rightarrow> denied b e es
          | Panic _ \<Rightarrow> False)"
  then have nodel: "\<forall>e \<in> set es. \<not> is_delete e" and head: "?head \<in> set es"
    and ps: "ps = (if \<exists>c \<in> set es. bucket_opened b c then mput params ''userProvidedBucket'' ''false'' else params)"
    by simp_all
  have own: "?own \<longleftrightarrow> (\<exists>c \<in> set es. bucket_opened b c)"
    using assms by (auto simp: ps mget_def smap_lookup)
  then have may: "may_delete es b" if ?own
    using that head by (simp add: may_delete_iff)
  show "yields (attempt (apply_quota sess o' ?own b) fail
           (\<lambda>_. attempt (apply_versioning sess o' ?own ''bucket'' b) fail
                  (\<lambda>_. ret (mput ps ''bucketName'' b))))
        (\<lambda>r es'. staged b params r (es @ es'))"
  proof (rule yields_mono [OF options_yields], elim conjE)
    fix r es'
    assume c: "cleaned ?own b r es'" and r: "\<forall>x. r = Ret x \<longrightarrow> x = mput ps ''bucketName'' b"
    have "permitted may_delete [] (es @ es')"
      by (rule cleaned_permitted [OF c may nodel])
    moreover have "undone b e (es @ es')" if "r = Fail e" for e
      using c own nodel head unfolding that by (rule cleaned_undone)
    ultimately show "staged b params r (es @ es')"
      using c r nodel head ps assms
      by (cases r) (auto simp: staged_def cleaned_def smap_lookup gm.wf_put)
  qed
qed (auto simp: staged_def permitted_no_delete)

lemma temp_bucket_yields:
  "yields (temp_bucket env sess o' mounter volumeID params)
     (\<lambda>r es. \<exists>t. staged (mounter @ t @ ''-'' @ volumeID) params r es \<and> Proc (EvNow t) \<in> set es \<and>
        (\<forall>ps. r = Ret ps \<longrightarrow> map_of ps ''userProvidedBucket'' = Some ''false''))"
  unfolding temp_bucket_def getTempBucketName_def sys_time_def
proof (rule yields_bind [where R = "\<lambda>b es. \<exists>t. b = mounter @ t @ ''-'' @ volumeID \<and> es = [Proc (EvNow t)]"])
  fix b es
  assume "\<exists>t. b = mounter @ t @ ''-'' @ volumeID \<and> es = [Proc (EvNow t)]"
  then obtain t where b: "b = mounter @ t @ ''-'' @ volumeID" and es: "es = [Proc (EvNow t)]"
    by blast
  let ?stage = "attempt (createBucket sess b (bo_kpRootKeyCrn o'))
            (\<lambda>err. fail (Status PermissionDenied (sprintf [error_text err, '': '', b])))
            (\<lambda>_. attempt (apply_quota sess o' True b) fail
               (\<lambda>_. attempt (apply_versioning sess o' True ''temp bucket'' b) fail
                  (\<lambda>_. ret (mput (mput params ''userProvidedBucket'' ''false'') ''bucketName'' b))))"
  have "yields ?stage (\<lambda>r es'. staged b params r (es @ es') \<and>
      (\<forall>ps. r = Ret ps \<longrightarrow> map_of ps ''userProvidedBucket'' = Some ''false''))"
  proof (rule yields_attempt [OF createBucket_yields], goal_cases)
    case (1 u es1)
    then have head: "Cos (EvHeadBucket b (Inr ())) \<in> set (es @ es1)"
      and opened: "\<exists>c \<in> set (es @ es1). bucket_opened b c" and nodel: "\<forall>e \<in> set (es @ es1). \<not> is_delete e"
      using es by auto
    then have may: "may_delete (es @ es1) b"
      unfolding may_delete_iff by blast
    show ?case
    proof (rule yields_mono [OF options_yields], elim conjE)
      fix r es'
      assume c: "cleaned True b r es'"
        and r: "\<forall>x. r = Ret x \<longrightarrow> x = mput (mput params ''userProvidedBucket'' ''false'') ''bucketName'' b"
      have "permitted may_delete [] ((es @ es1) @ es')"
        by (rule cleaned_permitted [OF c may nodel])
      moreover have "undone b e ((es @ es1) @ es')" if "r = Fail e" for e
        using c _ nodel head unfolding that by (rule cleaned_undone) (use opened in simp)
      ultimately show "staged b params r (es @ es1 @ es') \<and>
         (\<forall>ps. r = Ret ps \<longrightarrow> map_of ps ''userProvidedBucket'' = Some ''false'')"
        using c r nodel head opened
        by (cases r) (auto simp: staged_def cleaned_def smap_lookup gm.wf_put)
    qed
  qed (auto simp: staged_def denied_def list_all_iff es permitted_no_delete intro!: yields_fail)
  then have "yields ?stage (\<lambda>r es'. \<exists>t. staged (mounter @ t @ ''-'' @ volumeID) params r (es @ es') \<and>
      Proc (EvNow t) \<in> set (es @ es') \<and> (\<forall>ps. r = Ret ps \<longrightarrow> map_of ps ''userProvidedBucket'' = Some ''false''))"
    by (rule yields_mono) (auto simp: b es)
  then show "yields (if b = [] then fail (Status PermissionDenied (sprintf [''Unable to access the bucket: '', b]))
       else ?stage)
     (\<lambda>r es'. \<exists>t. staged (mounter @ t @ ''-'' @ volumeID) params r (es @ es') \<and>
        Proc (EvNow t) \<in> set (es @ es') \<and> (\<forall>ps. r = Ret ps \<longrightarrow> map_of ps ''userProvidedBucket'' = Some ''false''))"
    by (simp add: b)
qed (auto intro!: yields_bind [OF yields_ask [where Q = "\<lambda>t es. es = [Proc (EvNow t)]"]] yields_return)

end


subsection \<open>The controller, for every implementation of its interfaces\<close>

locale controller = stats: stats_utils "cs_Stats cs" for cs :: controllerServer +
  assumes factory: "yields (cs_cosSession cs ep lc creds)
       (\<lambda>r es. (\<exists>x. es = [Cos (EvNewSession (session_conn ep lc creds) x)]) \<and>
          (case r of Ret sess \<Rightarrow> object_storage_session sess | Fail _ \<Rightarrow> False | Panic _ \<Rightarrow> True))"

interpretation ctl: controller "newControllerServer env iam" for env iam
proof -
  have cs: "cs_Stats (newControllerServer env iam) = DriverStatsUtils env"
    "cs_cosSession (newControllerServer env iam) = NewObjectStorageSession env"
    by (simp_all add: newControllerServer_def)
  show "controller (newControllerServer env iam)"
    unfolding controller_def controller_axioms_def cs
  proof (intro conjI allI)
    show "stats_utils (DriverStatsUtils env)" by (rule su.stats_utils_axioms)
    fix ep lc creds
    show "yields (NewObjectStorageSession env ep lc creds)
       (\<lambda>r es. (\<exists>x. es = [Cos (EvNewSession (session_conn ep lc creds) x)]) \<and>
          (case r of Ret sess \<Rightarrow> object_storage_session sess | Fail _ \<Rightarrow> False | Panic _ \<Rightarrow> True))"
      unfolding NewObjectStorageSession_def Let_def
      by (rule yields_attempt [OF yields_reply])
         (auto intro!: yields_ret yields_panic cos.object_storage_session_axioms)
  qed
qed

text \<open>
  The secret that the options of a volume come from: the secrets of the request, or, when it has
  none, what \<open>parseCustomSecret\<close> takes of the secret that the annotation of the claim names.
\<close>

definition secret_map :: "CreateVolumeRequest \<Rightarrow> event list \<Rightarrow> smap \<Rightarrow> bool" where
  "secret_map req es sm \<longleftrightarrow>
     (if deref (cv_secrets req) \<noteq> [] then sm = deref (cv_secrets req)
      else
        (let params = deref (cv_parameters req);
             ns = (if mget params PVCNamespaceKey = [] then DefaultNamespace else mget params PVCNamespaceKey)
         in \<exists>claim s. K8s (EvGetPVC (mget params PVCNameKey) ns (Inr claim)) \<in> set es \<and>
              K8s (EvGetSecret (mget (pvc_annotations claim) SecretNameKey) ns (Inr s)) \<in> set es \<and>
              sm = parseCustomSecret s))"

lemma secret_map_mono: "secret_map req es sm \<Longrightarrow> set es \<subseteq> set es' \<Longrightarrow> secret_map req es' sm"
  by (auto simp: secret_map_def Let_def split: if_splits)

text \<open>
  The keys of the context that \<open>CreateVolume\<close> takes from the secret \<open>sm\<close> when it has them, and the
  object path, which only the secret of an annotation overrides.
\<close>

definition from_secret :: "smap \<Rightarrow> smap \<Rightarrow> string \<Rightarrow> string option" where
  "from_secret sm params k = (if mget sm k \<noteq> [] then Some (mget sm k) else map_of params k)"

definition object_path :: "CreateVolumeRequest \<Rightarrow> smap \<Rightarrow> string option" where
  "object_path req sm =
     (if deref (cv_secrets req) = [] then Some (mget sm ''objectPath'')
      else map_of (deref (cv_parameters req)) ''objectPath'')"

definition completed_keys :: "string list" where
  "completed_keys = [''objectPath'', ''cosEndpoint'', ''locationConstraint'', ''mounter'', ''userProvidedBucket'']"

text \<open>
  The context \<open>ctx\<close> of volume \<open>v\<close>: each of the six keys that the call sets has its own source;
  beside them the context holds what the parameters of the request hold, and nothing else of the
  secret. It has no double keys when the parameters have none.
\<close>

definition context_of :: "CreateVolumeRequest \<Rightarrow> string \<Rightarrow> event list \<Rightarrow> smap \<Rightarrow> bool" where
  "context_of req v es ctx \<longleftrightarrow>
     (let params = deref (cv_parameters req)
      in (if smap_wf params then smap_wf ctx else True) \<and>
         (\<exists>sm. secret_map req es sm \<and>
            map_of ctx ''cosEndpoint'' = from_secret sm params ''cosEndpoint'' \<and>
            map_of ctx ''locationConstraint'' = from_secret sm params ''locationConstraint'' \<and>
            map_of ctx ''mounter'' = from_secret sm params ''mounter'' \<and>
            map_of ctx ''objectPath'' = object_path req sm \<and>
            (if mget sm ''bucketName'' \<noteq> []
             then map_of ctx ''bucketName'' = Some (mget sm ''bucketName'') \<and>
                  map_of ctx ''userProvidedBucket'' \<in> {Some ''true'', Some ''false''}
             else map_of ctx ''userProvidedBucket'' = Some ''false'' \<and>
                  (\<exists>t. Proc (EvNow t) \<in> set es \<and>
                     map_of ctx ''bucketName'' = Some (mget ctx ''mounter'' @ t @ ''-'' @ v)))) \<and>
         (\<forall>k. if k \<in> {''bucketName'', ''objectPath'', ''cosEndpoint'', ''locationConstraint'', ''mounter'',
                     ''userProvidedBucket''}
              then True else map_of ctx k = map_of params k))"

text \<open>
  What \<open>CreateVolume\<close> promises: a volume whose bucket answered an access check; every deletion
  permitted; three status codes, and with \<open>InvalidArgument\<close> the object store was not called; a
  panic only from the creation of the session.
\<close>

definition create_post ::
    "CreateVolumeRequest \<Rightarrow> string \<Rightarrow> CreateVolumeResponse outcome \<Rightarrow> event list \<Rightarrow> bool" where
  "create_post req volumeID r es \<longleftrightarrow>
     permitted may_delete [] es \<and>
     (case r of
        Ret v \<Rightarrow>
          vol_id v = volumeID \<and> vol_capacity v = required_bytes req \<and>
          mget (vol_context v) ''cosEndpoint'' \<noteq> [] \<and> mget (vol_context v) ''locationConstraint'' \<noteq> [] \<and>
          context_of req volumeID es (vol_context v) \<and>
          (\<forall>e \<in> set es. \<not> is_delete e) \<and>
          (\<exists>b. b \<noteq> [] \<and> map_of (vol_context v) ''bucketName'' = Some b \<and>
             Cos (EvHeadBucket b (Inr ())) \<in> set es \<and>
             (map_of (vol_context v) ''userProvidedBucket'' = Some ''true'' \<or>
              map_of (vol_context v) ''userProvidedBucket'' = Some ''false'' \<and>
                (\<exists>c \<in> set es. bucket_opened b c)))
      | Fail e \<Rightarrow>
          (\<exists>m. e = Status InvalidArgument m) \<and> (\<forall>e \<in> set es. \<not> is_cos e) \<or>
          (\<exists>b. denied b e es) \<or> (\<exists>b. undone b e es)
      | Panic _ \<Rightarrow> \<exists>c x. es \<noteq> [] \<and> last es = Cos (EvNewSession c x))"

lemma lookup_prefer_secret:
  "prefer_secret k m params = (v, params') \<Longrightarrow>
     mget params' k = v \<and> map_of params' k = from_secret m params k \<and>
     (\<forall>k'. k' \<noteq> k \<longrightarrow> map_of params' k' = map_of params k')"
  by (auto simp: prefer_secret_def Let_def from_secret_def smap_simps split: if_splits)

lemma no_cos_no_delete: "\<forall>e \<in> set es. \<not> is_cos e \<Longrightarrow> \<forall>e \<in> set es. \<not> is_delete e"
  by (metis is_cos.simps(1) is_delete.elims(2))

lemma check_quota_invalid: "check_quota m n = Inl e \<Longrightarrow> \<exists>msg. e = Status InvalidArgument msg"
  by (auto simp: check_quota_def split: option.splits if_splits bool.splits)

lemma pick_versioning_invalid: "pick_versioning m ps n = Inl e \<Longrightarrow> \<exists>msg. e = Status InvalidArgument msg"
  by (auto simp: pick_versioning_def Let_def split: if_splits)

lemma check_capabilities_invalid: "check_capabilities c = Inl e \<Longrightarrow> \<exists>msg. e = Status InvalidArgument msg"
  by (auto simp: check_capabilities_def split: option.splits if_splits)

text \<open>
  \<open>marks_own v b e\<close>: the reply \<open>e\<close> of the Kubernetes API describes the persistent volume
  \<open>v\<close> as the owner of bucket \<open>b\<close>.
\<close>

fun marks_own :: "string \<Rightarrow> string \<Rightarrow> event \<Rightarrow> bool" where
  "marks_own v b (K8s (EvGetPV v' (Inr p))) \<longleftrightarrow> v' = v \<and>
     (case pv_csi p of None \<Rightarrow> False
      | Some csi \<Rightarrow> mget (volume_attributes csi) ''userProvidedBucket'' \<noteq> ''true'' \<and>
                   mget (volume_attributes csi) ''bucketName'' = b)"
| "marks_own v b _ \<longleftrightarrow> False"

definition deletion_allowed :: "string \<Rightarrow> event list \<Rightarrow> event \<Rightarrow> bool" where
  "deletion_allowed v es e =
     (case delete_target e of None \<Rightarrow> True | Some b \<Rightarrow> b \<noteq> [] \<and> list_ex (marks_own v b) es)"

text \<open>
  Where \<open>DeleteVolume\<close> looks for the bucket, and as whom. \<open>session_of m\<close> is the connection with the
  credentials of the secret \<open>m\<close>: with a service instance id those of IAM, otherwise the key pair.
  \<open>session_for\<close>: secret, endpoint and location are those of the secrets of the request or, when the
  request has none, the secret that the persistent volume refers to and the volume's attributes.
\<close>

definition session_of :: "smap \<Rightarrow> string \<Rightarrow> string \<Rightarrow> string \<Rightarrow> conn" where
  "session_of m iam ep lc =
     \<lparr> conn_endpoint = ep, conn_region = lc,
       conn_creds =
         (if mget m ''serviceId'' \<noteq> []
          then IamCreds ((if mget m ''iamEndpoint'' = [] then iam else mget m ''iamEndpoint'') @ ''/identity/token'')
                 (mget m ''apiKey'') (mget m ''serviceId'')
          else StaticCreds (mget m ''accessKey'') (mget m ''secretKey'')) \<rparr>"

definition session_for :: "string \<Rightarrow> string \<Rightarrow> smap \<Rightarrow> event list \<Rightarrow> conn \<Rightarrow> bool" where
  "session_for v iam m es c \<longleftrightarrow>
     (if m \<noteq> [] then c = session_of m iam (mget m ''cosEndpoint'') (mget m ''locationConstraint'')
      else
        (\<exists>p csi name ns ns' s.
           K8s (EvGetPV v (Inr p)) \<in> set es \<and> pv_csi p = Some csi \<and> csi_secret_ref csi = Some (name, ns) \<and>
           (if ns = [] then pv_claim_ns p = Some ns' else ns' = ns) \<and>
           K8s (EvGetSecret name ns' (Inr s)) \<in> set es \<and>
           c = session_of (secret_data s) iam (mget (volume_attributes csi) ''cosEndpoint'')
                 (mget (volume_attributes csi) ''locationConstraint'')))"

lemma session_for_pv:
  assumes "K8s (EvGetPV v (Inr p)) \<in> set es" and "pv_csi p = Some csi" and "csi_secret_ref csi = Some (name, ns)"
    and "if ns = [] then pv_claim_ns p = Some ns' else ns' = ns" and "K8s (EvGetSecret name ns' (Inr s)) \<in> set es"
    and "c = session_of (secret_data s) iam (mget (volume_attributes csi) ''cosEndpoint'')
           (mget (volume_attributes csi) ''locationConstraint'')"
  shows "session_for v iam [] es c"
  unfolding session_for_def simp_thms(6) not_True_eq_False if_False
  by (rule exI [of _ p], rule exI [of _ csi], rule exI [of _ name], rule exI [of _ ns], rule exI [of _ ns'],
      rule exI [of _ s]) (intro conjI assms)

lemma session_for_mono:
  assumes "session_for v iam m es c" and "set es \<subseteq> set es'"
  shows "session_for v iam m es' c"
proof (cases "m = []")
  case True
  with assms(1) obtain p csi name ns ns' s where pv:
    "K8s (EvGetPV v (Inr p)) \<in> set es" "pv_csi p = Some csi" "csi_secret_ref csi = Some (name, ns)"
    "if ns = [] then pv_claim_ns p = Some ns' else ns' = ns" "K8s (EvGetSecret name ns' (Inr s)) \<in> set es"
    "c = session_of (secret_data s) iam (mget (volume_attributes csi) ''cosEndpoint'')
           (mget (volume_attributes csi) ''locationConstraint'')"
    unfolding session_for_def by auto
  show ?thesis
    unfolding True by (rule session_for_pv [OF _ pv(2,3,4) _ pv(6)]) (use pv(1,5) assms(2) in blast)+
qed (use assms in \<open>simp add: session_for_def\<close>)

lemma session_of_credentials:
  "getObjectStorageCredentialsFromSecret m iam = Inr creds \<Longrightarrow> session_conn ep lc creds = session_of m iam ep lc"
  by (auto simp: getObjectStorageCredentialsFromSecret_def session_conn_def session_of_def Let_def split: if_splits)

lemma session_of_custom: "session_of (parseCustomSecret s) iam ep lc = session_of (secret_data s) iam ep lc"
proof -
  have "mget (parseCustomSecret s) k = mget (secret_data s) k" if "k \<in> set custom_secret_keys" for k
    using that by (simp add: mget_def lookup_parseCustomSecret)
  then show ?thesis
    by (simp add: session_of_def custom_secret_keys_def)
qed

text \<open>The session that an event opens.\<close>

fun session_at :: "event \<Rightarrow> conn option" where
  "session_at (Cos (EvNewSession c _)) = Some c"
| "session_at _ = None"

lemma session_at_cos: "\<not> is_cos e \<Longrightarrow> session_at e = None"
  by (cases e rule: session_at.cases) auto

lemma session_at_concerns: "concerns b e \<Longrightarrow> session_at e = None"
  by (cases e rule: session_at.cases) auto

definition delete_post :: "string \<Rightarrow> unit outcome \<Rightarrow> event list \<Rightarrow> bool" where
  "delete_post v r es \<longleftrightarrow>
     list_all (deletion_allowed v es) es \<and> (r = Ret () \<or> \<not> list_ex is_delete es)"

text \<open>
  What \<open>CreateVolume\<close> hands to the bucket stage: endpoint and location are known, the keys that come
  from the secret are set, and beside the completed keys the parameters of the request are kept.
\<close>

definition path_only :: "CreateVolumeRequest \<Rightarrow> smap \<Rightarrow> smap \<Rightarrow> bool" where
  "path_only req sm p \<longleftrightarrow>
     (smap_wf (deref (cv_parameters req)) \<longrightarrow> smap_wf p) \<and>
     map_of p ''objectPath'' = object_path req sm \<and>
     (\<forall>k. k \<noteq> ''objectPath'' \<longrightarrow> map_of p k = map_of (deref (cv_parameters req)) k)"

definition completed :: "CreateVolumeRequest \<Rightarrow> smap \<Rightarrow> smap \<Rightarrow> bool" where
  "completed req sm p \<longleftrightarrow>
     (let params = deref (cv_parameters req)
      in mget p ''cosEndpoint'' \<noteq> [] \<and> mget p ''locationConstraint'' \<noteq> [] \<and>
         map_of p ''userProvidedBucket'' = Some ''true'' \<and> (smap_wf params \<longrightarrow> smap_wf p) \<and>
         map_of p ''cosEndpoint'' = from_secret sm params ''cosEndpoint'' \<and>
         map_of p ''locationConstraint'' = from_secret sm params ''locationConstraint'' \<and>
         map_of p ''mounter'' = from_secret sm params ''mounter'' \<and>
         map_of p ''objectPath'' = object_path req sm \<and>
         (\<forall>k. k \<notin> set completed_keys \<longrightarrow> map_of p k = map_of params k))"

abbreviation no_cos :: "event list \<Rightarrow> bool" where
  "no_cos es \<equiv> \<forall>e \<in> set es. \<not> is_cos e"

definition bucket_stage ::
    "env \<Rightarrow> ObjectStorageSession \<Rightarrow> CreateVolumeRequest \<Rightarrow> bucket_options \<Rightarrow> string \<Rightarrow> string \<Rightarrow> string
     \<Rightarrow> smap \<Rightarrow> CreateVolumeResponse outcome run" where
  "bucket_stage env sess req o' b mo v p =
     attempt (if b \<noteq> [] then provided_bucket sess o' b p else temp_bucket env sess o' mo v p) fail
       (\<lambda>params. ret \<lparr> vol_id = v, vol_capacity = required_bytes req, vol_context = params \<rparr>)"

lemma prefer_secret_wf: "prefer_secret k m params = (v, params') \<Longrightarrow> smap_wf params \<Longrightarrow> smap_wf params'"
  by (auto simp: prefer_secret_def Let_def gm.wf_put split: if_splits)

context controller
begin

lemma pvc_found:
  "yields (GetPVC (cs_Stats cs) n ns)
     (\<lambda>r es. no_cos es \<and> (\<forall>p. r \<noteq> Panic p) \<and> (\<forall>p. r = Ret p \<longrightarrow> K8s (EvGetPVC n ns (Inr p)) \<in> set es))"
  by (rule yields_mono [OF yields_conj [OF stats.pvc stats.pvc_no_cos]]) (metis last_in_set)

lemma secret_found:
  "yields (GetSecret (cs_Stats cs) n ns)
     (\<lambda>r es. no_cos es \<and> (\<forall>p. r \<noteq> Panic p) \<and> (\<forall>s. r = Ret s \<longrightarrow> K8s (EvGetSecret n ns (Inr s)) \<in> set es))"
  by (rule yields_mono [OF yields_conj [OF stats.secret stats.secret_no_cos]]) (metis last_in_set)

lemma custom_secret_yields:
  assumes "deref (cv_secrets req) = []"
  shows "yields (custom_secret cs (deref (cv_parameters req)))
     (\<lambda>r es. no_cos es \<and>
        (case r of Ret (sm, p, _) \<Rightarrow> secret_map req es sm \<and> path_only req sm p
         | Fail e \<Rightarrow> \<exists>m. e = Status InvalidArgument m | Panic _ \<Rightarrow> False))"
proof -
  have path: "map_of (parseCustomSecret s) ''objectPath'' = Some (mget (parseCustomSecret s) ''objectPath'')" for s
    by (simp add: lookup_parseCustomSecret mget_def custom_secret_keys_def)
  show ?thesis
    unfolding custom_secret_def Let_def
    by (auto simp: path_only_def object_path_def secret_map_def Let_def assms path smap_lookup gm.wf_put
        intro!: yields_fail yields_ret yields_attempt [OF pvc_found] yields_attempt [OF secret_found]) blast+
qed

text \<open>The part of \<open>create_from_secret\<close> that follows the creation of the session.\<close>

lemma bucket_stage_yields:
  assumes sess: "object_storage_session sess" and made: "completed req sm params"
    and secret: "secret_map req pre sm" and pre: "\<forall>e \<in> set pre. \<forall>b. \<not> concerns b e"
  shows "yields (bucket_stage env sess req o' (mget sm ''bucketName'') (mget params ''mounter'') volumeID params)
     (\<lambda>r es. create_post req volumeID r (pre @ es))"
  unfolding bucket_stage_def
proof (rule yields_attempt_fail)
  let ?b = "mget sm ''bucketName''"
  let ?named = "\<lambda>b r es. if ?b \<noteq> [] then b = ?b
      else (\<exists>t. Proc (EvNow t) \<in> set es \<and> b = mget params ''mounter'' @ t @ ''-'' @ volumeID) \<and>
           (\<forall>ps. r = Ret ps \<longrightarrow> map_of ps ''userProvidedBucket'' = Some ''false'')"
  have up: "map_of params ''userProvidedBucket'' = Some ''true''"
    using made by (simp add: completed_def Let_def)
  show "yields (if ?b \<noteq> [] then provided_bucket sess o' ?b params
        else temp_bucket env sess o' (mget params ''mounter'') volumeID params)
      (\<lambda>r es. \<exists>b. b \<noteq> [] \<and> staged b params r es \<and> ?named b r es)"
  proof (cases "?b = []")
    case True
    have "yields (temp_bucket env sess o' (mget params ''mounter'') volumeID params)
        (\<lambda>r es. \<exists>b. b \<noteq> [] \<and> staged b params r es \<and> ?named b r es)"
    proof (rule yields_mono [OF object_storage_session.temp_bucket_yields [OF sess]], elim exE conjE)
      fix r es t
      assume "staged (mget params ''mounter'' @ t @ ''-'' @ volumeID) params r es" "Proc (EvNow t) \<in> set es"
        "\<forall>ps. r = Ret ps \<longrightarrow> map_of ps ''userProvidedBucket'' = Some ''false''"
      then show "\<exists>b. b \<noteq> [] \<and> staged b params r es \<and> ?named b r es"
        using True by (intro exI [of _ "mget params ''mounter'' @ t @ ''-'' @ volumeID"]) auto
    qed
    with True show ?thesis by simp
  next
    case False
    then show ?thesis
      by simp (rule yields_mono [OF object_storage_session.provided_bucket_yields [OF sess up]], blast)
  qed
  have nodel: "\<forall>e \<in> set pre. \<not> is_delete e" and quiet: "\<forall>e \<in> set pre. \<not> is_option e \<and> (\<forall>b. \<not> bucket_opened b e)"
    using pre is_delete_concerns is_option_concerns opened_concerns by blast+
  have perm: "permitted may_delete [] (pre @ es)" if "staged b params r es" for b r es
    using that nodel by (auto simp: staged_def permitted_append permitted_no_delete intro: permitted_more)
  show "yields (ret \<lparr> vol_id = volumeID, vol_capacity = required_bytes req, vol_context = ps \<rparr>)
      (\<lambda>r es'. create_post req volumeID r (pre @ es @ es'))"
    if ex: "\<exists>b. b \<noteq> [] \<and> staged b params (Ret ps) es \<and> ?named b (Ret ps) es" for ps es
  proof -
    from ex obtain b where b: "b \<noteq> []" and st: "staged b params (Ret ps) es" and named: "?named b (Ret ps) es"
      by blast
    have same: "map_of ps k = map_of params k" if "k \<noteq> ''bucketName''" "k \<noteq> ''userProvidedBucket''" for k
      using st that by (simp add: staged_def)
    then have same': "mget ps k = mget params k" if "k \<noteq> ''bucketName''" "k \<noteq> ''userProvidedBucket''" for k
      using that by (simp add: mget_def)
    have ne: "mget ps ''cosEndpoint'' \<noteq> []" "mget ps ''locationConstraint'' \<noteq> []"
      using made by (simp_all add: same' completed_def Let_def)
    have marks: "map_of ps ''bucketName'' = Some b" "map_of ps ''userProvidedBucket'' \<in> {Some ''true'', Some ''false''}"
      using st by (auto simp: staged_def)
    have "context_of req volumeID (pre @ es) ps"
      unfolding context_of_def Let_def
    proof (intro conjI exI [of _ sm])
      show "if smap_wf (deref (cv_parameters req)) then smap_wf ps else True"
        using made st by (simp add: completed_def staged_def Let_def)
      show "secret_map req (pre @ es) sm"
        using secret by (rule secret_map_mono) auto
      show "if ?b \<noteq> [] then map_of ps ''bucketName'' = Some ?b \<and>
              map_of ps ''userProvidedBucket'' \<in> {Some ''true'', Some ''false''}
            else map_of ps ''userProvidedBucket'' = Some ''false'' \<and>
              (\<exists>t. Proc (EvNow t) \<in> set (pre @ es) \<and>
                 map_of ps ''bucketName'' = Some (mget ps ''mounter'' @ t @ ''-'' @ volumeID))"
        using marks named by (auto simp: same')
      show "\<forall>k. if k \<in> {''bucketName'', ''objectPath'', ''cosEndpoint'', ''locationConstraint'', ''mounter'',
                     ''userProvidedBucket''}
            then True else map_of ps k = map_of (deref (cv_parameters req)) k"
        using made by (auto simp: same completed_def completed_keys_def Let_def)
    qed (use made in \<open>simp_all add: same completed_def Let_def\<close>)
    then show ?thesis
      using b st ne perm [OF st] nodel
      by (intro yields_ret) (auto simp: create_post_def staged_def)
  qed
  show "create_post req volumeID (Fail e) (pre @ es)"
    if ex: "\<exists>b. b \<noteq> [] \<and> staged b params (Fail e) es \<and> ?named b (Fail e) es" for e es
  proof -
    from ex obtain b where st: "staged b params (Fail e) es" by blast
    then have "denied b e (pre @ es) \<or> undone b e (pre @ es)"
      using nodel quiet by (auto simp: staged_def denied_def undone_def list_all_iff list_ex_iff split: if_splits)
    with perm [OF st] show ?thesis
      by (auto simp: create_post_def)
  qed
qed (simp add: staged_def)

lemma create_post_early:
  assumes "\<forall>e \<in> set es. \<not> is_cos e" and "\<exists>m. e = Status InvalidArgument m"
  shows "create_post req v (Fail e) es"
  using assms no_cos_no_delete [OF assms(1)] by (auto simp: create_post_def intro: permitted_no_delete)

text \<open>
  The rule for \<open>CreateVolume\<close>: what holds of every early error, of a session that cannot be made,
  and of the bucket stage for every session that keeps its contract, holds of the call.
\<close>

lemma create_from_secret_rule:
  assumes early: "\<And>e es. no_cos es \<Longrightarrow> \<exists>m. e = Status InvalidArgument m \<Longrightarrow> Q (Fail e) es"
    and no_session: "\<And>es c x p. no_cos es \<Longrightarrow> Q (Panic p) (es @ [Cos (EvNewSession c x)])"
    and stage: "\<And>sess o' p es c x. object_storage_session sess \<Longrightarrow> no_cos es \<Longrightarrow>
      secret_map req es sm \<Longrightarrow> completed req sm p \<Longrightarrow>
      yields (bucket_stage env sess req o' (mget sm ''bucketName'') (mget p ''mounter'') volumeID p)
        (\<lambda>r es'. Q r (es @ Cos (EvNewSession c x) # es'))"
    and pre: "no_cos pre" and secret: "secret_map req pre sm" and params: "path_only req sm params"
  shows "yields (create_from_secret env cs req volumeID (sm, params, csn)) (\<lambda>r es. Q r (pre @ es))"
proof -
  obtain ep p1 where p1: "prefer_secret ''cosEndpoint'' sm params = (ep, p1)"
    by (cases "prefer_secret ''cosEndpoint'' sm params")
  obtain lc p2 where p2: "prefer_secret ''locationConstraint'' sm p1 = (lc, p2)"
    by (cases "prefer_secret ''locationConstraint'' sm p1")
  obtain mo p3 where p3: "prefer_secret ''mounter'' sm p2 = (mo, p3)"
    by (cases "prefer_secret ''mounter'' sm p2")
  let ?p = "mput p3 ''userProvidedBucket'' ''true''"
  note p = lookup_prefer_secret [OF p1] lookup_prefer_secret [OF p2] lookup_prefer_secret [OF p3]
  have kept: "map_of p3 ''cosEndpoint'' = map_of p1 ''cosEndpoint''"
    "map_of p3 ''locationConstraint'' = map_of p2 ''locationConstraint''"
    using p by simp_all
  then have "mget p3 ''cosEndpoint'' = mget p1 ''cosEndpoint''"
    "mget p3 ''locationConstraint'' = mget p2 ''locationConstraint''"
    by (simp_all only: mget_def)
  with p have known: "mget p3 ''cosEndpoint'' = ep" "mget p3 ''locationConstraint'' = lc"
    by simp_all
  have taken: "map_of p1 ''cosEndpoint'' = from_secret sm (deref (cv_parameters req)) ''cosEndpoint''"
    "map_of p2 ''locationConstraint'' = from_secret sm (deref (cv_parameters req)) ''locationConstraint''"
    "map_of p3 ''mounter'' = from_secret sm (deref (cv_parameters req)) ''mounter''"
    using p params by (simp_all add: from_secret_def path_only_def)
  have others: "map_of p3 k = map_of params k"
    if "k \<noteq> ''cosEndpoint''" "k \<noteq> ''locationConstraint''" "k \<noteq> ''mounter''" for k
    using p that by simp
  have made: "completed req sm ?p" if "ep \<noteq> []" "lc \<noteq> []"
    using that params prefer_secret_wf [OF p1] prefer_secret_wf [OF p2] prefer_secret_wf [OF p3]
    by (simp add: completed_def completed_keys_def path_only_def Let_def known kept taken others smap_simps gm.wf_put)
  have mo: "mget ?p ''mounter'' = mo"
    using p by (simp add: smap_simps)
  have stage': "yields (attempt (cs_cosSession cs ep lc creds) fail (\<lambda>sess. bucket_stage env sess req o' (mget sm ''bucketName'') mo volumeID ?p))
     (\<lambda>r es. Q r (pre @ es))" if ne: "ep \<noteq> []" "lc \<noteq> []" for creds o'
  proof (rule yields_attempt_fail [OF factory], goal_cases)
    case (1 sess es)
    then obtain x where "es = [Cos (EvNewSession (session_conn ep lc creds) x)]" "object_storage_session sess"
      by auto
    then show ?case using stage [OF _ pre secret made [OF ne]] by (simp add: mo)
  next
    case (3 p es)
    then show ?case using no_session [OF pre] by auto
  qed simp
  have invalid: "yields (fail e) (\<lambda>r es. Q r (pre @ es))" if "\<exists>m. e = Status InvalidArgument m" for e
    by (rule yields_fail) (simp add: early [OF pre that])
  show ?thesis
  proof (cases "check_quota sm (required_bytes req)")
    case (Inl e)
    then show ?thesis
      using invalid [OF check_quota_invalid] by (simp add: create_from_secret_def)
  next
    case q: (Inr q)
    show ?thesis
    proof (cases "ep = [] \<or> lc = []")
      case True
      then show ?thesis
        using invalid by (cases "ep = []") (simp_all add: create_from_secret_def q p1 p2)
    next
      case False
      then have "ep \<noteq> []" "lc \<noteq> []" by simp_all
      note stage'' = stage' [OF this]
      from False show ?thesis
        using invalid invalid [OF pick_versioning_invalid] stage''
        by (cases "pick_versioning sm p3 csn";
            cases "getObjectStorageCredentialsFromSecret sm (cs_iamEndpoint cs)")
           (simp_all add: create_from_secret_def q p1 p2 p3 Let_def bucket_stage_def)
    qed
  qed
qed

lemma CreateVolume_rule:
  assumes early: "\<And>e es. no_cos es \<Longrightarrow> \<exists>m. e = Status InvalidArgument m \<Longrightarrow> Q (Fail e) es"
    and no_session: "\<And>es c x p. no_cos es \<Longrightarrow> Q (Panic p) (es @ [Cos (EvNewSession c x)])"
    and stage: "\<And>sess o' sm p es c x. object_storage_session sess \<Longrightarrow> no_cos es \<Longrightarrow>
      secret_map req es sm \<Longrightarrow> completed req sm p \<Longrightarrow>
      yields (bucket_stage env sess req o' (mget sm ''bucketName'') (mget p ''mounter'')
          (projr (sanitizeVolumeID (cv_name req))) p)
        (\<lambda>r es'. Q r (es @ Cos (EvNewSession c x) # es'))"
  shows "yields (CreateVolume env cs req) Q"
proof -
  let ?params = "deref (cv_parameters req)"
  obtain v where v: "sanitizeVolumeID (cv_name req) = Inr v"
    by (simp add: sanitizeVolumeID_def Let_def)
  have invalid: "yields (fail e) Q" if "\<exists>m. e = Status InvalidArgument m" for e
    by (rule yields_fail) (simp add: early that)
  have secret: "yields (attempt (if deref (cv_secrets req) = [] then custom_secret cs ?params
                   else ret (deref (cv_secrets req), ?params, [])) fail (create_from_secret env cs req v)) Q"
  proof (rule yields_attempt_fail)
    show "yields (if deref (cv_secrets req) = [] then custom_secret cs ?params
                   else ret (deref (cv_secrets req), ?params, []))
     (\<lambda>r es. no_cos es \<and>
        (case r of Ret (sm, p, _) \<Rightarrow> secret_map req es sm \<and> path_only req sm p
         | Fail e \<Rightarrow> \<exists>m. e = Status InvalidArgument m | Panic _ \<Rightarrow> False))"
      by (rule yields_if) (erule custom_secret_yields, rule yields_ret,
          simp add: path_only_def secret_map_def object_path_def)
  next
    fix x :: "smap \<times> smap \<times> string" and es :: "event list"
    obtain sm p n where x: "x = (sm, p, n)" by (cases x)
    assume "no_cos es \<and> (case Ret x of Ret (sm, p, _) \<Rightarrow> secret_map req es sm \<and> path_only req sm p
        | Fail e \<Rightarrow> \<exists>m. e = Status InvalidArgument m | Panic _ \<Rightarrow> False)"
    then have "no_cos es" "secret_map req es sm" "path_only req sm p" by (simp_all add: x)
    then show "yields (create_from_secret env cs req v x) (\<lambda>r es'. Q r (es @ es'))"
      unfolding x by (intro create_from_secret_rule early no_session stage [unfolded v sum.sel])
  qed (auto intro: early)
  show ?thesis
    using invalid secret v
    by (cases "check_capabilities (cv_capabilities req)")
       (simp_all add: CreateVolume_def check_capabilities_invalid Let_def)
qed

lemma CreateVolume_yields:
  "yields (CreateVolume env cs req) (create_post req (projr (sanitizeVolumeID (cv_name req))))"
proof (rule CreateVolume_rule)
  show "create_post req v (Fail e) es" if "no_cos es" "\<exists>m. e = Status InvalidArgument m" for v e es
    using that by (rule create_post_early)
  show "create_post req v (Panic p) (es @ [Cos (EvNewSession c x)])" if "no_cos es" for v p es c x
    using no_cos_no_delete [OF that] by (auto simp: create_post_def intro!: permitted_no_delete)
  show "yields (bucket_stage env sess req o' (mget sm ''bucketName'') (mget p ''mounter'') v p)
      (\<lambda>r es'. create_post req v r (es @ Cos (EvNewSession c x) # es'))"
    if "object_storage_session sess" "no_cos es" "secret_map req es sm" "completed req sm p"
    for sess o' sm v p es c x
  proof -
    have "secret_map req (es @ [Cos (EvNewSession c x)]) sm"
      using that(3) by (rule secret_map_mono) auto
    moreover have "\<not> concerns b e" if "e \<in> set es" for b e
      using \<open>no_cos es\<close> that by (cases "(b, e)" rule: concerns.cases) auto
    ultimately show ?thesis
      using bucket_stage_yields [OF that(1,4), of "es @ [Cos (EvNewSession c x)]"] by auto
  qed
qed

lemma deletion_allowed_quiet: "\<forall>e \<in> set es. \<not> is_delete e \<Longrightarrow> list_all (deletion_allowed v es') es"
  by (induction es) (auto simp: deletion_allowed_def delete_target_None)

lemma deletion_allowed_own:
  assumes "\<forall>e \<in> set es. concerns b e" and "b \<noteq> []" and "\<exists>e \<in> set es'. marks_own v b e"
  shows "list_all (deletion_allowed v es') es"
proof -
  have "deletion_allowed v es' e" if "concerns b e" for e
    using assms(2,3) delete_target_concerns [OF that]
    by (auto simp: deletion_allowed_def list_ex_iff split: option.split)
  with assms(1) show ?thesis by (auto simp: list_all_iff)
qed

lemma bucket_marked:
  "yields (BucketToDelete (cs_Stats cs) v)
     (\<lambda>r es. (\<forall>e \<in> set es. \<not> is_delete e) \<and>
        (\<forall>b. r = Ret b \<longrightarrow> b \<noteq> [] \<longrightarrow> (\<exists>e \<in> set es. marks_own v b e)))"
proof (rule yields_mono [OF yields_conj [OF stats.bucket stats.bucket_no_cos]], elim conjE)
  fix r es
  assume nocos: "\<forall>e \<in> set es. \<not> is_cos e"
    and b: "\<forall>b. r = Ret b \<longrightarrow> es \<noteq> [] \<and>
             (\<exists>p csi. last es = K8s (EvGetPV v (Inr p)) \<and> pv_csi p = Some csi \<and>
                b = (if mget (volume_attributes csi) ''userProvidedBucket'' \<noteq> ''true''
                     then mget (volume_attributes csi) ''bucketName'' else []))"
  have "\<exists>e \<in> set es. marks_own v b e" if "r = Ret b" "b \<noteq> []" for b
  proof (rule bexI)
    show "marks_own v b (last es)" and "last es \<in> set es"
      using b that by (auto split: if_splits)
  qed
  with no_cos_no_delete [OF nocos]
  show "(\<forall>e \<in> set es. \<not> is_delete e) \<and>
        (\<forall>b. r = Ret b \<longrightarrow> b \<noteq> [] \<longrightarrow> (\<exists>e \<in> set es. marks_own v b e))"
    by simp
qed

lemma delete_post_quiet: "\<forall>e \<in> set es. \<not> is_delete e \<Longrightarrow> delete_post v r es"
  using deletion_allowed_quiet [of es v es] by (auto simp: delete_post_def list_ex_iff)

text \<open>The part of \<open>DeleteVolume\<close> that follows the creation of the session.\<close>

lemma delete_stage_yields:
  assumes sess: "object_storage_session sess" and pre: "\<forall>e \<in> set pre. \<not> is_delete e"
  shows "yields
    (delete_own_bucket cs v sess)
    (\<lambda>r es. delete_post v r (pre @ es))"
  unfolding delete_own_bucket_def
proof (rule yields_attempt [OF bucket_marked])
  fix b es
  assume R: "(\<forall>e \<in> set es. \<not> is_delete e) \<and>
        (\<forall>b'. Ret b = Ret b' \<longrightarrow> b' \<noteq> [] \<longrightarrow> (\<exists>e \<in> set es. marks_own v b' e))"
  then have quiet: "\<forall>e \<in> set (pre @ es). \<not> is_delete e"
    using pre by auto
  have all: "delete_post v (Ret ()) (pre @ es @ es')"
    if es': "\<forall>e \<in> set es'. concerns b e" and "b \<noteq> []" for es'
  proof -
    have "\<exists>e \<in> set (pre @ es @ es'). marks_own v b e"
      using R that by auto
    from deletion_allowed_own [OF es' that(2) this] deletion_allowed_quiet [OF quiet]
    show ?thesis
      by (simp add: delete_post_def)
  qed
  show "yields (if b \<noteq> [] then attempt (DeleteBucket sess b) (\<lambda>_. ret ()) ret else ret ())
    (\<lambda>r es'. delete_post v r (pre @ es @ es'))"
    using all delete_post_quiet [OF quiet]
    by (auto intro!: yields_ret yields_attempt [OF object_storage_session.delete [OF sess]])
qed (use pre in \<open>auto intro!: yields_ret delete_post_quiet\<close>)

lemma delete_secret_yields:
  "yields (delete_secret cs v m)
     (\<lambda>r es. no_cos es \<and>
        (case r of
           Ret (sm, ep, lc) \<Rightarrow> session_for v iam m es (session_of sm iam ep lc)
         | Fail _ \<Rightarrow> True | Panic _ \<Rightarrow> True))"
proof (cases "m = []")
  case True
  have pv: "yields (GetPV (cs_Stats cs) v)
       (\<lambda>r es. no_cos es \<and> (\<forall>p. r = Ret p \<longrightarrow> K8s (EvGetPV v (Inr p)) \<in> set es))"
    by (rule yields_mono [OF yields_conj [OF stats.pv stats.pv_no_cos]]) (metis last_in_set)
  show ?thesis
    unfolding delete_secret_def True simp_thms(6) if_True
  proof (rule yields_attempt_fail [OF pv], goal_cases)
    case (1 p es)
    let ?Q = "\<lambda>(r :: (smap \<times> string \<times> string) outcome) es. no_cos es \<and>
        (case r of Ret (sm, ep, lc) \<Rightarrow> session_for v iam [] es (session_of sm iam ep lc)
         | Fail _ \<Rightarrow> True | Panic _ \<Rightarrow> True)"
    define Q where "Q = (\<lambda>r es'. ?Q r (es @ es'))"
    have early: "yields (fail e) Q" "yields (panic q) Q" for e q
      using 1 by (auto simp: Q_def intro: yields_fail yields_panic)
    have found: "?Q (Ret (parseCustomSecret s, mget (volume_attributes csi) ''cosEndpoint'',
          mget (volume_attributes csi) ''locationConstraint'')) (es @ es')"
      if "pv_csi p = Some csi" "csi_secret_ref csi = Some (name, ns)"
        "if ns = [] then pv_claim_ns p = Some ns' else ns' = ns"
        "no_cos es'" "K8s (EvGetSecret name ns' (Inr s)) \<in> set es'" for csi name ns ns' s es'
    proof -
      have "session_for v iam [] (es @ es') (session_of (secret_data s) iam
          (mget (volume_attributes csi) ''cosEndpoint'') (mget (volume_attributes csi) ''locationConstraint''))"
        using 1 that by (intro session_for_pv [OF _ that(1,2,3) _ refl]) auto
      then show ?thesis using 1 that by (auto simp: session_of_custom)
    qed
    have get: "yields (attempt (GetSecret (cs_Stats cs) name ns')
            (\<lambda>err. fail (invalid (sprintf [''error getting Secret: '', error_text err])))
            (\<lambda>s. ret (parseCustomSecret s,
                       mget (volume_attributes csi) ''cosEndpoint'',
                       mget (volume_attributes csi) ''locationConstraint''))) Q"
      if "pv_csi p = Some csi" "csi_secret_ref csi = Some (name, ns)"
        "if ns = [] then pv_claim_ns p = Some ns' else ns' = ns" for csi name ns ns'
    proof (rule yields_attempt [OF secret_found], goal_cases)
      case (1 s es')
      then show ?case using found [OF that, of es' s] by (intro yields_ret) (simp add: Q_def)
    next
      case (2 e es')
      then show ?case using \<open>no_cos es \<and> _\<close> by (intro yields_fail) (auto simp: Q_def)
    qed simp
    have "yields (attempt (deref_ptr (pv_csi p)) fail (\<lambda>csi.
        attempt (deref_ptr (csi_secret_ref csi)) fail (\<lambda>(secretName, ns).
          if secretName = []
          then fail (invalid ''Secret details not found, could not fetch the secret <nil>'')
          else
            attempt (if ns = [] then deref_ptr (pv_claim_ns p) else ret ns) fail (\<lambda>secretNamespace.
            attempt (GetSecret (cs_Stats cs) secretName secretNamespace)
              (\<lambda>err. fail (invalid (sprintf [''error getting Secret: '', error_text err])))
              (\<lambda>s. ret (parseCustomSecret s,
                         mget (volume_attributes csi) ''cosEndpoint'',
                         mget (volume_attributes csi) ''locationConstraint'')))))) Q"
      using early get by (simp add: deref_ptr_def split: option.split)
    then show ?case by (simp only: Q_def)
  qed simp_all
qed (auto simp: delete_secret_def session_for_def intro!: yields_ret)

text \<open>The rule for \<open>DeleteVolume\<close>, like that for \<open>CreateVolume\<close>.\<close>

lemma DeleteVolume_rule:
  assumes early: "\<And>r es. no_cos es \<Longrightarrow> Q r es"
    and no_session: "\<And>es c x p. no_cos es \<Longrightarrow>
      session_for (dv_volume_id req) (cs_iamEndpoint cs) (deref (dv_secrets req)) es c \<Longrightarrow>
      Q (Panic p) (es @ [Cos (EvNewSession c x)])"
    and stage: "\<And>sess es c x. object_storage_session sess \<Longrightarrow> no_cos es \<Longrightarrow>
      session_for (dv_volume_id req) (cs_iamEndpoint cs) (deref (dv_secrets req)) es c \<Longrightarrow>
      yields (delete_own_bucket cs (dv_volume_id req) sess) (\<lambda>r es'. Q r (es @ Cos (EvNewSession c x) # es'))"
  shows "yields (DeleteVolume cs req) Q"
proof -
  have quiet: "yields (fail e) (\<lambda>r es'. Q r (es @ es'))" if "no_cos es" for e es
    by (rule yields_fail) (simp add: early that)
  have session: "yields (attempt (cs_cosSession cs ep lc creds) fail (delete_own_bucket cs (dv_volume_id req)))
      (\<lambda>r es'. Q r (es @ es'))"
    if "no_cos es"
      and "session_for (dv_volume_id req) (cs_iamEndpoint cs) (deref (dv_secrets req)) es
        (session_of sm (cs_iamEndpoint cs) ep lc)"
      and "getObjectStorageCredentialsFromSecret sm (cs_iamEndpoint cs) = Inr creds" for es sm ep lc creds
  proof (rule yields_attempt_fail [OF factory], elim conjE exE)
    note conn = that(2) [folded session_of_credentials [OF that(3)]]
    fix sess es1 c
    assume "case Ret sess of Ret sess \<Rightarrow> object_storage_session sess | Fail _ \<Rightarrow> False | Panic _ \<Rightarrow> True"
      and "es1 = [Cos (EvNewSession (session_conn ep lc creds) c)]"
    then show "yields (delete_own_bucket cs (dv_volume_id req) sess) (\<lambda>r es'. Q r (es @ es1 @ es'))"
      using stage [OF _ that(1) conn] by simp
  next
    note conn = that(2) [folded session_of_credentials [OF that(3)]]
    show "Q (Panic p) (es @ es1)"
      if "(\<exists>x. es1 = [Cos (EvNewSession (session_conn ep lc creds) x)]) \<and>
        (case Panic p of Ret sess \<Rightarrow> object_storage_session sess | Fail _ \<Rightarrow> False | Panic _ \<Rightarrow> True)" for p es1
      using that no_session [OF \<open>no_cos es\<close> conn] by auto
  qed simp
  show ?thesis
    using quiet [of "[]"] session quiet
    by (auto simp: DeleteVolume_def Let_def split: sum.split
        intro!: yields_attempt_fail [OF delete_secret_yields [where iam = "cs_iamEndpoint cs"]] early)
qed

lemma DeleteVolume_yields: "yields (DeleteVolume cs req) (delete_post (dv_volume_id req))"
proof (rule DeleteVolume_rule)
  show "delete_post v r es" if "no_cos es" for v r es
    using no_cos_no_delete [OF that] by (rule delete_post_quiet)
  show "delete_post v (Panic p) (es @ [Cos (EvNewSession c x)])" if "no_cos es" for v p es c x
    using no_cos_no_delete [OF that] by (intro delete_post_quiet) auto
  show "yields (delete_own_bucket cs v sess) (\<lambda>r es'. delete_post v r (es @ Cos (EvNewSession c x) # es'))"
    if "object_storage_session sess" "no_cos es" for sess es v c x
    using delete_stage_yields [OF that(1), of "es @ [Cos (EvNewSession c x)]" v] no_cos_no_delete [OF that(2)] by auto
qed

lemma delete_own_bucket_no_session:
  assumes "object_storage_session sess"
  shows "yields (delete_own_bucket cs v sess) (\<lambda>_ es. \<forall>e \<in> set es. session_at e = None)"
proof -
  have "yields (delete_own_bucket cs v sess) (\<lambda>_ es. \<forall>e \<in> set es. \<not> is_cos e \<or> (\<exists>b. concerns b e))"
    unfolding delete_own_bucket_def
    by (auto intro!: yields_attempt [OF stats.bucket_no_cos] yields_ret
        yields_attempt [OF object_storage_session.delete [OF assms]]) blast+
  then show ?thesis
    by (rule yields_mono) (metis session_at_cos session_at_concerns)
qed

lemma DeleteVolume_session_for:
  "yields (DeleteVolume cs req)
     (\<lambda>_ es. \<forall>e \<in> set es. case session_at e of None \<Rightarrow> True
        | Some c \<Rightarrow> session_for (dv_volume_id req) (cs_iamEndpoint cs) (deref (dv_secrets req)) es c)"
proof (rule DeleteVolume_rule)
  fix sess es c x
  assume sess: "object_storage_session sess" and es: "no_cos es"
    and c: "session_for (dv_volume_id req) (cs_iamEndpoint cs) (deref (dv_secrets req)) es c"
  have "session_for (dv_volume_id req) (cs_iamEndpoint cs) (deref (dv_secrets req)) (es @ Cos (EvNewSession c x) # es') c" for es'
    using c by (rule session_for_mono) auto
  then show "yields (delete_own_bucket cs (dv_volume_id req) sess)
      (\<lambda>_ es'. \<forall>e \<in> set (es @ Cos (EvNewSession c x) # es'). case session_at e of None \<Rightarrow> True
        | Some c' \<Rightarrow> session_for (dv_volume_id req) (cs_iamEndpoint cs) (deref (dv_secrets req))
            (es @ Cos (EvNewSession c x) # es') c')"
    using es
    by (intro yields_mono [OF delete_own_bucket_no_session [OF sess]]) (auto simp: session_at_cos)
next
  fix es c x
  assume es: "no_cos es"
    and c: "session_for (dv_volume_id req) (cs_iamEndpoint cs) (deref (dv_secrets req)) es c"
  have "session_for (dv_volume_id req) (cs_iamEndpoint cs) (deref (dv_secrets req)) (es @ [Cos (EvNewSession c x)]) c"
    using c by (rule session_for_mono) auto
  with es show "\<forall>e \<in> set (es @ [Cos (EvNewSession c x)]). case session_at e of None \<Rightarrow> True
        | Some c' \<Rightarrow> session_for (dv_volume_id req) (cs_iamEndpoint cs) (deref (dv_secrets req))
            (es @ [Cos (EvNewSession c x)]) c'"
    by (auto simp: session_at_cos)
qed (auto simp: session_at_cos)

end


subsection \<open>Quota and versioning\<close>

text \<open>
  \<open>options_set o' b es\<close>: the options that were asked for were set on bucket \<open>b\<close>, by calls
  that the service answered without an error.
\<close>

fun sets_quota :: "string \<Rightarrow> string \<Rightarrow> int \<Rightarrow> event \<Rightarrow> bool" where
  "sets_quota key b q (Cos (EvUpdateBucketConfig rc b' q' (Inr _))) \<longleftrightarrow>
     rc_api_key rc = key \<and> b' = b \<and> q' = q"
| "sets_quota key b q _ \<longleftrightarrow> False"

definition options_set :: "bucket_options \<Rightarrow> string \<Rightarrow> event list \<Rightarrow> bool" where
  "options_set o' b es \<longleftrightarrow>
     (if bo_quotaLimitEnabled o' then list_ex (sets_quota (bo_resConfApikey o') b (bo_quotaBytes o')) es
      else True) \<and>
     (if bo_bucketVersioning o' \<noteq> []
      then Cos (EvPutVersioning b
             (if to_lower (trim_space (bo_bucketVersioning o')) = ''true'' then ''Enabled'' else ''Suspended'')
             (Inr ())) \<in> set es
      else True)"

context object_storage_session
begin

lemma options_set_yields:
  "yields (attempt (apply_quota sess o' own b) fail
             (\<lambda>_. attempt (apply_versioning sess o' own what b) fail (\<lambda>_. ret v)))
     (\<lambda>r es. \<forall>x. r = Ret x \<longrightarrow> options_set o' b es)"
proof (rule yields_attempt_fail)
  show "yields (apply_quota sess o' own b)
     (\<lambda>r es. \<forall>x. r = Ret x \<longrightarrow> bo_quotaLimitEnabled o' \<longrightarrow>
        list_ex (sets_quota (bo_resConfApikey o') b (bo_quotaBytes o')) es)"
    unfolding apply_quota_def Let_def
    by (auto simp: list_ex_iff intro!: yields_ret yields_fail yields_attempt [OF quota] yields_attempt [OF delete])
       (metis sets_quota.simps(1))
next
  fix u es
  assume q: "\<forall>x. Ret u = Ret x \<longrightarrow> bo_quotaLimitEnabled o' \<longrightarrow>
        list_ex (sets_quota (bo_resConfApikey o') b (bo_quotaBytes o')) es"
  show "yields (attempt (apply_versioning sess o' own what b) fail (\<lambda>_. ret v))
      (\<lambda>r es'. \<forall>x. r = Ret x \<longrightarrow> options_set o' b (es @ es'))"
    unfolding apply_versioning_def Let_def
    using q by (auto simp: options_set_def intro!: yields_ret yields_fail yields_attempt_fail
        [where R = "\<lambda>r es. \<forall>x. r = Ret x \<longrightarrow> Cos (EvPutVersioning b
             (if to_lower (trim_space (bo_bucketVersioning o')) = ''true'' then ''Enabled'' else ''Suspended'')
             (Inr ())) \<in> set es"]
        yields_attempt [OF versioning] yields_attempt [OF delete])
qed simp_all

lemma provided_bucket_options:
  "yields (provided_bucket sess o' b params) (\<lambda>r es. \<forall>x. r = Ret x \<longrightarrow> options_set o' b es)"
  unfolding provided_bucket_def Let_def
proof (rule yields_attempt_fail [where R = "\<lambda>_ _. True"])
  show "yields (attempt (CheckBucketAccess sess b)
          (\<lambda>_. attempt (createBucket sess b (bo_kpRootKeyCrn o'))
             (\<lambda>err. fail (Status PermissionDenied (sprintf [error_text err, '': '', b])))
             (\<lambda>_. ret (mput params ''userProvidedBucket'' ''false'')))
          (\<lambda>_. ret params)) (\<lambda>_ _. True)"
    by (auto intro!: yields_ret yields_fail yields_attempt [OF createBucket_yields] yields_attempt [OF check_access])
next
  fix ps es
  show "yields (attempt (apply_quota sess o' (mget ps ''userProvidedBucket'' = ''false'') b) fail
           (\<lambda>_. attempt (apply_versioning sess o' (mget ps ''userProvidedBucket'' = ''false'') ''bucket'' b) fail
                  (\<lambda>_. ret (mput ps ''bucketName'' b))))
      (\<lambda>r es'. \<forall>x. r = Ret x \<longrightarrow> options_set o' b (es @ es'))"
    by (rule yields_mono [OF options_set_yields]) (auto simp: options_set_def split: if_splits)
qed simp_all

end


subsection \<open>Properties of the handlers\<close>


text \<open>
  C11. When \<open>CreateVolume\<close> returns a volume, it has the id made from the name and the capacity of
  the request; its context names an endpoint, a location and a bucket that answered an access
  check during the call; nothing was deleted; and the context calls the bucket the user's
  (\<open>userProvidedBucket\<close> is \<open>true\<close>) or, with \<open>false\<close>, the service answered its creation.
\<close>

theorem CreateVolume_success:
  "yields (CreateVolume env (newControllerServer env iam) req)
     (\<lambda>r es. case r of
        Ret v \<Rightarrow>
          Inr (vol_id v) = sanitizeVolumeID (cv_name req) \<and> vol_capacity v = required_bytes req \<and>
          mget (vol_context v) ''cosEndpoint'' \<noteq> [] \<and> mget (vol_context v) ''locationConstraint'' \<noteq> [] \<and>
          list_all (\<lambda>e. delete_target e = None) es \<and>
          (\<exists>b. b \<noteq> [] \<and> map_of (vol_context v) ''bucketName'' = Some b \<and>
             Cos (EvHeadBucket b (Inr ())) \<in> set es \<and>
             (map_of (vol_context v) ''userProvidedBucket'' = Some ''true'' \<or>
              map_of (vol_context v) ''userProvidedBucket'' = Some ''false'' \<and>
                list_ex (bucket_opened b) es))
      | Fail _ \<Rightarrow> True
      | Panic _ \<Rightarrow> True)"
proof -
  have id: "Inr (projr (sanitizeVolumeID n)) = sanitizeVolumeID n" for n
    by (simp add: sanitizeVolumeID_def Let_def)
  show ?thesis
  proof (rule yields_mono [OF ctl.CreateVolume_yields])
    fix r es
    assume "create_post req (projr (sanitizeVolumeID (cv_name req))) r es"
    then show "case r of
        Ret v \<Rightarrow>
          Inr (vol_id v) = sanitizeVolumeID (cv_name req) \<and> vol_capacity v = required_bytes req \<and>
          mget (vol_context v) ''cosEndpoint'' \<noteq> [] \<and> mget (vol_context v) ''locationConstraint'' \<noteq> [] \<and>
          list_all (\<lambda>e. delete_target e = None) es \<and>
          (\<exists>b. b \<noteq> [] \<and> map_of (vol_context v) ''bucketName'' = Some b \<and>
             Cos (EvHeadBucket b (Inr ())) \<in> set es \<and>
             (map_of (vol_context v) ''userProvidedBucket'' = Some ''true'' \<or>
              map_of (vol_context v) ''userProvidedBucket'' = Some ''false'' \<and>
                list_ex (bucket_opened b) es))
      | Fail _ \<Rightarrow> True
      | Panic _ \<Rightarrow> True"
      by (cases r) (simp_all add: create_post_def id list_ex_iff list_all_iff delete_target_None)
  qed
qed

text \<open>
  C17. The context of a volume that \<open>CreateVolume\<close> returns. The secret is that of the request, or the
  one that the annotation of the claim names. Endpoint, location and mounter are the secret's value,
  when it has one, or the parameter; the object path is the parameter, or, with a secret of an
  annotation, that secret's; the bucket is the one that the secret names, or a new name made of
  mounter, time and volume id, which is then the driver's own; and the bucket is marked as the user's
  or the driver's. Every other key is the parameters' own: no credential of the secret gets into the
  persistent volume. The context has no double keys when the parameters have none.
\<close>

theorem CreateVolume_context:
  "yields (CreateVolume env (newControllerServer env iam) req)
     (\<lambda>r es. case r of
        Ret v \<Rightarrow>
          (let params = deref (cv_parameters req); ctx = vol_context v;
               from = (\<lambda>sm k. if mget sm k \<noteq> [] then Some (mget sm k) else map_of params k)
           in (if smap_wf params then smap_wf ctx else True) \<and>
              (\<exists>sm. secret_map req es sm \<and>
                 map_of ctx ''cosEndpoint'' = from sm ''cosEndpoint'' \<and>
                 map_of ctx ''locationConstraint'' = from sm ''locationConstraint'' \<and>
                 map_of ctx ''mounter'' = from sm ''mounter'' \<and>
                 map_of ctx ''objectPath'' =
                   (if deref (cv_secrets req) = [] then Some (mget sm ''objectPath'') else map_of params ''objectPath'') \<and>
                 (if mget sm ''bucketName'' \<noteq> []
                  then map_of ctx ''bucketName'' = Some (mget sm ''bucketName'') \<and>
                       map_of ctx ''userProvidedBucket'' \<in> {Some ''true'', Some ''false''}
                  else map_of ctx ''userProvidedBucket'' = Some ''false'' \<and>
                       (\<exists>t. Proc (EvNow t) \<in> set es \<and>
                          map_of ctx ''bucketName'' = Some (mget ctx ''mounter'' @ t @ ''-'' @ vol_id v)))) \<and>
              (\<forall>k. if k \<in> {''bucketName'', ''objectPath'', ''cosEndpoint'', ''locationConstraint'', ''mounter'',
                          ''userProvidedBucket''}
                   then True else map_of ctx k = map_of params k))
      | Fail _ \<Rightarrow> True
      | Panic _ \<Rightarrow> True)"
proof (rule yields_mono [OF ctl.CreateVolume_yields])
  fix r es
  assume post: "create_post req (projr (sanitizeVolumeID (cv_name req))) r es"
  show "case r of
        Ret v \<Rightarrow>
          (let params = deref (cv_parameters req); ctx = vol_context v;
               from = (\<lambda>sm k. if mget sm k \<noteq> [] then Some (mget sm k) else map_of params k)
           in (if smap_wf params then smap_wf ctx else True) \<and>
              (\<exists>sm. secret_map req es sm \<and>
                 map_of ctx ''cosEndpoint'' = from sm ''cosEndpoint'' \<and>
                 map_of ctx ''locationConstraint'' = from sm ''locationConstraint'' \<and>
                 map_of ctx ''mounter'' = from sm ''mounter'' \<and>
                 map_of ctx ''objectPath'' =
                   (if deref (cv_secrets req) = [] then Some (mget sm ''objectPath'') else map_of params ''objectPath'') \<and>
                 (if mget sm ''bucketName'' \<noteq> []
                  then map_of ctx ''bucketName'' = Some (mget sm ''bucketName'') \<and>
                       map_of ctx ''userProvidedBucket'' \<in> {Some ''true'', Some ''false''}
                  else map_of ctx ''userProvidedBucket'' = Some ''false'' \<and>
                       (\<exists>t. Proc (EvNow t) \<in> set es \<and>
                          map_of ctx ''bucketName'' = Some (mget ctx ''mounter'' @ t @ ''-'' @ vol_id v)))) \<and>
              (\<forall>k. if k \<in> {''bucketName'', ''objectPath'', ''cosEndpoint'', ''locationConstraint'', ''mounter'',
                          ''userProvidedBucket''}
                   then True else map_of ctx k = map_of params k))
      | Fail _ \<Rightarrow> True
      | Panic _ \<Rightarrow> True"
  proof (cases r)
    case (Ret v)
    with post have "context_of req (vol_id v) es (vol_context v)"
      by (simp add: create_post_def)
    then show ?thesis
      unfolding Ret outcome.case Let_def context_of_def from_secret_def object_path_def .
  qed simp_all
qed

text \<open>
  C12. \<open>CreateVolume\<close> fails with three status codes only. With \<open>InvalidArgument\<close> it has
  not called the object store at all: every check of the request, the claim, the secret and the
  credentials comes before the first call. With \<open>PermissionDenied\<close> it has deleted nothing and tried
  no option, and the last call was an access check of a bucket that failed or the creation of one that
  was refused. With \<open>Internal\<close> a bucket had passed an access check and its quota or versioning was
  refused; if the call had made or adopted this bucket the clean-up was begun, which lists and then
  deletes it, and otherwise nothing was deleted. It panics only when the SDK cannot make a session.
\<close>

theorem CreateVolume_failure:
  "yields (CreateVolume env (newControllerServer env iam) req)
     (\<lambda>r es. case r of
        Ret _ \<Rightarrow> True
      | Fail (Status InvalidArgument _) \<Rightarrow> list_all (\<lambda>e. \<not> is_cos e) es
      | Fail (Status PermissionDenied _) \<Rightarrow>
          list_all (\<lambda>e. \<not> is_delete e \<and> \<not> is_option e) es \<and> es \<noteq> [] \<and> (\<exists>b. refuses_bucket b (last es))
      | Fail (Status Internal _) \<Rightarrow>
          (\<exists>b. Cos (EvHeadBucket b (Inr ())) \<in> set es \<and> list_ex (refuses_option b) es \<and>
             (if list_ex (bucket_opened b) es then list_ex (lists_objects b) es
              else list_all (\<lambda>e. \<not> is_delete e) es))
      | Fail _ \<Rightarrow> False
      | Panic _ \<Rightarrow> \<exists>c x. es \<noteq> [] \<and> last es = Cos (EvNewSession c x))"
  by (rule yields_mono [OF ctl.CreateVolume_yields])
     (auto simp: create_post_def denied_def undone_def list_all_iff [of "\<lambda>e. \<not> is_cos e"]
      split: outcome.splits split del: if_split)

text \<open>
  C15. When the branch of \<open>CreateVolume\<close> for a bucket named in the secret succeeds, the quota and
  the versioning that were asked for have been set on this bucket, the quota with the API key of
  the resource configuration and the requested size.
\<close>

theorem provided_bucket_sets_options:
  "yields (provided_bucket (COSSession env c) o' b params)
     (\<lambda>r es. case r of Ret _ \<Rightarrow> options_set o' b es | Fail _ \<Rightarrow> True | Panic _ \<Rightarrow> True)"
  by (rule yields_mono [OF cos.provided_bucket_options]) (simp split: outcome.split)


definition flaky_env :: env where
  "flaky_env = env_ok\<lparr> cos := cos_ok\<lparr>
     sdk_head_bucket := (\<lambda>h _ _. if h = [] then Inl (AwsErr ''RequestTimeout'' ''try again'') else Inr ()),
     sdk_create_bucket := (\<lambda>_ _ _ _. Inl (AwsErr ''BucketAlreadyOwnedByYou'' ''it is yours'')) \<rparr> \<rparr>"

definition plain_options :: bucket_options where
  "plain_options = \<lparr> bo_endPoint = ''https://s3'', bo_kpRootKeyCrn = [], bo_iamEndpoint = [],
     bo_quotaLimitEnabled = False, bo_quotaBytes = 0, bo_resConfApikey = [], bo_bucketVersioning = [] \<rparr>"


text \<open>
  C6. \<open>DeleteVolume\<close> deletes objects and buckets only in the bucket that the persistent volume of
  this volume id names and does not mark as the user's, as the Kubernetes API said in the same call;
  and a deletion that fails does not make the call fail.
\<close>

theorem DeleteVolume_deletes_only_own:
  "yields (DeleteVolume (newControllerServer env iam) req)
     (\<lambda>r es. list_all (deletion_allowed (dv_volume_id req) es) es \<and>
        (r = Ret () \<or> list_all (\<lambda>e. delete_target e = None) es))"
proof (rule yields_mono [OF ctl.DeleteVolume_yields])
  fix r es
  assume "delete_post (dv_volume_id req) r es"
  then show "list_all (deletion_allowed (dv_volume_id req) es) es \<and>
        (r = Ret () \<or> list_all (\<lambda>e. delete_target e = None) es)"
    by (auto simp: delete_post_def list_ex_iff list_all_iff delete_target_None)
qed

text \<open>
  C18. \<open>DeleteVolume\<close> opens a session only for the endpoint, the location and the credentials that the
  secrets of the request name, or, when the request has none, for the endpoint and the location that the
  persistent volume records and the credentials of the secret that it refers to: the service instance
  and its key when there is one, otherwise the key pair, each in its place. A secret without
  \<open>cosEndpoint\<close>, for which \<open>CreateVolume\<close> takes the endpoint of the storage class, makes
  it look for the bucket at the empty endpoint.
\<close>

theorem DeleteVolume_session:
  "yields (DeleteVolume (newControllerServer env iam) req)
     (\<lambda>r es. list_all (\<lambda>e. case session_at e of
        None \<Rightarrow> True
      | Some c \<Rightarrow> session_for (dv_volume_id req) iam (deref (dv_secrets req)) es c) es)"
proof -
  have "cs_iamEndpoint (newControllerServer env iam) = iam"
    by (simp add: newControllerServer_def)
  from ctl.DeleteVolume_session_for [of env iam req, unfolded this] show ?thesis
    unfolding list_all_iff .
qed

end
