(* ===== verification/Lifecycle.thy ===== *)
theory Lifecycle
  imports ControllerContract NodeServer
begin

section \<open>The life of a volume: any sequence of calls\<close>

text \<open>
  The container orchestrator calls the driver in any order, with any requests, from any number of
  controller and node processes. The state of the cluster that the driver's safety rests on is the
  log of everything that was sent and answered, and the attributes of the volumes that the
  orchestrator has recorded. \<open>driver_step\<close> has one rule per call; the handlers are the
  definitions of \<open>Controller\<close> and \<open>NodeServer\<close>. Environment, IAM endpoint and
  configuration are arbitrary in every step, so that services may change and processes may be
  restarted between two calls.
\<close>


subsection \<open>The cluster\<close>

record cluster =
  event_log :: hist
  volumes :: "(string \<times> smap) list"

definition new_cluster :: cluster where
  "new_cluster = \<lparr> event_log = [], volumes = [] \<rparr>"

text \<open>
  \<open>served vs e\<close>: when \<open>e\<close> is an answer of the Kubernetes API with a persistent volume that
  has a CSI part, then the volume is one of the recorded \<open>vs\<close>, with the bucket and the mark of
  the record. The external provisioner makes persistent volumes so: it stores the volume context of
  \<open>CreateVolumeResponse\<close> as the attributes.
\<close>

fun served :: "(string \<times> smap) list \<Rightarrow> event \<Rightarrow> bool" where
  "served vs (K8s (EvGetPV v (Inr p))) \<longleftrightarrow>
     (case pv_csi p of
        None \<Rightarrow> True
      | Some csi \<Rightarrow>
          (case map_of vs v of
             None \<Rightarrow> False
           | Some ctx \<Rightarrow>
               mget (volume_attributes csi) ''bucketName'' = mget ctx ''bucketName'' \<and>
               mget (volume_attributes csi) ''userProvidedBucket'' = mget ctx ''userProvidedBucket''))"
| "served vs _ \<longleftrightarrow> True"

inductive driver_step :: "cluster \<Rightarrow> cluster \<Rightarrow> bool" where
  created: "run_state (CreateVolume env (newControllerServer env iam) req) (event_log s) = (Ret v, h) \<Longrightarrow>
    driver_step s \<lparr> event_log = h, volumes = (vol_id v, vol_context v) # volumes s \<rparr>"
| not_created: "run_state (CreateVolume env (newControllerServer env iam) req) (event_log s) = (r, h) \<Longrightarrow>
    driver_step s (s\<lparr> event_log := h \<rparr>)"
| deleted: "run_state (DeleteVolume (newControllerServer env iam) req) (event_log s) = (r, event_log s @ es) \<Longrightarrow>
    list_all (served (volumes s)) es \<Longrightarrow>
    driver_step s (s\<lparr> event_log := event_log s @ es \<rparr>)"
| published: "run_state (NodePublishVolume (make_nodeServer env it iam maxv d nodeID cipher) preq)
      (event_log s) = (r, h) \<Longrightarrow>
    driver_step s (s\<lparr> event_log := h \<rparr>)"
| unpublished: "run_state (NodeUnpublishVolume (make_nodeServer env it iam maxv d nodeID cipher) ureq)
      (event_log s) = (r, h) \<Longrightarrow>
    driver_step s (s\<lparr> event_log := h \<rparr>)"
| measured: "run_state (NodeGetVolumeStats (make_nodeServer env it iam maxv d nodeID cipher) sreq)
      (event_log s) = (st, h) \<Longrightarrow>
    driver_step s (s\<lparr> event_log := h \<rparr>)"
| forgotten: "driver_step s (s\<lparr> volumes := filter (\<lambda>(v', _). v' \<noteq> v) (volumes s) \<rparr>)"

inductive reachable :: "cluster \<Rightarrow> bool" where
  start: "reachable new_cluster"
| step: "reachable s \<Longrightarrow> driver_step s t \<Longrightarrow> reachable t"

inductive_cases driver_stepE: "driver_step s t"


subsection \<open>The invariant\<close>

text \<open>
  What the log says of a recorded volume: its bucket has answered an access check, and it is marked
  as the user's, or the service has answered its creation in one of the three ways of \<open>bucket_opened\<close>.
\<close>

definition volume_ok :: "hist \<Rightarrow> smap \<Rightarrow> bool" where
  "volume_ok h ctx \<longleftrightarrow>
     (let b = mget ctx ''bucketName''
      in b \<noteq> [] \<and> Cos (EvHeadBucket b (Inr ())) \<in> set h \<and>
         (mget ctx ''userProvidedBucket'' = ''true'' \<or>
          mget ctx ''userProvidedBucket'' = ''false'' \<and> list_ex (bucket_opened b) h))"

definition cluster_inv :: "cluster \<Rightarrow> bool" where
  "cluster_inv s \<longleftrightarrow>
     permitted may_delete [] (event_log s) \<and> list_all (\<lambda>(_, ctx). volume_ok (event_log s) ctx) (volumes s)"

lemma cluster_invI:
  "permitted may_delete [] (event_log s) \<Longrightarrow>
   (\<And>v ctx. (v, ctx) \<in> set (volumes s) \<Longrightarrow> volume_ok (event_log s) ctx) \<Longrightarrow> cluster_inv s"
  by (auto simp: cluster_inv_def list_all_iff)

lemma cluster_invD:
  assumes "cluster_inv s"
  shows "permitted may_delete [] (event_log s)"
    and "(v, ctx) \<in> set (volumes s) \<Longrightarrow> volume_ok (event_log s) ctx"
  using assms by (auto simp: cluster_inv_def list_all_iff)

lemma volume_ok_append: "volume_ok h ctx \<Longrightarrow> volume_ok (h @ es) ctx"
  by (auto simp: volume_ok_def Let_def)

lemma volume_ok_own:
  "volume_ok h ctx \<Longrightarrow> mget ctx ''userProvidedBucket'' \<noteq> ''true'' \<Longrightarrow> may_delete h (mget ctx ''bucketName'')"
  by (auto simp: volume_ok_def Let_def may_delete_iff list_ex_iff)

text \<open>Calls that delete nothing keep the invariant.\<close>

lemma inv_permitted:
  assumes "cluster_inv s" and "permitted may_delete (event_log s) es"
  shows "cluster_inv (s\<lparr> event_log := event_log s @ es \<rparr>)"
proof (rule cluster_invI)
  show "permitted may_delete [] (event_log (s\<lparr> event_log := event_log s @ es \<rparr>))"
    using cluster_invD(1) [OF assms(1)] assms(2) by (simp add: permitted_append)
  show "volume_ok (event_log (s\<lparr> event_log := event_log s @ es \<rparr>)) ctx"
    if "(v, ctx) \<in> set (volumes (s\<lparr> event_log := event_log s @ es \<rparr>))" for v ctx
    using that by (simp add: volume_ok_append cluster_invD(2) [OF assms(1)])
qed

lemma inv_quiet:
  "cluster_inv s \<Longrightarrow> \<forall>e \<in> set es. \<not> is_delete e \<Longrightarrow> cluster_inv (s\<lparr> event_log := event_log s @ es \<rparr>)"
  by (intro inv_permitted permitted_no_delete)

lemma inv_own_openings:
  "cluster_inv s \<Longrightarrow> permitted may_delete [] es \<Longrightarrow> cluster_inv (s\<lparr> event_log := event_log s @ es \<rparr>)"
  by (rule inv_permitted) (auto intro: permitted_more)

lemma served_marks_own:
  assumes "served vs e" and "marks_own v b e"
  shows "\<exists>ctx. (v, ctx) \<in> set vs \<and> mget ctx ''bucketName'' = b \<and> mget ctx ''userProvidedBucket'' \<noteq> ''true''"
  using assms
  by (cases "(v, b, e)" rule: marks_own.cases)
     (auto split: option.splits dest!: map_of_SomeD)

lemma inv_delete:
  assumes inv: "cluster_inv s" and post: "delete_post v r es" and served: "list_all (served (volumes s)) es"
  shows "cluster_inv (s\<lparr> event_log := event_log s @ es \<rparr>)"
proof (intro inv_permitted [OF inv] permitted_targets)
  fix e b
  assume e: "e \<in> set es" and b: "delete_target e = Some b"
  have "deletion_allowed v es e"
    using post e by (simp add: delete_post_def list_all_iff)
  then obtain m where m: "m \<in> set es" "marks_own v b m"
    using b by (auto simp: deletion_allowed_def list_ex_iff)
  moreover have "served (volumes s) m"
    using served m(1) by (simp add: list_all_iff)
  ultimately obtain ctx where "(v, ctx) \<in> set (volumes s)" "mget ctx ''bucketName'' = b"
      "mget ctx ''userProvidedBucket'' \<noteq> ''true''"
    using served_marks_own by blast
  then show "may_delete (event_log s) b"
    using cluster_invD(2) [OF inv] volume_ok_own by blast
qed

lemma create_post_volume_ok: "create_post req i (Ret v) es \<Longrightarrow> volume_ok (h @ es) (vol_context v)"
  by (auto simp: create_post_def volume_ok_def mget_def list_ex_iff)

lemma publish_quiet: "publish_post ns p c f req r es \<Longrightarrow> \<forall>e \<in> set es. \<not> is_delete e"
  by (rule no_cos_no_delete) (simp add: publish_post_def list_all_iff)

lemma unpublish_quiet: "unpublish_post req r es \<Longrightarrow> \<forall>e \<in> set es. \<not> is_delete e"
  by (rule no_cos_no_delete) (simp add: unpublish_post_def list_all_iff)

lemma stats_quiet:
  "\<forall>e \<in> set es. is_fs e \<or> is_k8s e \<or> is_cos e \<and> \<not> is_delete e \<Longrightarrow> \<forall>e \<in> set es. \<not> is_delete e"
  by (metis is_delete.elims(2) is_fs.simps(2) is_k8s.simps(2))

lemma driver_step_inv: "driver_step s t \<Longrightarrow> cluster_inv s \<Longrightarrow> cluster_inv t"
proof (induction rule: driver_step.induct)
  case (created env iam req s v h)
  obtain es where h: "h = event_log s @ es"
    and post: "create_post req (projr (sanitizeVolumeID (cv_name req))) (Ret v) es"
    using yieldsD [OF ctl.CreateVolume_yields created(1)] by blast
  then have "cluster_inv (s\<lparr> event_log := event_log s @ es \<rparr>)"
    using created(2) by (intro inv_own_openings) (simp_all add: create_post_def)
  with create_post_volume_ok [OF post, of "event_log s"] show ?case
    by (auto simp: h cluster_inv_def list_all_iff)
next
  case (not_created env iam req s r h)
  obtain es where h: "h = event_log s @ es"
    and post: "create_post req (projr (sanitizeVolumeID (cv_name req))) r es"
    using yieldsD [OF ctl.CreateVolume_yields not_created(1)] by blast
  then show ?case
    using not_created(2) by (simp add: inv_own_openings create_post_def)
next
  case (deleted env iam req s r es)
  then show ?case
    using yieldsD [OF ctl.DeleteVolume_yields deleted(1)] by (auto intro: inv_delete)
next
  case (published env it iam maxv d nodeID cipher preq s r h)
  then show ?case
    using yieldsD [OF node.publish_yields published(1)] by (auto intro: inv_quiet dest: publish_quiet)
next
  case (unpublished env it iam maxv d nodeID cipher ureq s r h)
  then show ?case
    using yieldsD [OF node.unpublish_yields unpublished(1)] by (auto intro: inv_quiet dest: unpublish_quiet)
next
  case (measured env it iam maxv d nodeID cipher sreq s st h)
  then show ?case
    using yieldsD [OF node.stats_no_mount measured(1)] by (auto intro: inv_quiet dest: stats_quiet)
next
  case (forgotten s v)
  then show ?case by (auto simp: cluster_inv_def list_all_iff)
qed

lemma reachable_inv: "reachable s \<Longrightarrow> cluster_inv s"
proof (induction rule: reachable.induct)
  case start
  show ?case by (simp add: cluster_inv_def new_cluster_def)
next
  case (step s t)
  then show ?case by (blast intro: driver_step_inv)
qed


subsection \<open>Properties\<close>


text \<open>
  No sequence of calls ever deletes an object of a bucket, or the bucket, unless the object store
  has told the driver before that it created this bucket or that the caller already owns it, or has
  answered \<open>BucketAlreadyExists\<close> through the other SDK; and an access check of it has passed.
\<close>

theorem users_buckets_survive:
  assumes "reachable s" and "event_log s = xs @ e # ys" and "delete_target e = Some b"
  shows "(list_ex (created_or_owned b) xs \<or> list_ex (name_taken b) xs) \<and> Cos (EvHeadBucket b (Inr ())) \<in> set xs"
  using cluster_invD(1) [OF reachable_inv [OF assms(1)]] assms
  by (simp add: permitted_append may_delete_def)


subsection \<open>A run\<close>

text \<open>
  A bucket named in the secret that does not exist yet: the driver creates it, records the volume,
  and deletes it with the volume.
\<close>

definition absent_env :: env where
  "absent_env = env_ok\<lparr> cos := cos_ok\<lparr>
     sdk_head_bucket := (\<lambda>h _ b. if list_ex (bucket_opened b) h then Inr ()
                           else Inl (AwsErr ''NotFound'' ''Not Found'')),
     sdk_list_objects := (\<lambda>_ _ _. Inr [''x'']) \<rparr> \<rparr>"

definition create_req :: CreateVolumeRequest where
  "create_req = \<lparr> cv_name = ''pvc-1'', cv_capacity = Some 1, cv_capabilities = Some [],
     cv_parameters = Some [(''cosEndpoint'', ''https://s3''), (''locationConstraint'', ''us'')],
     cv_secrets = Some [(''accessKey'', ''a''), (''secretKey'', ''s''), (''bucketName'', ''b'')] \<rparr>"

definition run_context :: smap where
  "run_context = [(''cosEndpoint'', ''https://s3''), (''locationConstraint'', ''us''),
     (''userProvidedBucket'', ''false''), (''bucketName'', ''b'')]"

definition run_pv :: pv where
  "run_pv = \<lparr> pv_csi = Some \<lparr> volume_attributes = run_context, csi_secret_ref = None \<rparr>,
     pv_capacity = \<lparr> qty_int64 = None \<rparr>, pv_claim_ns = None \<rparr>"

definition run_creds :: ObjectStorageCredentials where
  "run_creds = \<lparr> cred_AuthType = ''hmac'', cred_AccessKey = ''a'', cred_SecretKey = ''s'', cred_APIKey = [],
     cred_ServiceInstanceID = [], cred_KpRootKeyCRN = [], cred_IAMEndpoint = [] \<rparr>"

definition recorded_env :: env where
  "recorded_env = absent_env\<lparr> k8s := k8s_ok\<lparr>
     api_get_pv := (\<lambda>_ _. Inr run_pv) \<rparr> \<rparr>"

definition delete_req :: DeleteVolumeRequest where
  "delete_req = \<lparr> dv_volume_id = ''pvc-1'', dv_secrets = cv_secrets create_req \<rparr>"

definition create_log :: hist where
  "create_log =
     [Cos (EvNewSession (session_conn ''https://s3'' ''us'' run_creds) (Inr ())),
      Cos (EvHeadBucket ''b'' (Inl (AwsErr ''NotFound'' ''Not Found''))),
      Cos (EvCreateBucket ''b'' None (Inr ())),
      Cos (EvHeadBucket ''b'' (Inr ()))]"

definition delete_log :: hist where
  "delete_log =
     [Cos (EvNewSession (session_conn [] [] run_creds) (Inr ())),
      K8s (EvInClusterConfig (Inr ())), K8s (EvNewForConfig (Inr ())),
      K8s (EvGetPV ''pvc-1'' (Inr run_pv)),
      Cos (EvListObjects ''b'' (Inr [''x''])),
      Cos (EvDeleteObject ''b'' ''x'' (Inr ())),
      Cos (EvDeleteBucket ''b'' (Inr ()))]"

definition after_create :: cluster where
  "after_create = \<lparr> event_log = create_log, volumes = [(''pvc-1'', run_context)] \<rparr>"

definition after_delete :: cluster where
  "after_delete = \<lparr> event_log = create_log @ delete_log, volumes = [(''pvc-1'', run_context)] \<rparr>"

lemma run_create:
  "run_state (CreateVolume absent_env (newControllerServer absent_env []) create_req) [] =
     (Ret \<lparr> vol_id = ''pvc-1'', vol_capacity = 1, vol_context = run_context \<rparr>, create_log)"
  by code_simp

lemma run_delete:
  "run_state (DeleteVolume (newControllerServer recorded_env []) delete_req) create_log =
     (Ret (), create_log @ delete_log)"
  by code_simp

lemma reachable_after_delete: "reachable after_delete"
proof -
  have "driver_step new_cluster after_create"
    using driver_step.created [where s = new_cluster, unfolded new_cluster_def cluster.simps, OF run_create]
    by (simp add: new_cluster_def after_create_def)
  moreover have "list_all (served [(''pvc-1'', run_context)]) delete_log"
    by (simp add: delete_log_def run_pv_def)
  then have "driver_step after_create after_delete"
    using driver_step.deleted [where s = after_create, unfolded after_create_def cluster.simps, OF run_delete]
    by (simp add: after_create_def after_delete_def)
  ultimately show ?thesis
    by (blast intro: reachable.intros)
qed


theorem users_buckets_survive_witness:
  "list_ex (created_or_owned ''b'') (create_log @ butlast delete_log)"
proof -
  have "event_log after_delete = (create_log @ butlast delete_log) @ Cos (EvDeleteBucket ''b'' (Inr ())) # []"
    by (simp add: after_delete_def delete_log_def)
  from users_buckets_survive [OF reachable_after_delete this, of "''b''"]
  show ?thesis by (simp add: create_log_def delete_log_def)
qed

end
