(* ===== verification/Concurrent.thy ===== *)
theory Concurrent
  imports Lifecycle
begin

section \<open>Calls at the same time\<close>

text \<open>
  In \<open>Lifecycle\<close> a call runs without interruption. In the cluster many run at once: the gRPC
  servers take calls concurrently, there is one driver on every node, and any process may be killed
  in the middle of a call. Here the calls interleave request by request. That one call sees what
  another has done only through the answers that it gets, and the answers of \<open>env\<close> are arbitrary;
  hence a call in flight is given by the requests and answers that it has left, which are those of some
  run of a handler, and by the volume that it will return.
\<close>


subsection \<open>Interleaved steps\<close>

type_synonym call = "CreateVolumeResponse option \<times> event list"

text \<open>\<open>performs c\<close>: a run of a handler, in any environment and after any history, makes these requests.\<close>

inductive performs :: "call \<Rightarrow> bool" where
  create: "run_state (CreateVolume env (newControllerServer env iam) req) h = (r, h @ es) \<Longrightarrow>
    performs ((case r of Ret v \<Rightarrow> Some v | _ \<Rightarrow> None), es)"
| delete: "run_state (DeleteVolume (newControllerServer env iam) dreq) h = (r', h @ es) \<Longrightarrow> performs (None, es)"
| publish: "run_state (NodePublishVolume (make_nodeServer env it iam maxv d nodeID cipher) preq) h = (r', h @ es) \<Longrightarrow>
    performs (None, es)"
| unpublish: "run_state (NodeUnpublishVolume (make_nodeServer env it iam maxv d nodeID cipher) ureq) h = (r', h @ es) \<Longrightarrow>
    performs (None, es)"
| measure_stats: "run_state (NodeGetVolumeStats (make_nodeServer env it iam maxv d nodeID cipher) sreq) h = (st, h @ es) \<Longrightarrow>
    performs (None, es)"

text \<open>
  A call begins; the next request of a call in flight is answered; a call ends, and a volume that it
  returns is recorded; a process dies; a volume is forgotten. An answer of the Kubernetes API with a
  persistent volume is one for a volume that is recorded when the answer is given.
\<close>

inductive sys_step :: "cluster \<times> call list \<Rightarrow> cluster \<times> call list \<Rightarrow> bool" where
  begins: "performs c \<Longrightarrow> sys_step (s, cs) (s, c # cs)"
| answered: "served (volumes s) e \<Longrightarrow>
    sys_step (s, cs @ (v, e # es) # cs') (s\<lparr> event_log := event_log s @ [e] \<rparr>, cs @ (v, es) # cs')"
| ends: "sys_step (s, cs @ (v, []) # cs')
    ((case v of None \<Rightarrow> s | Some vol \<Rightarrow> s\<lparr> volumes := (vol_id vol, vol_context vol) # volumes s \<rparr>), cs @ cs')"
| dies: "sys_step (s, cs @ c # cs') (s, cs @ cs')"
| forgets: "sys_step (s, cs) (s\<lparr> volumes := filter (\<lambda>(v', _). v' \<noteq> v) (volumes s) \<rparr>, cs)"

inductive sys_reachable :: "cluster \<times> call list \<Rightarrow> bool" where
  idle: "sys_reachable (new_cluster, [])"
| later: "sys_reachable x \<Longrightarrow> sys_step x y \<Longrightarrow> sys_reachable y"


subsection \<open>What a call may still delete\<close>

text \<open>
  \<open>own_or_opened h b\<close>: after \<open>h\<close> the driver may delete \<open>b\<close>, or an answer of the Kubernetes API in
  \<open>h\<close> has named it as the own bucket of a volume.
\<close>

definition own_or_opened :: "event list \<Rightarrow> string \<Rightarrow> bool" where
  "own_or_opened h b \<longleftrightarrow> may_delete h b \<or> (\<exists>e \<in> set h. \<exists>v. marks_own v b e)"

abbreviation cleared :: "event list \<Rightarrow> event list \<Rightarrow> bool" where
  "cleared h es \<equiv> permitted own_or_opened h es"

lemma own_or_opened_mono: "own_or_opened h b \<Longrightarrow> set h \<subseteq> set h' \<Longrightarrow> own_or_opened h' b"
  unfolding own_or_opened_def by (meson may_delete_mono subsetD)

lemma cleared_more: "cleared h es \<Longrightarrow> set h \<subseteq> set h' \<Longrightarrow> cleared h' es"
  by (erule permitted_mono, erule own_or_opened_mono) auto

lemma cleared_permitted: "permitted may_delete h es \<Longrightarrow> cleared h es"
  by (erule permitted_mono) (simp add: own_or_opened_def)

lemma cleared_concerns: "\<forall>e \<in> set es. concerns b e \<Longrightarrow> own_or_opened h b \<Longrightarrow> cleared h es"
proof (induction es arbitrary: h)
  case (Cons e es)
  have "cleared (h @ [e]) es"
    using Cons.prems by (intro Cons.IH) (auto elim: own_or_opened_mono)
  with Cons.prems show ?case
    by (auto split: option.split dest: delete_target_concerns)
qed simp

text \<open>\<open>DeleteVolume\<close> learns which bucket is the volume's own before it deletes anything.\<close>

context controller
begin

lemma delete_own_bucket_cleared:
  assumes "object_storage_session sess"
  shows "yields (delete_own_bucket cs v sess) (\<lambda>_ es. cleared h es)"
  unfolding delete_own_bucket_def
proof (rule yields_attempt [OF bucket_marked])
  fix b es
  assume *: "(\<forall>e \<in> set es. \<not> is_delete e) \<and>
        (\<forall>b'. Ret b = Ret b' \<longrightarrow> b' \<noteq> [] \<longrightarrow> (\<exists>e \<in> set es. marks_own v b' e))"
  then have "own_or_opened (h @ es) b" if "b \<noteq> []"
    using that by (auto simp: own_or_opened_def)
  with * have "cleared h (es @ es')" if "b \<noteq> []" "\<forall>e \<in> set es'. concerns b e" for es'
    using that by (simp add: permitted_append permitted_no_delete cleared_concerns)
  with * show "yields (if b \<noteq> [] then attempt (DeleteBucket sess b) (\<lambda>_. ret ()) ret else ret ())
     (\<lambda>_ es'. cleared h (es @ es'))"
    by (auto simp: permitted_no_delete
        intro!: yields_ret yields_attempt [OF object_storage_session.delete [OF assms]])
qed (auto simp: permitted_no_delete intro!: yields_ret)

lemma DeleteVolume_cleared: "yields (DeleteVolume cs req) (\<lambda>_ es. cleared h es)"
proof (rule DeleteVolume_rule)
  show "cleared h es" if "no_cos es" for es :: "event list"
    using no_cos_no_delete [OF that] by (rule permitted_no_delete)
  show "cleared h (es @ [Cos (EvNewSession c x)])" if "no_cos es" for es c x
    using no_cos_no_delete [OF that] by (intro permitted_no_delete) auto
  show "yields (delete_own_bucket cs v sess) (\<lambda>_ es'. cleared h (es @ Cos (EvNewSession c x) # es'))"
    if sess: "object_storage_session sess" and es: "no_cos es" for sess es v c x
    using no_cos_no_delete [OF es]
    by (auto simp: permitted_append permitted_no_delete intro!: yields_mono [OF delete_own_bucket_cleared [OF sess]])
qed

end


subsection \<open>The invariant\<close>

text \<open>
  A call in flight is in order when its deletions that are left are cleared; and every answer in the
  log that names a volume's own bucket is right: the driver may delete this bucket.
\<close>

definition call_ok :: "hist \<Rightarrow> call \<Rightarrow> bool" where
  "call_ok h c \<longleftrightarrow>
     cleared h (snd c) \<and>
     (case fst c of None \<Rightarrow> True | Some vol \<Rightarrow> volume_ok (h @ snd c) (vol_context vol))"

definition marks_ok :: "hist \<Rightarrow> bool" where
  "marks_ok h \<longleftrightarrow> (\<forall>e \<in> set h. \<forall>v b. marks_own v b e \<longrightarrow> may_delete h b)"

definition sys_inv :: "cluster \<times> call list \<Rightarrow> bool" where
  "sys_inv x \<longleftrightarrow>
     cluster_inv (fst x) \<and> marks_ok (event_log (fst x)) \<and> list_all (call_ok (event_log (fst x))) (snd x)"

lemma volume_ok_mono: "volume_ok h ctx \<Longrightarrow> set h \<subseteq> set h' \<Longrightarrow> volume_ok h' ctx"
  by (auto simp: volume_ok_def Let_def list_ex_iff)

lemma call_ok_more: "call_ok h c \<Longrightarrow> call_ok (h @ es) c"
  by (auto simp: call_ok_def elim: cleared_more volume_ok_mono split: option.splits)

lemma call_ok_quiet: "\<forall>e \<in> set es. \<not> is_delete e \<Longrightarrow> call_ok h (None, es)"
  by (simp add: call_ok_def permitted_no_delete)

lemma performs_ok: "performs c \<Longrightarrow> call_ok h c"
proof (induction rule: performs.induct)
  case (create env iam req h0 r es)
  then have post: "create_post req (projr (sanitizeVolumeID (cv_name req))) r es"
    using yieldsD [OF ctl.CreateVolume_yields create] by auto
  then have "cleared h es"
    by (intro cleared_permitted [OF permitted_more [of "[]"]]) (simp_all add: create_post_def)
  moreover have "volume_ok (h @ es) (vol_context v)" if "r = Ret v" for v
    using post unfolding that by (rule create_post_volume_ok)
  ultimately show ?case
    by (cases r) (simp_all add: call_ok_def)
next
  case (delete env iam dreq h0 r' es)
  then show ?case
    using yieldsD [OF ctl.DeleteVolume_cleared delete] by (auto simp: call_ok_def)
next
  case (publish env it iam maxv d nodeID cipher preq h0 r' es)
  then show ?case
    using yieldsD [OF node.publish_yields publish] by (auto intro: call_ok_quiet dest: publish_quiet)
next
  case (unpublish env it iam maxv d nodeID cipher ureq h0 r' es)
  then show ?case
    using yieldsD [OF node.unpublish_yields unpublish] by (auto intro: call_ok_quiet dest: unpublish_quiet)
next
  case (measure_stats env it iam maxv d nodeID cipher sreq h0 st es)
  then show ?case
    using yieldsD [OF node.stats_no_mount measure_stats] by (auto intro: call_ok_quiet dest: stats_quiet)
qed

text \<open>The request that is answered is allowed, and the call stays in order with what it has learnt.\<close>

lemma call_answered:
  assumes inv: "cluster_inv s" and marks: "marks_ok (event_log s)"
    and ok: "call_ok (event_log s) (v, e # es)" and served: "served (volumes s) e"
  shows "cluster_inv (s\<lparr> event_log := event_log s @ [e] \<rparr>)" and "marks_ok (event_log s @ [e])"
    and "call_ok (event_log s @ [e]) (v, es)"
proof -
  have own: "may_delete (event_log s) b" if m: "marks_own w b e" for w b
    using served_marks_own [OF served m] cluster_invD(2) [OF inv] volume_ok_own by blast
  have "may_delete (event_log s @ [e]) b" if "may_delete (event_log s) b" for b
    using that by (rule may_delete_mono) auto
  with own marks show "marks_ok (event_log s @ [e])"
    by (auto simp: marks_ok_def)
  have "may_delete (event_log s) b" if "own_or_opened (event_log s) b" for b
    using that marks by (auto simp: own_or_opened_def marks_ok_def)
  with ok have "permitted may_delete (event_log s) [e]"
    by (auto simp: call_ok_def split: option.splits)
  then show "cluster_inv (s\<lparr> event_log := event_log s @ [e] \<rparr>)"
    by (rule inv_permitted [OF inv])
  from ok show "call_ok (event_log s @ [e]) (v, es)"
    by (auto simp: call_ok_def split: option.splits)
qed

lemma sys_step_inv: "sys_step x y \<Longrightarrow> sys_inv x \<Longrightarrow> sys_inv y"
proof (induction rule: sys_step.induct)
  case (begins c s cs)
  then show ?case by (simp add: sys_inv_def performs_ok)
next
  case (answered s e cs v es cs')
  then have ok: "call_ok (event_log s) (v, e # es)" and "cluster_inv s" "marks_ok (event_log s)"
    by (simp_all add: sys_inv_def)
  note next_ok = call_answered [OF this(2,3) ok answered(1)]
  show ?case
    using answered(2) next_ok by (auto simp: sys_inv_def list_all_iff intro: call_ok_more)
next
  case (ends s cs v cs')
  then show ?case
    by (auto simp: sys_inv_def cluster_inv_def call_ok_def list_all_iff split: option.splits)
next
  case (dies s cs c cs')
  then show ?case by (simp add: sys_inv_def)
next
  case (forgets s cs v)
  then show ?case by (auto simp: sys_inv_def cluster_inv_def list_all_iff)
qed

lemma sys_reachable_inv: "sys_reachable x \<Longrightarrow> sys_inv x"
proof (induction rule: sys_reachable.induct)
  case idle
  show ?case by (simp add: sys_inv_def cluster_inv_def marks_ok_def new_cluster_def)
next
  case (later x y)
  then show ?case using sys_step_inv by blast
qed


subsection \<open>Property\<close>



subsection \<open>Two calls at once\<close>

text \<open>A second creation of the sample volume is in flight when the first one ends.\<close>

lemma sys_answers:
  assumes "list_all (served (volumes s)) es"
    and "sys_reachable (s, cs @ (v, es @ es') # cs')"
  shows "sys_reachable (s\<lparr> event_log := event_log s @ es \<rparr>, cs @ (v, es') # cs')"
  using assms
proof (induction es arbitrary: s)
  case (Cons e es)
  from sys_reachable.later [OF Cons.prems(2)] Cons.prems(1)
  have "sys_reachable (s\<lparr> event_log := event_log s @ [e] \<rparr>, cs @ (v, es @ es') # cs')"
    by (auto intro: sys_step.answered)
  from Cons.IH [OF _ this] Cons.prems(1) show ?case by simp
qed simp

lemma sys_ends:
  assumes "sys_reachable (s, cs @ (Some vol, []) # cs')"
  shows "sys_reachable (s\<lparr> volumes := (vol_id vol, vol_context vol) # volumes s \<rparr>, cs @ cs')"
  using sys_reachable.later [OF assms sys_step.ends] by simp

definition run_volume :: CreateVolumeResponse where
  "run_volume = \<lparr> vol_id = ''pvc-1'', vol_capacity = 1, vol_context = run_context \<rparr>"

definition overlapped :: cluster where
  "overlapped = \<lparr> event_log = take 2 create_log @ create_log @ drop 2 create_log,
     volumes = [(''pvc-1'', run_context), (''pvc-1'', run_context)] \<rparr>"

lemma reachable_overlapped: "sys_reachable (overlapped, [])"
proof -
  let ?call = "(Some run_volume, create_log)"
  let ?s1 = "\<lparr> event_log = take 2 create_log, volumes = [] \<rparr> :: cluster"
  let ?s2 = "\<lparr> event_log = take 2 create_log @ create_log, volumes = [] \<rparr> :: cluster"
  let ?s3 = "\<lparr> event_log = take 2 create_log @ create_log, volumes = [(''pvc-1'', run_context)] \<rparr> :: cluster"
  have performs: "performs ?call"
    using performs.create [where h = "[]", unfolded append_Nil, OF run_create] by (simp add: run_volume_def)
  have served: "list_all (served vs) create_log" "list_all (served vs) (take 2 create_log)"
      "list_all (served vs) (drop 2 create_log)" for vs
    by (simp_all add: create_log_def)
  have "sys_reachable (new_cluster, [?call, ?call])"
    by (blast intro: sys_reachable.intros sys_step.begins performs)
  then have "sys_reachable (?s1, [(Some run_volume, drop 2 create_log), ?call])"
    using sys_answers [where cs = "[]" and es = "take 2 create_log" and es' = "drop 2 create_log" and s = new_cluster,
        OF served(2)] by (simp add: new_cluster_def)
  then have "sys_reachable (?s2, [(Some run_volume, drop 2 create_log), (Some run_volume, [])])"
    using sys_answers [where cs = "[(Some run_volume, drop 2 create_log)]" and es = create_log and es' = "[]" and s = ?s1,
        OF served(1)] by simp
  then have "sys_reachable (?s3, [(Some run_volume, drop 2 create_log)])"
    using sys_ends [where s = ?s2 and cs = "[(Some run_volume, drop 2 create_log)]" and cs' = "[]" and vol = run_volume]
    by (simp add: run_volume_def)
  then have "sys_reachable (?s3\<lparr> event_log := event_log overlapped \<rparr>, [(Some run_volume, [])])"
    using sys_answers [where cs = "[]" and es = "drop 2 create_log" and es' = "[]" and s = ?s3, OF served(3)]
    by (simp add: overlapped_def)
  then show ?thesis
    using sys_ends [where s = "?s3\<lparr> event_log := event_log overlapped \<rparr>" and cs = "[]" and cs' = "[]" and vol = run_volume]
    by (simp add: run_volume_def overlapped_def)
qed


end
