(* ===== verification/BucketStore.thy ===== *)
theory BucketStore
  imports Lifecycle
begin

section \<open>Buckets and objects: an abstract object store\<close>

text \<open>
  What the calls of a session are for: the object store is a partial map from bucket names to the
  keys of the objects, in the order of the listing. \<open>store_do\<close> is the abstract specification of
  the calls of \<open>ObjectStorageSession\<close> that read or change it. The detailed operations send several
  requests each; \<open>replay\<close> follows in the abstract store what the requests do, and
  \<open>consistent\<close> says that every answer of the service is true of the store at that moment. Then the
  operations of every session that keeps its contract refine \<open>store_do\<close>, and the handlers of the
  controller refine the creation and the deletion of one bucket.
\<close>


subsection \<open>The store and the requests\<close>

type_synonym store = "string \<Rightarrow> string list option"

definition store_wf :: "store \<Rightarrow> bool" where
  "store_wf s \<longleftrightarrow> (\<forall>b. case s b of None \<Rightarrow> True | Some ks \<Rightarrow> distinct ks)"

fun apply_event :: "event \<Rightarrow> store \<Rightarrow> store" where
  "apply_event (Cos (EvCreateBucket b _ (Inr _))) s = s(b := Some [])"
| "apply_event (Cos (EvDeleteObject b k (Inr _))) s = s(b := map_option (filter (\<lambda>k'. k' \<noteq> k)) (s b))"
| "apply_event (Cos (EvDeleteBucket b (Inr _))) s = s(b := None)"
| "apply_event _ s = s"

fun replay :: "event list \<Rightarrow> store \<Rightarrow> store" where
  "replay [] s = s"
| "replay (e # es) s = replay es (apply_event e s)"

text \<open>\<open>answers c x\<close>: the service refuses with the error code \<open>c\<close>.\<close>

fun answers :: "string \<Rightarrow> 'a res \<Rightarrow> bool" where
  "answers c (Inl (AwsErr c' _)) \<longleftrightarrow> c' = c"
| "answers c _ \<longleftrightarrow> False"

text \<open>
  The answers of S3: a bucket is accessible when it exists; its creation succeeds when it does not;
  a listing has at most \<open>page\<close> keys; an object can always be deleted, a bucket when it is empty.
  Quota and versioning calls may fail or not.
\<close>

fun reply_ok :: "nat \<Rightarrow> store \<Rightarrow> event \<Rightarrow> bool" where
  "reply_ok page s (Cos (EvHeadBucket b x)) \<longleftrightarrow> (x = Inr ()) = (s b \<noteq> None)"
| "reply_ok page s (Cos (EvCreateBucket b _ x)) \<longleftrightarrow>
     (if s b = None then x = Inr () else answers ''BucketAlreadyOwnedByYou'' x)"
| "reply_ok page s (Cos (EvListObjects b x)) \<longleftrightarrow>
     (case s b of None \<Rightarrow> answers ''NoSuchBucket'' x | Some ks \<Rightarrow> x = Inr (take page ks))"
| "reply_ok page s (Cos (EvListObjectsV2 b p x)) \<longleftrightarrow>
     (case s b of
        None \<Rightarrow> answers ''NoSuchBucket'' x
      | Some ks \<Rightarrow> x = Inr (take 1 (filter (\<lambda>k. has_prefix k p) ks)))"
| "reply_ok page s (Cos (EvDeleteObject b _ x)) \<longleftrightarrow> x = Inr ()"
| "reply_ok page s (Cos (EvDeleteBucket b x)) \<longleftrightarrow>
     (if s b = Some [] then x = Inr () else is_err x)"
| "reply_ok page s _ \<longleftrightarrow> True"

fun consistent :: "nat \<Rightarrow> store \<Rightarrow> event list \<Rightarrow> bool" where
  "consistent page s [] \<longleftrightarrow> True"
| "consistent page s (e # es) \<longleftrightarrow> reply_ok page s e \<and> consistent page (apply_event e s) es"

lemma replay_append [simp]: "replay (es @ es') s = replay es' (replay es s)"
  by (induction es arbitrary: s) simp_all

lemma consistent_append [simp]:
  "consistent page s (es @ es') \<longleftrightarrow> consistent page s es \<and> consistent page (replay es s) es'"
  by (induction es arbitrary: s) auto

lemma apply_event_quiet: "\<not> is_write e \<Longrightarrow> apply_event e s = s"
  by (cases "(e, s)" rule: apply_event.cases) auto

lemma replay_quiet: "\<forall>e \<in> set es. \<not> is_write e \<Longrightarrow> replay es s = s"
  by (induction es) (simp_all add: apply_event_quiet)

lemma replay_no_cos: "\<forall>e \<in> set es. \<not> is_cos e \<Longrightarrow> replay es s = s"
  using is_write_cos by (blast intro: replay_quiet)

lemma consistent_no_cos: "\<forall>e \<in> set es. \<not> is_cos e \<Longrightarrow> consistent page s es"
proof (induction es)
  case (Cons e es)
  then show ?case by (cases e) (simp_all add: apply_event_quiet)
qed simp


subsection \<open>The abstract operations\<close>

datatype store_call =
    CallAccess string
  | CallCreate string string
  | CallDelete string
  | CallPath string string

definition ensure :: "string \<Rightarrow> store \<Rightarrow> store" where
  "ensure b s = (if s b = None then s(b := Some []) else s)"

text \<open>
  A deletion removes the bucket when it holds at most one page of objects, and one page of its
  objects otherwise. A path is found when the first key below it is the path itself.
\<close>

fun store_do :: "nat \<Rightarrow> store_call \<Rightarrow> store \<Rightarrow> bool \<times> store" where
  "store_do page (CallAccess b) s = (s b \<noteq> None, s)"
| "store_do page (CallCreate b _) s = (True, ensure b s)"
| "store_do page (CallDelete b) s =
     (case s b of
        None \<Rightarrow> (True, s)
      | Some ks \<Rightarrow>
          (if length ks \<le> page then (True, s(b := None)) else (False, s(b := Some (drop page ks)))))"
| "store_do page (CallPath b p) s =
     ((case s b of
         None \<Rightarrow> False
       | Some ks \<Rightarrow>
           (case filter (\<lambda>k. has_prefix k (dir_prefix p)) ks of
              [] \<Rightarrow> False
            | k # _ \<Rightarrow> k = dir_prefix p \<or> trim_suffix k ''/'' = dir_prefix p)), s)"

text \<open>
  The options of a bucket, its versioning status and its quota, go with the bucket: a new bucket has
  none. \<open>replay_settings\<close> follows in them what the requests do. A versioning or quota call sets its
  option when the service accepts it, the second argument of \<open>call_do\<close>, and does nothing when not;
  the other calls do to the store what \<open>store_do\<close> says, whatever that argument is.
\<close>

type_synonym settings = "string \<Rightarrow> string option \<times> int option"

fun apply_setting :: "event \<Rightarrow> settings \<Rightarrow> settings" where
  "apply_setting (Cos (EvPutVersioning b st (Inr _))) t = t(b := (Some st, snd (t b)))"
| "apply_setting (Cos (EvUpdateBucketConfig _ b q (Inr _))) t = t(b := (fst (t b), Some q))"
| "apply_setting (Cos (EvCreateBucket b _ (Inr _))) t = t(b := (None, None))"
| "apply_setting (Cos (EvDeleteBucket b (Inr _))) t = t(b := (None, None))"
| "apply_setting _ t = t"

fun replay_settings :: "event list \<Rightarrow> settings \<Rightarrow> settings" where
  "replay_settings [] t = t"
| "replay_settings (e # es) t = replay_settings es (apply_setting e t)"

datatype session_call =
    StoreCall store_call
  | CallVersioning string bool
  | CallQuota int string string string string

text \<open>The bucket that comes into being or disappears when the store \<open>s\<close> becomes \<open>s'\<close> loses its options.\<close>

fun settings_do :: "store_call \<Rightarrow> store \<Rightarrow> store \<Rightarrow> settings \<Rightarrow> settings" where
  "settings_do (CallCreate b _) s s' t = (if s b = None then t(b := (None, None)) else t)"
| "settings_do (CallDelete b) s s' t = (if s b \<noteq> None \<and> s' b = None then t(b := (None, None)) else t)"
| "settings_do _ s s' t = t"

fun call_do :: "nat \<Rightarrow> session_call \<Rightarrow> bool \<Rightarrow> store \<times> settings \<Rightarrow> bool \<times> store \<times> settings" where
  "call_do page (StoreCall c) took (s, t) =
     (let (ok, s') = store_do page c s in (ok, s', settings_do c s s' t))"
| "call_do page (CallVersioning b en) took (s, t) =
     (took, s, if took then t(b := (Some (if en then ''Enabled'' else ''Suspended''), snd (t b))) else t)"
| "call_do page (CallQuota q key b ep iam) took (s, t) =
     (took, s, if took then t(b := (fst (t b), Some q)) else t)"

fun calls_run :: "nat \<Rightarrow> (session_call \<times> bool) list \<Rightarrow> store \<times> settings \<Rightarrow> bool list \<times> store \<times> settings" where
  "calls_run page [] x = ([], x)"
| "calls_run page ((c, took) # cs) x =
     (let (ok, y) = call_do page c took x; (oks, z) = calls_run page cs y in (ok # oks, z))"

text \<open>The same calls on a session; what counts as success of each.\<close>

fun session_do :: "ObjectStorageSession \<Rightarrow> session_call \<Rightarrow> bool run" where
  "session_do sess (StoreCall (CallAccess b)) =
     State_Monad.bind (CheckBucketAccess sess b) (\<lambda>r. State_Monad.return (r = Ret ()))"
| "session_do sess (StoreCall (CallCreate b k)) =
     State_Monad.bind (CreateBucket sess b k)
       (\<lambda>r. State_Monad.return (case r of Ret _ \<Rightarrow> True | Fail _ \<Rightarrow> False | Panic _ \<Rightarrow> False))"
| "session_do sess (StoreCall (CallDelete b)) =
     State_Monad.bind (DeleteBucket sess b) (\<lambda>r. State_Monad.return (r = Ret ()))"
| "session_do sess (StoreCall (CallPath b p)) =
     State_Monad.bind (CheckObjectPathExistence sess b p) (\<lambda>r. State_Monad.return (r = Ret True))"
| "session_do sess (CallVersioning b en) =
     State_Monad.bind (SetBucketVersioning sess b en) (\<lambda>r. State_Monad.return (r = Ret ()))"
| "session_do sess (CallQuota q key b ep iam) =
     State_Monad.bind (UpdateQuotaLimit sess q key b ep iam) (\<lambda>r. State_Monad.return (r = Ret ()))"

fun session_run :: "ObjectStorageSession \<Rightarrow> session_call list \<Rightarrow> bool list run" where
  "session_run sess [] = State_Monad.return []"
| "session_run sess (c # cs) =
     do { ok \<leftarrow> session_do sess c; oks \<leftarrow> session_run sess cs; State_Monad.return (ok # oks) }"

lemma replay_settings_append [simp]: "replay_settings (es @ es') t = replay_settings es' (replay_settings es t)"
  by (induction es arbitrary: t) simp_all


subsection \<open>Deleting the objects of a page\<close>

lemma map_upd_same: "s b = v \<Longrightarrow> s(b := v) = s"
  by auto

lemma filter_drop_page: "distinct ks \<Longrightarrow> filter (\<lambda>k. k \<notin> set (take n ks)) ks = drop n ks"
proof (induction ks arbitrary: n)
  case (Cons k ks)
  show ?case
  proof (cases n)
    case (Suc m)
    have "filter (\<lambda>x. x \<noteq> k \<and> x \<notin> set (take m ks)) ks = filter (\<lambda>x. x \<notin> set (take m ks)) ks"
      using Cons.prems by (intro filter_cong) auto
    with Suc Cons show ?thesis by simp
  qed simp
qed simp

lemma replay_delete_objects:
  "replay (map (\<lambda>k. Cos (EvDeleteObject b k (Inr ()))) ks) s =
     s(b := map_option (filter (\<lambda>k. k \<notin> set ks)) (s b))"
proof (induction ks arbitrary: s)
  case Nil
  show ?case by (simp add: fun_eq_iff option.map_ident)
next
  case (Cons k ks)
  have "map_option (filter (\<lambda>x. x \<notin> set ks)) (map_option (filter (\<lambda>x. x \<noteq> k)) (s b))
      = map_option (filter (\<lambda>x. x \<notin> set (k # ks))) (s b)"
    by (cases "s b") (auto intro: filter_cong)
  with Cons show ?case by (auto simp: fun_eq_iff)
qed

lemma consistent_delete_objects:
  "consistent page s (map (\<lambda>k. Cos (EvDeleteObject b k (Inr ()))) ks)"
  by (induction ks arbitrary: s) simp_all

lemma store_wf_upd: "store_wf s \<Longrightarrow> (\<And>ks. v = Some ks \<Longrightarrow> distinct ks) \<Longrightarrow> store_wf (s(b := v))"
  by (auto simp: store_wf_def split: option.split)

lemma store_wfD: "store_wf s \<Longrightarrow> s b = Some ks \<Longrightarrow> distinct ks"
  unfolding store_wf_def by (metis option.simps(5))

lemma store_do_wf: "store_wf s \<Longrightarrow> store_wf (snd (store_do page c s))"
  by (cases c) (auto simp: ensure_def split: option.split intro!: store_wf_upd dest: store_wfD)



subsection \<open>The operations of a session refine the abstract ones\<close>

text \<open>
  A deletion, event by event: the listing, one page of objects, then the bucket.
\<close>

lemma delete_outcome_refines:
  assumes wf: "store_wf s" and cons: "consistent page s es" and out: "delete_outcome b r es"
  shows "store_do page (CallDelete b) s = (r = Ret (), replay es s)"
proof (cases "s b")
  case None
  with cons out show ?thesis
    by (auto simp: delete_outcome_def elim!: answers.elims split: if_splits)
next
  case (Some ks)
  note d = store_wfD [OF wf Some]
  from out cons Some obtain x where r: "r = of_res x"
    and es: "es = Cos (EvListObjects b (Inr (take page ks))) #
      map (\<lambda>k. Cos (EvDeleteObject b k (Inr ()))) (take page ks) @ [Cos (EvDeleteBucket b x)]"
    by (auto simp: delete_outcome_def)
  have left: "replay (map (\<lambda>k. Cos (EvDeleteObject b k (Inr ()))) (take page ks)) s = s(b := Some (drop page ks))"
    by (simp add: replay_delete_objects Some filter_drop_page [OF d])
  with cons es have x: "if drop page ks = [] then x = Inr () else is_err x"
    by simp
  show ?thesis
  proof (cases "length ks \<le> page")
    case True
    with x left have "x = Inr ()" "replay (map (\<lambda>k. Cos (EvDeleteObject b k (Inr ()))) ks) s = s(b := Some [])"
      by simp_all
    with True show ?thesis by (simp add: Some r es)
  next
    case False
    with x obtain e where "x = Inl e" by (cases x) simp_all
    with False show ?thesis by (simp add: Some r es left)
  qed
qed

lemma replay_settings_delete_objects:
  "replay_settings (map (\<lambda>k. Cos (EvDeleteObject b k (Inr ()))) ks) t = t"
  by (induction ks) simp_all

lemma apply_setting_refused: "is_err x \<Longrightarrow> apply_setting (Cos (EvPutVersioning b st x)) t = t"
  by (cases x) simp_all

lemma delete_outcome_settings:
  assumes wf: "store_wf s" and cons: "consistent page s es" and out: "delete_outcome b r es"
  shows "replay_settings es t = settings_do (CallDelete b) s (replay es s) t"
proof (cases "s b")
  case None
  with cons out show ?thesis
    by (auto simp: delete_outcome_def elim!: answers.elims split: if_splits)
next
  case (Some ks)
  note d = store_wfD [OF wf Some]
  from out cons Some obtain x where
    es: "es = Cos (EvListObjects b (Inr (take page ks))) #
      map (\<lambda>k. Cos (EvDeleteObject b k (Inr ()))) (take page ks) @ [Cos (EvDeleteBucket b x)]"
    by (auto simp: delete_outcome_def)
  have left: "replay (map (\<lambda>k. Cos (EvDeleteObject b k (Inr ()))) (take page ks)) s = s(b := Some (drop page ks))"
    by (simp add: replay_delete_objects Some filter_drop_page [OF d])
  then show ?thesis
    by (cases x) (simp_all add: es Some replay_settings_delete_objects)
qed

lemma take1_found:
  "(\<exists>k. take (Suc 0) xs = [k] \<and> P k) \<longleftrightarrow> (case xs of [] \<Rightarrow> False | k # _ \<Rightarrow> P k)"
  by (cases xs) simp_all

text \<open>One call: the store and the options that the requests leave are those of the abstract call.\<close>

definition refines_call :: "nat \<Rightarrow> session_call \<Rightarrow> bool \<Rightarrow> event list \<Rightarrow> bool" where
  "refines_call page c ok es \<longleftrightarrow>
     (\<forall>s t. store_wf s \<longrightarrow> consistent page s es \<longrightarrow>
        call_do page c ok (s, t) = (ok, replay es s, replay_settings es t))"

context object_storage_session
begin

lemma store_call_refines: "yields (session_do sess (StoreCall c)) (refines_call page (StoreCall c))"
  unfolding refines_call_def
proof (cases c)
  case (CallAccess b)
  then show "yields (session_do sess (StoreCall c)) (\<lambda>ok es. \<forall>s t. store_wf s \<longrightarrow> consistent page s es \<longrightarrow>
        call_do page (StoreCall c) ok (s, t) = (ok, replay es s, replay_settings es t))"
    by (auto intro!: yields_bind [OF check_access] yields_return)
next
  case (CallCreate b k)
  then show "yields (session_do sess (StoreCall c)) (\<lambda>ok es. \<forall>s t. store_wf s \<longrightarrow> consistent page s es \<longrightarrow>
        call_do page (StoreCall c) ok (s, t) = (ok, replay es s, replay_settings es t))"
    by (auto simp: ensure_def intro!: yields_bind [OF create] yields_return
        elim!: answers.elims split: outcome.splits)
next
  case (CallDelete b)
  then show "yields (session_do sess (StoreCall c)) (\<lambda>ok es. \<forall>s t. store_wf s \<longrightarrow> consistent page s es \<longrightarrow>
        call_do page (StoreCall c) ok (s, t) = (ok, replay es s, replay_settings es t))"
    by (auto intro!: yields_bind [OF delete_outcomes] yields_return
        simp: delete_outcome_refines delete_outcome_settings Let_def simp del: store_do.simps settings_do.simps)
next
  case (CallPath b p)
  then show "yields (session_do sess (StoreCall c)) (\<lambda>ok es. \<forall>s t. store_wf s \<longrightarrow> consistent page s es \<longrightarrow>
        call_do page (StoreCall c) ok (s, t) = (ok, replay es s, replay_settings es t))"
    by (auto simp: take1_found intro!: yields_bind [OF path] yields_return elim!: answers.elims
        split: outcome.splits option.split)
qed

lemma session_do_refines: "yields (session_do sess c) (refines_call page c)"
proof (cases c)
  case (StoreCall c')
  then show ?thesis by (simp add: store_call_refines del: session_do.simps)
next
  case (CallVersioning b en)
  then show ?thesis
    unfolding refines_call_def
    by (auto simp: apply_setting_refused intro!: yields_bind [OF versioning] yields_return split: outcome.splits)
next
  case (CallQuota q key b ep iam)
  then show ?thesis
    unfolding refines_call_def
    by (auto simp: quota_outcome_def intro!: yields_bind [OF quota_outcomes] yields_return)
qed

lemma call_do_wf: "store_wf s \<Longrightarrow> call_do page c a (s, t) = (ok, s', t') \<Longrightarrow> store_wf s'"
  using store_do_wf [of s page] by (cases c) (auto simp: split_beta Let_def simp del: store_do.simps)

lemma session_run_refines:
  "yields (session_run sess cs)
     (\<lambda>oks es. \<forall>s t. store_wf s \<longrightarrow> consistent page s es \<longrightarrow>
        calls_run page (zip cs oks) (s, t) = (oks, replay es s, replay_settings es t) \<and>
        length oks = length cs \<and> store_wf (replay es s))"
proof (induction cs)
  case (Cons c cs)
  show ?case
    unfolding session_run.simps
  proof (rule yields_bind [OF session_do_refines])
    fix ok es
    assume "refines_call page c ok es"
    then have first: "call_do page c ok (s, t) = (ok, replay es s, replay_settings es t)"
      if "store_wf s" "consistent page s es" for s t
      using that by (simp add: refines_call_def)
    then have "store_wf (replay es s)" if "store_wf s" "consistent page s es" for s
      using call_do_wf that by blast
    with first show "yields (do { oks \<leftarrow> session_run sess cs; State_Monad.return (ok # oks) })
        (\<lambda>oks es'. \<forall>s t. store_wf s \<longrightarrow> consistent page s (es @ es') \<longrightarrow>
          calls_run page (zip (c # cs) oks) (s, t) = (oks, replay (es @ es') s, replay_settings (es @ es') t) \<and>
          length oks = length (c # cs) \<and> store_wf (replay (es @ es') s))"
      by (intro yields_bind [OF Cons.IH] yields_return) (simp; blast)
  qed
qed (auto intro: yields_return)

end


subsection \<open>The bucket stage of the controller\<close>

context object_storage_session
begin

lemma createBucket_store:
  "yields (createBucket sess b k)
     (\<lambda>r es. \<forall>s. consistent page s es \<longrightarrow> r = Ret () \<and> replay es s = ensure b s)"
  unfolding createBucket_def Let_def
  by (rule yields_attempt [OF create])
     (auto simp: ensure_def split: gerror.split if_splits elim!: answers.elims
        intro!: yields_fail yields_attempt [OF check_access] yields_ret)

lemma delete_empty:
  "yields (DeleteBucket sess b)
     (\<lambda>r es. \<forall>s. s b = Some [] \<longrightarrow> consistent page s es \<longrightarrow> r = Ret () \<and> replay es s = s(b := None))"
proof (rule yields_mono [OF delete_outcomes], intro allI impI)
  fix r es and s :: store
  assume out: "delete_outcome b r es" and s: "s b = Some []" and cons: "consistent page s es"
  show "r = Ret () \<and> replay es s = s(b := None)"
    using out s cons by (auto simp: delete_outcome_def)
qed

lemma apply_quota_store:
  "yields (apply_quota sess o' own b)
     (\<lambda>r es. \<forall>s. (own \<longrightarrow> s b = Some []) \<longrightarrow> consistent page s es \<longrightarrow>
        (case r of Ret _ \<Rightarrow> replay es s = s | Fail _ \<Rightarrow> replay es s = (if own then s(b := None) else s)
         | Panic _ \<Rightarrow> False))"
  unfolding apply_quota_def Let_def
  by (auto simp: replay_quiet intro!: yields_ret yields_fail yields_attempt [OF quota_writes]
      yields_attempt [OF delete_empty [where page = page]])

lemma apply_versioning_store:
  "yields (apply_versioning sess o' own what b)
     (\<lambda>r es. \<forall>s. (own \<longrightarrow> s b = Some []) \<longrightarrow> consistent page s es \<longrightarrow>
        (case r of Ret _ \<Rightarrow> replay es s = s | Fail _ \<Rightarrow> replay es s = (if own then s(b := None) else s)
         | Panic _ \<Rightarrow> False))"
  unfolding apply_versioning_def Let_def
  by (auto simp: replay_quiet intro!: yields_ret yields_fail yields_attempt [OF versioning]
      yields_attempt [OF delete_empty [where page = page]])

lemma options_store:
  "yields (attempt (apply_quota sess o' own b) fail
             (\<lambda>_. attempt (apply_versioning sess o' own what b) fail (\<lambda>_. ret v)))
     (\<lambda>r es. \<forall>s. (own \<longrightarrow> s b = Some []) \<longrightarrow> consistent page s es \<longrightarrow>
        (case r of Ret x \<Rightarrow> x = v \<and> replay es s = s
         | Fail _ \<Rightarrow> replay es s = (if own then s(b := None) else s) | Panic _ \<Rightarrow> False))"
  by (rule yields_attempt_fail [OF apply_quota_store],
      rule yields_attempt_fail [OF apply_versioning_store])
     (auto intro!: yields_ret)

end

text \<open>
  \<open>all_or_nothing page v r es\<close>: on a store without a bucket for volume \<open>v\<close>, the parameters that
  are returned name a bucket that exists afterwards; it is marked as the user's exactly when it existed
  before, and otherwise it is the only change; and a failure changes nothing.
\<close>

definition unused :: "string \<Rightarrow> store \<Rightarrow> bool" where
  "unused v s \<longleftrightarrow> (\<forall>p. s (p @ ''-'' @ v) = None)"

definition one_bucket :: "string \<Rightarrow> smap \<Rightarrow> store \<Rightarrow> store \<Rightarrow> bool" where
  "one_bucket b ps s s' \<longleftrightarrow>
     map_of ps ''bucketName'' = Some b \<and> s' = ensure b s \<and>
     map_of ps ''userProvidedBucket'' = Some (if s b = None then ''false'' else ''true'')"

definition all_or_nothing :: "nat \<Rightarrow> string \<Rightarrow> smap outcome \<Rightarrow> event list \<Rightarrow> bool" where
  "all_or_nothing page v r es \<longleftrightarrow>
     (\<forall>s. unused v s \<longrightarrow> consistent page s es \<longrightarrow>
        (case r of
           Ret ps \<Rightarrow> \<exists>b. one_bucket b ps s (replay es s)
         | Fail _ \<Rightarrow> replay es s = s
         | Panic _ \<Rightarrow> False))"

context object_storage_session
begin

lemma provided_bucket_store:
  assumes up: "map_of params ''userProvidedBucket'' = Some ''true''"
  shows "yields (provided_bucket sess o' b params) (all_or_nothing page v)"
  unfolding provided_bucket_def Let_def
proof (rule yields_attempt_fail)
  show "yields (attempt (CheckBucketAccess sess b)
          (\<lambda>_. attempt (createBucket sess b (bo_kpRootKeyCrn o'))
             (\<lambda>err. fail (Status PermissionDenied (sprintf [error_text err, '': '', b])))
             (\<lambda>_. ret (mput params ''userProvidedBucket'' ''false'')))
          (\<lambda>_. ret params))
      (\<lambda>r es. \<forall>s. consistent page s es \<longrightarrow>
         r = Ret (if s b = None then mput params ''userProvidedBucket'' ''false'' else params) \<and>
         replay es s = ensure b s)"
    by (rule yields_attempt [OF check_access])
       (auto simp: ensure_def intro!: yields_ret yields_fail yields_attempt [OF createBucket_store [where page = page]])
next
  fix ps es
  let ?own = "mget ps ''userProvidedBucket'' = ''false''"
  assume first: "\<forall>s. consistent page s es \<longrightarrow>
         Ret ps = Ret (if s b = None then mput params ''userProvidedBucket'' ''false'' else params) \<and>
         replay es s = ensure b s"
  have own: "?own \<longleftrightarrow> s b = None" if "consistent page s es" for s
    using first that up by (auto simp: mget_def split: if_splits)
  show "yields (attempt (apply_quota sess o' ?own b) fail
           (\<lambda>_. attempt (apply_versioning sess o' ?own ''bucket'' b) fail
                  (\<lambda>_. ret (mput ps ''bucketName'' b))))
        (\<lambda>r es'. all_or_nothing page v r (es @ es'))"
    unfolding all_or_nothing_def
  proof (rule yields_mono [OF options_store [where page = page]], intro allI impI)
    fix r es' and s :: store
    assume post: "\<forall>s. (?own \<longrightarrow> s b = Some []) \<longrightarrow> consistent page s es' \<longrightarrow>
        (case r of Ret x \<Rightarrow> x = mput ps ''bucketName'' b \<and> replay es' s = s
         | Fail _ \<Rightarrow> replay es' s = (if ?own then s(b := None) else s) | Panic _ \<Rightarrow> False)"
      and cons: "consistent page s (es @ es')"
    then have c1: "consistent page s es" and c2: "consistent page (ensure b s) es'"
      and rep: "replay es s = ensure b s"
      and ps: "ps = (if s b = None then mput params ''userProvidedBucket'' ''false'' else params)"
      using first by auto
    have "?own \<longrightarrow> ensure b s b = Some []"
      using own [OF c1] by (simp add: ensure_def)
    with post c2 have "case r of Ret x \<Rightarrow> x = mput ps ''bucketName'' b \<and> replay es' (ensure b s) = ensure b s
         | Fail _ \<Rightarrow> replay es' (ensure b s) = (if ?own then (ensure b s)(b := None) else ensure b s) | Panic _ \<Rightarrow> False"
      by blast
    then show "case r of Ret ps \<Rightarrow> \<exists>b. one_bucket b ps s (replay (es @ es') s)
         | Fail _ \<Rightarrow> replay (es @ es') s = s | Panic _ \<Rightarrow> False"
      using own [OF c1] up
      by (cases r) (auto simp: rep one_bucket_def ps smap_lookup ensure_def map_upd_same)
  qed
qed (auto simp: all_or_nothing_def)

lemma temp_bucket_store:
  assumes up: "map_of params ''userProvidedBucket'' = Some ''true''"
  shows "yields (temp_bucket env sess o' mo v params) (all_or_nothing page v)"
  unfolding temp_bucket_def getTempBucketName_def sys_time_def
proof (rule yields_bind [where R = "\<lambda>b es. \<exists>t. b = mo @ t @ ''-'' @ v \<and> es = [Proc (EvNow t)]"])
  fix b es
  assume "\<exists>t. b = mo @ t @ ''-'' @ v \<and> es = [Proc (EvNow t)]"
  then obtain t where b: "b = mo @ t @ ''-'' @ v" and es: "es = [Proc (EvNow t)]"
    by blast
  have free: "s b = None" if "unused v s" for s
    using that [unfolded unused_def, rule_format, of "mo @ t"] by (simp add: b)
  have "yields (attempt (createBucket sess b (bo_kpRootKeyCrn o'))
            (\<lambda>err. fail (Status PermissionDenied (sprintf [error_text err, '': '', b])))
            (\<lambda>_. attempt (apply_quota sess o' True b) fail
               (\<lambda>_. attempt (apply_versioning sess o' True ''temp bucket'' b) fail
                  (\<lambda>_. ret (mput (mput params ''userProvidedBucket'' ''false'') ''bucketName'' b)))))
      (\<lambda>r es'. all_or_nothing page v r (es @ es'))"
  proof (rule yields_attempt [OF createBucket_store [where page = page]])
    fix u es1
    assume made: "\<forall>s. consistent page s es1 \<longrightarrow> Ret u = Ret () \<and> replay es1 s = ensure b s"
    show "yields (attempt (apply_quota sess o' True b) fail
               (\<lambda>_. attempt (apply_versioning sess o' True ''temp bucket'' b) fail
                  (\<lambda>_. ret (mput (mput params ''userProvidedBucket'' ''false'') ''bucketName'' b))))
      (\<lambda>r es'. all_or_nothing page v r (es @ es1 @ es'))"
      unfolding all_or_nothing_def
    proof (rule yields_mono [OF options_store [where page = page]], intro allI impI)
      fix r es' and s :: store
      assume post: "\<forall>s. (True \<longrightarrow> s b = Some []) \<longrightarrow> consistent page s es' \<longrightarrow>
        (case r of Ret x \<Rightarrow> x = mput (mput params ''userProvidedBucket'' ''false'') ''bucketName'' b \<and> replay es' s = s
         | Fail _ \<Rightarrow> replay es' s = (if True then s(b := None) else s) | Panic _ \<Rightarrow> False)"
        and s: "unused v s" and cons: "consistent page s (es @ es1 @ es')"
      have rep: "replay (es @ es1) s = s(b := Some [])" and c2: "consistent page (s(b := Some [])) es'"
        using made cons free [OF s] by (auto simp: es ensure_def)
      from post c2 have "case r of Ret x \<Rightarrow> x = mput (mput params ''userProvidedBucket'' ''false'') ''bucketName'' b \<and>
            replay es' (s(b := Some [])) = s(b := Some [])
         | Fail _ \<Rightarrow> replay es' (s(b := Some [])) = s(b := None) | Panic _ \<Rightarrow> False"
        by (auto split: outcome.splits)
      then show "case r of Ret ps \<Rightarrow> \<exists>b. one_bucket b ps s (replay (es @ es1 @ es') s)
         | Fail _ \<Rightarrow> replay (es @ es1 @ es') s = s | Panic _ \<Rightarrow> False"
        using rep free [OF s]
        by (cases r) (auto simp: one_bucket_def smap_lookup ensure_def map_upd_same)
    qed
  qed (auto simp: all_or_nothing_def es intro!: yields_fail)
  moreover have "b \<noteq> []"
    by (simp add: b)
  ultimately show "yields (if b = [] then fail (Status PermissionDenied (sprintf [''Unable to access the bucket: '', b]))
       else attempt (createBucket sess b (bo_kpRootKeyCrn o'))
            (\<lambda>err. fail (Status PermissionDenied (sprintf [error_text err, '': '', b])))
            (\<lambda>_. attempt (apply_quota sess o' True b) fail
               (\<lambda>_. attempt (apply_versioning sess o' True ''temp bucket'' b) fail
                  (\<lambda>_. ret (mput (mput params ''userProvidedBucket'' ''false'') ''bucketName'' b)))))
     (\<lambda>r es'. all_or_nothing page v r (es @ es'))"
    by simp
qed (auto intro!: yields_bind [OF yields_ask [where Q = "\<lambda>t es. es = [Proc (EvNow t)]"]] yields_return)

lemma bucket_stage_store:
  assumes "map_of p ''userProvidedBucket'' = Some ''true''"
  shows "yields (bucket_stage env sess req o' b mo v p)
     (\<lambda>r es. \<forall>s. unused v s \<longrightarrow> consistent page s es \<longrightarrow>
        (case r of Ret vol \<Rightarrow> \<exists>b. one_bucket b (vol_context vol) s (replay es s)
         | Fail _ \<Rightarrow> replay es s = s | Panic _ \<Rightarrow> False))"
  unfolding bucket_stage_def
proof (rule yields_attempt_fail)
  show "yields (if b \<noteq> [] then provided_bucket sess o' b p else temp_bucket env sess o' mo v p) (all_or_nothing page v)"
    by (rule yields_if) (rule provided_bucket_store temp_bucket_store, rule assms)+
qed (auto simp: all_or_nothing_def intro!: yields_ret)

end


subsection \<open>The handlers of the controller\<close>

context controller
begin

lemma CreateVolume_store:
  "yields (CreateVolume env cs req)
     (\<lambda>r es. \<forall>s. unused (projr (sanitizeVolumeID (cv_name req))) s \<longrightarrow> consistent page s es \<longrightarrow>
        (case r of Ret vol \<Rightarrow> \<exists>b. one_bucket b (vol_context vol) s (replay es s)
         | Fail _ \<Rightarrow> replay es s = s | Panic _ \<Rightarrow> replay es s = s))"
proof (rule CreateVolume_rule)
  fix sess o' sm p es c x
  assume sess: "object_storage_session sess" and es: "no_cos es" and p: "completed req sm p"
  have up: "map_of p ''userProvidedBucket'' = Some ''true''"
    using p by (simp add: completed_def Let_def)
  show "yields (bucket_stage env sess req o' (mget sm ''bucketName'') (mget p ''mounter'')
        (projr (sanitizeVolumeID (cv_name req))) p)
     (\<lambda>r es'. \<forall>s. unused (projr (sanitizeVolumeID (cv_name req))) s \<longrightarrow>
        consistent page s (es @ Cos (EvNewSession c x) # es') \<longrightarrow>
        (case r of Ret vol \<Rightarrow> \<exists>b. one_bucket b (vol_context vol) s (replay (es @ Cos (EvNewSession c x) # es') s)
         | Fail _ \<Rightarrow> replay (es @ Cos (EvNewSession c x) # es') s = s
         | Panic _ \<Rightarrow> replay (es @ Cos (EvNewSession c x) # es') s = s))"
    by (rule yields_mono [OF object_storage_session.bucket_stage_store [OF sess up]])
       (auto simp: replay_no_cos [OF es] split: outcome.splits)
qed (auto simp: replay_no_cos)

text \<open>\<open>DeleteVolume\<close> leaves the store as it is or runs the abstract deletion of the volume's bucket.\<close>

lemma delete_own_bucket_store:
  assumes sess: "object_storage_session sess"
  shows "yields (delete_own_bucket cs v sess)
     (\<lambda>r es. \<forall>s. store_wf s \<longrightarrow> consistent page s es \<longrightarrow>
        replay es s = s \<or>
        (\<exists>b. b \<noteq> [] \<and> (\<exists>e \<in> set es. marks_own v b e) \<and> replay es s = snd (store_do page (CallDelete b) s)))"
  unfolding delete_own_bucket_def
proof (rule yields_attempt [OF yields_conj [OF bucket_marked stats.bucket_no_cos]])
  fix b es
  assume first: "((\<forall>e \<in> set es. \<not> is_delete e) \<and>
        (\<forall>b'. Ret b = Ret b' \<longrightarrow> b' \<noteq> [] \<longrightarrow> (\<exists>e \<in> set es. marks_own v b' e))) \<and> no_cos es"
  then have quiet: "replay es s = s" for s
    by (simp add: replay_no_cos)
  have "yields (attempt (DeleteBucket sess b) (\<lambda>_. ret ()) ret)
     (\<lambda>r es'. \<forall>s. store_wf s \<longrightarrow> consistent page s (es @ es') \<longrightarrow>
        replay (es @ es') s = snd (store_do page (CallDelete b) s))"
    by (rule yields_attempt [OF object_storage_session.delete_outcomes [OF sess]])
       (auto simp: quiet delete_outcome_refines simp del: store_do.simps intro!: yields_ret)
  then show "yields (if b \<noteq> [] then attempt (DeleteBucket sess b) (\<lambda>_. ret ()) ret else ret ())
     (\<lambda>r es'. \<forall>s. store_wf s \<longrightarrow> consistent page s (es @ es') \<longrightarrow>
        replay (es @ es') s = s \<or>
        (\<exists>b. b \<noteq> [] \<and> (\<exists>e \<in> set (es @ es'). marks_own v b e) \<and>
           replay (es @ es') s = snd (store_do page (CallDelete b) s)))"
    using first by (auto simp: quiet simp del: store_do.simps intro!: yields_ret elim!: yields_mono)
qed (auto simp: replay_no_cos intro!: yields_ret)

lemma DeleteVolume_store:
  "yields (DeleteVolume cs req)
     (\<lambda>r es. \<forall>s. store_wf s \<longrightarrow> consistent page s es \<longrightarrow>
        replay es s = s \<or>
        (\<exists>b. b \<noteq> [] \<and> (\<exists>e \<in> set es. marks_own (dv_volume_id req) b e) \<and>
           replay es s = snd (store_do page (CallDelete b) s)))"
proof (rule DeleteVolume_rule)
  fix sess es c x
  assume sess: "object_storage_session sess" and es: "no_cos es"
  show "yields (delete_own_bucket cs (dv_volume_id req) sess)
     (\<lambda>r es'. \<forall>s. store_wf s \<longrightarrow> consistent page s (es @ Cos (EvNewSession c x) # es') \<longrightarrow>
        replay (es @ Cos (EvNewSession c x) # es') s = s \<or>
        (\<exists>b. b \<noteq> [] \<and> (\<exists>e \<in> set (es @ Cos (EvNewSession c x) # es').
             marks_own (dv_volume_id req) b e) \<and>
           replay (es @ Cos (EvNewSession c x) # es') s = snd (store_do page (CallDelete b) s)))"
    by (rule yields_mono [OF delete_own_bucket_store [OF sess]])
       (auto simp: replay_no_cos [OF es] simp del: store_do.simps)
qed (auto simp: replay_no_cos)

end


subsection \<open>Properties\<close>

text \<open>
  C9. Any sequence of calls on a COS session, of all six methods of the interface, refines the same
  sequence on the abstract store: when the answers of S3 are true of the store, each access check,
  creation, deletion and path check succeeds exactly when the abstract one does; a versioning or quota
  call succeeds exactly when the service accepts it; the requests leave the store and the options of the
  buckets that the abstract calls leave; and no bucket ever lists a key twice. A deletion removes a
  bucket of at most one page, with its options, and otherwise one page of its objects.
\<close>

theorem session_refines_store:
  "yields (session_run (COSSession env c) cs)
     (\<lambda>oks es. \<forall>s t. store_wf s \<longrightarrow> consistent page s es \<longrightarrow>
        calls_run page (zip cs oks) (s, t) = (oks, replay es s, replay_settings es t) \<and>
        length oks = length cs \<and> store_wf (replay es s))"
  by (rule cos.session_run_refines)

text \<open>
  C2. When the answers of S3 are true, \<open>CreateVolume\<close> is all or nothing, if no bucket has a name
  that ends in the volume id: a volume that it returns names a bucket that exists then; the
  context marks it as the user's exactly when it existed before; otherwise the bucket is new, empty
  and the only change of the store. A call that fails leaves the store as it was.
\<close>

theorem CreateVolume_refines_store:
  "yields (CreateVolume env (newControllerServer env iam) req)
     (\<lambda>r es. \<forall>s. unused (projr (sanitizeVolumeID (cv_name req))) s \<longrightarrow> consistent page s es \<longrightarrow>
        (case r of
           Ret vol \<Rightarrow> \<exists>b. map_of (vol_context vol) ''bucketName'' = Some b \<and>
             map_of (vol_context vol) ''userProvidedBucket'' = Some (if s b = None then ''false'' else ''true'') \<and>
             replay es s = (if s b = None then s(b := Some []) else s)
         | Fail _ \<Rightarrow> replay es s = s
         | Panic _ \<Rightarrow> replay es s = s))"
proof (rule yields_mono [OF ctl.CreateVolume_store [where page = page]], intro allI impI)
  fix r es and s :: store
  assume "\<forall>s. unused (projr (sanitizeVolumeID (cv_name req))) s \<longrightarrow> consistent page s es \<longrightarrow>
        (case r of Ret vol \<Rightarrow> \<exists>b. one_bucket b (vol_context vol) s (replay es s)
         | Fail _ \<Rightarrow> replay es s = s | Panic _ \<Rightarrow> replay es s = s)"
    and "unused (projr (sanitizeVolumeID (cv_name req))) s" and "consistent page s es"
  then have post: "case r of Ret vol \<Rightarrow> \<exists>b. one_bucket b (vol_context vol) s (replay es s)
         | Fail _ \<Rightarrow> replay es s = s | Panic _ \<Rightarrow> replay es s = s"
    by blast
  then show "case r of
           Ret vol \<Rightarrow> \<exists>b. map_of (vol_context vol) ''bucketName'' = Some b \<and>
             map_of (vol_context vol) ''userProvidedBucket'' = Some (if s b = None then ''false'' else ''true'') \<and>
             replay es s = (if s b = None then s(b := Some []) else s)
         | Fail _ \<Rightarrow> replay es s = s
         | Panic _ \<Rightarrow> replay es s = s"
  proof (cases r)
    case (Ret vol)
    then obtain b where "one_bucket b (vol_context vol) s (replay es s)"
      using post by auto
    then show ?thesis
      unfolding Ret outcome.case one_bucket_def ensure_def by blast
  qed simp_all
qed

text \<open>
  C10. \<open>DeleteVolume\<close> leaves the store as it is, or does to it what the abstract deletion of one bucket
  does, of the bucket that the Kubernetes API named as the volume's own in the same call.
\<close>

theorem DeleteVolume_refines_store:
  "yields (DeleteVolume (newControllerServer env iam) req)
     (\<lambda>r es. \<forall>s. store_wf s \<longrightarrow> consistent page s es \<longrightarrow>
        replay es s = s \<or>
        (\<exists>b. b \<noteq> [] \<and> list_ex (marks_own (dv_volume_id req) b) es \<and>
           replay es s = snd (store_do page (CallDelete b) s)))"
  using ctl.DeleteVolume_store [of env iam req page] by (simp add: list_ex_iff del: store_do.simps)


subsection \<open>Runs on a store\<close>

text \<open>A service that answers from the store that the history has left of \<open>s\<close>.\<close>

definition store_env :: "nat \<Rightarrow> store \<Rightarrow> env" where
  "store_env page s = env_ok\<lparr> cos := cos_ok\<lparr>
     sdk_head_bucket := (\<lambda>h _ b. if replay h s b = None then Inl (AwsErr ''NotFound'' ''Not Found'') else Inr ()),
     sdk_create_bucket := (\<lambda>h _ b _. if replay h s b = None then Inr ()
        else Inl (AwsErr ''BucketAlreadyOwnedByYou'' ''it is yours'')),
     sdk_list_objects := (\<lambda>h _ b. case replay h s b of
        None \<Rightarrow> Inl (AwsErr ''NoSuchBucket'' ''no such bucket'') | Some ks \<Rightarrow> Inr (take page ks)),
     sdk_list_objects_v2 := (\<lambda>h _ b p. case replay h s b of
        None \<Rightarrow> Inl (AwsErr ''NoSuchBucket'' ''no such bucket'')
      | Some ks \<Rightarrow> Inr (take 1 (filter (\<lambda>k. has_prefix k p) ks))),
     sdk_delete_bucket := (\<lambda>h _ b. if replay h s b = Some [] then Inr ()
        else Inl (AwsErr ''BucketNotEmpty'' ''not empty'')) \<rparr> \<rparr>"

definition one_store :: store where
  "one_store = (\<lambda>b. if b = ''old'' then Some [''d/'', ''d/x'', ''y''] else None)"

definition some_calls :: "session_call list" where
  "some_calls = [StoreCall (CallAccess ''new''), StoreCall (CallCreate ''new'' []), StoreCall (CallAccess ''new''),
     CallVersioning ''new'' True, CallQuota 5 ''key'' ''old'' ''https://s3'' ''iam'',
     StoreCall (CallPath ''old'' ''d''), StoreCall (CallDelete ''old''), StoreCall (CallDelete ''new'')]"

definition some_rc :: rc_conn where
  "some_rc = \<lparr> rc_api_key = ''key'', rc_iam_url = ''iam/identity/token'', rc_url = ResourceConfigEPDirect \<rparr>"

definition some_requests :: hist where
  "some_requests =
     [Cos (EvHeadBucket ''new'' (Inl (AwsErr ''NotFound'' ''Not Found''))),
      Cos (EvCreateBucket ''new'' None (Inr ())),
      Cos (EvHeadBucket ''new'' (Inr ())),
      Cos (EvPutVersioning ''new'' ''Enabled'' (Inr ())),
      Cos (EvNewResourceConfig some_rc (Inr ())), Cos (EvUpdateBucketConfig some_rc ''old'' 5 (Inr ())),
      Cos (EvListObjectsV2 ''old'' ''d/'' (Inr [''d/''])),
      Cos (EvListObjects ''old'' (Inr [''d/'', ''d/x''])),
      Cos (EvDeleteObject ''old'' ''d/'' (Inr ())), Cos (EvDeleteObject ''old'' ''d/x'' (Inr ())),
      Cos (EvDeleteBucket ''old'' (Inl (AwsErr ''BucketNotEmpty'' ''not empty''))),
      Cos (EvListObjects ''new'' (Inr [])), Cos (EvDeleteBucket ''new'' (Inr ()))]"

definition some_results :: "bool list" where
  "some_results = [False, True, True, True, True, True, False, True]"

lemma run_some_calls:
  "run_state (session_run (COSSession (store_env 2 one_store) some_conn) some_calls) [] =
     (some_results, some_requests)"
  by code_simp

theorem session_refines_store_witness:
  "calls_run 2 (zip some_calls some_results) (one_store, \<lambda>_. (None, None)) =
     (some_results, replay some_requests one_store, replay_settings some_requests (\<lambda>_. (None, None)))"
proof -
  have "consistent 2 one_store some_requests"
    by (simp add: some_requests_def one_store_def has_prefix_def)
  moreover have "store_wf one_store"
    by (simp add: store_wf_def one_store_def)
  ultimately show ?thesis
    using yieldsD [OF session_refines_store [where page = 2] run_some_calls] by auto
qed

theorem CreateVolume_refines_store_witness:
  "replay create_log (\<lambda>_. None) = (\<lambda>_. None)(''b'' := Some [])"
proof -
  have "consistent 1 (\<lambda>_. None) create_log"
    by (simp add: create_log_def)
  then show ?thesis
    using yieldsD [OF CreateVolume_refines_store [where page = 1] run_create]
    by (auto simp: unused_def run_context_def)
qed

theorem DeleteVolume_refines_store_witness:
  "replay delete_log ((\<lambda>_. None)(''b'' := Some [''x''])) = (\<lambda>_. None)"
proof -
  let ?s = "(\<lambda>_. None)(''b'' := Some [''x'']) :: store"
  have "consistent 1 ?s delete_log"
    by (simp add: delete_log_def)
  moreover have "store_wf ?s"
    by (simp add: store_wf_def)
  ultimately have "replay delete_log ?s = ?s \<or>
        (\<exists>b. b \<noteq> [] \<and> list_ex (marks_own ''pvc-1'' b) delete_log \<and>
           replay delete_log ?s = snd (store_do 1 (CallDelete b) ?s))"
    using yieldsD [OF DeleteVolume_refines_store [where page = 1] run_delete]
    by (simp add: delete_req_def del: store_do.simps)
  moreover have "replay delete_log ?s \<noteq> ?s"
    by (simp add: delete_log_def fun_eq_iff)
  moreover have "b = ''b''" if "list_ex (marks_own ''pvc-1'' b) delete_log" for b
    using that by (simp add: delete_log_def run_pv_def run_context_def mget_def)
  ultimately show ?thesis
    by fastforce
qed

end
