(* ===== verification/Fakes.thy ===== *)
theory Fakes
  imports MounterServer NodeServer BucketStore
begin

section \<open>The test doubles\<close>

text \<open>
  The repository keeps fakes of its interfaces beside the code: \<^verbatim>\<open>fake_driver_utils.go\<close>,
  \<^verbatim>\<open>fake_s3client.go\<close>, \<^verbatim>\<open>fake_mounter*.go\<close>, \<^verbatim>\<open>fake_mounter_utils.go\<close> and
  \<^verbatim>\<open>fake_server.go\<close>. Each is here another value of the interface's record. The functions
  that a test supplies are parameters, and so are the answers of the mock library. The lemmas show
  which of the fakes can keep the contracts of the interfaces, and what the code does on those that
  cannot.
\<close>

definition not_nil :: string where
  "not_nil = ''requested method should not be nil''"

text \<open>Every method of the function structs panics when its function is nil.\<close>

definition required :: "'a option \<Rightarrow> ('a \<Rightarrow> 'b outcome run) \<Rightarrow> 'b outcome run" where
  "required fn call = (case fn of Some f \<Rightarrow> call f | None \<Rightarrow> panic not_nil)"

lemma required_Some [simp]: "required (Some f) call = call f"
  by (simp add: required_def)


subsection \<open>pkg/utils/fake_driver_utils.go\<close>

record FakeStatsUtilsFuncStruct =
  FSInfoFn :: "(string \<Rightarrow> (int \<times> int \<times> int \<times> int \<times> int \<times> int) outcome run) option"
  CheckMountFn :: "(string \<Rightarrow> unit outcome run) option"
  BucketToDeleteFn :: "(string \<Rightarrow> string outcome run) option"
  GetTotalCapacityFromPVFn :: "(string \<Rightarrow> quantity outcome run) option"
  GetBucketUsageFn :: "(string \<Rightarrow> int outcome run) option"
  GetBucketNameFromPVFn :: "(string \<Rightarrow> string outcome run) option"
  GetClusterNodeDataFn :: "(string \<Rightarrow> ClusterNodeData outcome run) option"
  GetEndpointsFn :: "((string \<times> string) outcome run) option"
  GetPVAttributesFn :: "(string \<Rightarrow> smap outcome run) option"
  GetPVCFn :: "(string \<Rightarrow> string \<Rightarrow> pvc outcome run) option"
  GetSecretFn :: "(string \<Rightarrow> string \<Rightarrow> secret outcome run) option"
  GetPVFn :: "(string \<Rightarrow> pv outcome run) option"

definition fake_FSInfo :: "FakeStatsUtilsFuncStruct \<Rightarrow> string \<Rightarrow> (int \<times> int \<times> int \<times> int \<times> int \<times> int) outcome run" where
  "fake_FSInfo m path = required (FSInfoFn m) (\<lambda>fn. fn path)"

definition fake_CheckMount :: "FakeStatsUtilsFuncStruct \<Rightarrow> string \<Rightarrow> unit outcome run" where
  "fake_CheckMount m targetPath = required (CheckMountFn m) (\<lambda>fn. fn targetPath)"

definition fake_BucketToDelete :: "FakeStatsUtilsFuncStruct \<Rightarrow> string \<Rightarrow> string outcome run" where
  "fake_BucketToDelete m volumeID = required (BucketToDeleteFn m) (\<lambda>fn. fn volumeID)"

definition fake_GetTotalCapacityFromPV :: "FakeStatsUtilsFuncStruct \<Rightarrow> string \<Rightarrow> quantity outcome run" where
  "fake_GetTotalCapacityFromPV m volumeID = required (GetTotalCapacityFromPVFn m) (\<lambda>fn. fn volumeID)"

definition fake_GetBucketUsage :: "FakeStatsUtilsFuncStruct \<Rightarrow> string \<Rightarrow> int outcome run" where
  "fake_GetBucketUsage m volumeID = required (GetBucketUsageFn m) (\<lambda>fn. fn volumeID)"

definition fake_GetBucketNameFromPV :: "FakeStatsUtilsFuncStruct \<Rightarrow> string \<Rightarrow> string outcome run" where
  "fake_GetBucketNameFromPV m volumeID = required (GetBucketNameFromPVFn m) (\<lambda>fn. fn volumeID)"

definition fake_GetClusterNodeData :: "FakeStatsUtilsFuncStruct \<Rightarrow> string \<Rightarrow> ClusterNodeData outcome run" where
  "fake_GetClusterNodeData m nodeName = required (GetClusterNodeDataFn m) (\<lambda>fn. fn nodeName)"

definition fake_GetEndpoints :: "FakeStatsUtilsFuncStruct \<Rightarrow> (string \<times> string) outcome run" where
  "fake_GetEndpoints m = required (GetEndpointsFn m) (\<lambda>fn. fn)"

definition fake_GetPVAttributes :: "FakeStatsUtilsFuncStruct \<Rightarrow> string \<Rightarrow> smap outcome run" where
  "fake_GetPVAttributes m volumeID = required (GetPVAttributesFn m) (\<lambda>fn. fn volumeID)"

definition fake_GetPVC :: "FakeStatsUtilsFuncStruct \<Rightarrow> string \<Rightarrow> string \<Rightarrow> pvc outcome run" where
  "fake_GetPVC m pvcName pvcNamespace = required (GetPVCFn m) (\<lambda>fn. fn pvcName pvcNamespace)"

definition fake_GetSecret :: "FakeStatsUtilsFuncStruct \<Rightarrow> string \<Rightarrow> string \<Rightarrow> secret outcome run" where
  "fake_GetSecret m secretName secretNamespace = required (GetSecretFn m) (\<lambda>fn. fn secretName secretNamespace)"

definition fake_GetPV :: "FakeStatsUtilsFuncStruct \<Rightarrow> string \<Rightarrow> pv outcome run" where
  "fake_GetPV m volumeID = required (GetPVFn m) (\<lambda>fn. fn volumeID)"

lemmas fake_stats_defs =
  fake_FSInfo_def fake_CheckMount_def fake_BucketToDelete_def
  fake_GetTotalCapacityFromPV_def fake_GetBucketUsage_def fake_GetBucketNameFromPV_def
  fake_GetClusterNodeData_def fake_GetEndpoints_def fake_GetPVAttributes_def
  fake_GetPVC_def fake_GetSecret_def fake_GetPV_def

definition NewFakeStatsUtilsImpl :: "FakeStatsUtilsFuncStruct \<Rightarrow> StatsUtils" where
  "NewFakeStatsUtilsImpl reqFn =
     \<lparr> BucketToDelete = fake_BucketToDelete reqFn,
       FSInfo = fake_FSInfo reqFn,
       CheckMount = fake_CheckMount reqFn,
       GetTotalCapacityFromPV = fake_GetTotalCapacityFromPV reqFn,
       GetBucketUsage = fake_GetBucketUsage reqFn,
       GetBucketNameFromPV = fake_GetBucketNameFromPV reqFn,
       GetClusterNodeData = fake_GetClusterNodeData reqFn,
       GetEndpoints = fake_GetEndpoints reqFn,
       GetPVAttributes = fake_GetPVAttributes reqFn,
       GetPVC = fake_GetPVC reqFn,
       GetSecret = fake_GetSecret reqFn,
       GetPV = fake_GetPV reqFn \<rparr>"

text \<open>A fake all of whose functions are those of an implementation.\<close>

definition functions_of :: "StatsUtils \<Rightarrow> FakeStatsUtilsFuncStruct" where
  "functions_of su =
     \<lparr> FSInfoFn = Some (FSInfo su),
       CheckMountFn = Some (CheckMount su),
       BucketToDeleteFn = Some (BucketToDelete su),
       GetTotalCapacityFromPVFn = Some (GetTotalCapacityFromPV su),
       GetBucketUsageFn = Some (GetBucketUsage su),
       GetBucketNameFromPVFn = Some (GetBucketNameFromPV su),
       GetClusterNodeDataFn = Some (GetClusterNodeData su),
       GetEndpointsFn = Some (GetEndpoints su),
       GetPVAttributesFn = Some (GetPVAttributes su),
       GetPVCFn = Some (GetPVC su),
       GetSecretFn = Some (GetSecret su),
       GetPVFn = Some (GetPV su) \<rparr>"

lemma fake_of_functions: "NewFakeStatsUtilsImpl (functions_of su) = su"
  by (rule StatsUtils.equality)
     (simp_all add: NewFakeStatsUtilsImpl_def functions_of_def fake_stats_defs fun_eq_iff)

text \<open>With such functions the fake keeps the contract, and so do the servers that hold it.\<close>

interpretation fake_su: stats_utils "NewFakeStatsUtilsImpl (functions_of (DriverStatsUtils env))" for env
  unfolding fake_of_functions by (rule su.stats_utils_axioms)


subsection \<open>pkg/mounter/utils/fake_mounter\_utils.go\<close>

record FakeMounterUtilsFuncStruct =
  FuseMountFn :: "(string \<Rightarrow> string \<Rightarrow> string list \<Rightarrow> unit outcome run) option"
  FuseUnmountFn :: "(string \<Rightarrow> unit outcome run) option"

definition fake_FuseMount ::
    "FakeMounterUtilsFuncStruct \<Rightarrow> string \<Rightarrow> string \<Rightarrow> string list \<Rightarrow> unit outcome run" where
  "fake_FuseMount m path comm args = required (FuseMountFn m) (\<lambda>fn. fn path comm args)"

definition fake_FuseUnmount :: "FakeMounterUtilsFuncStruct \<Rightarrow> string \<Rightarrow> unit outcome run" where
  "fake_FuseUnmount m path = required (FuseUnmountFn m) (\<lambda>fn. fn path)"

definition NewFakeMounterUtilsImpl :: "FakeMounterUtilsFuncStruct \<Rightarrow> MounterUtils" where
  "NewFakeMounterUtilsImpl reqFn =
     \<lparr> mu_FuseUnmount = fake_FuseUnmount reqFn, mu_FuseMount = fake_FuseMount reqFn \<rparr>"

text \<open>
  Functions that return at once and call nothing keep the contract when the mount fails; a mount
  that succeeds without a look at the mount table cannot.
\<close>

interpretation fake_mu: mounter_utils
    "NewFakeMounterUtilsImpl \<lparr> FuseMountFn = Some (\<lambda>_ _ _. fail e), FuseUnmountFn = Some (\<lambda>_. lift_res x) \<rparr>"
  for e x
  by unfold_locales
     (auto simp: NewFakeMounterUtilsImpl_def fake_FuseMount_def fake_FuseUnmount_def
        intro!: yields_fail yields_lift_res split: outcome.split)

lemma fake_mount_unseen:
  "\<not> mounter_utils (NewFakeMounterUtilsImpl \<lparr> FuseMountFn = Some (\<lambda>_ _ _. ret ()), FuseUnmountFn = u \<rparr>)"
proof
  assume "mounter_utils (NewFakeMounterUtilsImpl \<lparr> FuseMountFn = Some (\<lambda>_ _ _. ret ()), FuseUnmountFn = u \<rparr>)"
  from mounter_utils.mount [OF this, of "[]" "[]" "[]"] show False
    by (simp add: NewFakeMounterUtilsImpl_def fake_FuseMount_def yields_def)
qed


subsection \<open>pkg/s3client/fake_s3client.go\<close>

record FakeCOSSessionFactory =
  FailCheckBucketAccess :: bool
  FailCreateBucket :: bool
  FailDeleteBucket :: bool
  FailBucketVersioning :: bool
  FailUpdateQuotaLimit :: bool

definition fake_CheckBucketAccess :: "FakeCOSSessionFactory \<Rightarrow> string \<Rightarrow> unit outcome run" where
  "fake_CheckBucketAccess f bucket =
     (if FailCheckBucketAccess f then fail (Plain ''failed to check bucket access'') else ret ())"

definition fake_SetBucketVersioning :: "FakeCOSSessionFactory \<Rightarrow> string \<Rightarrow> bool \<Rightarrow> unit outcome run" where
  "fake_SetBucketVersioning f bucket enable =
     (if FailBucketVersioning f then fail (Plain ''failed to set bucket versioning'') else ret ())"

definition fake_CheckObjectPathExistence :: "FakeCOSSessionFactory \<Rightarrow> string \<Rightarrow> string \<Rightarrow> bool outcome run" where
  "fake_CheckObjectPathExistence f bucket objectpath = ret True"

definition fake_CreateBucket :: "FakeCOSSessionFactory \<Rightarrow> string \<Rightarrow> string \<Rightarrow> string outcome run" where
  "fake_CreateBucket f bucket kpRootKeyCrn =
     (if FailCreateBucket f then fail (Plain ''failed to create bucket'') else ret [])"

definition fake_DeleteBucket :: "FakeCOSSessionFactory \<Rightarrow> string \<Rightarrow> unit outcome run" where
  "fake_DeleteBucket f bucket =
     (if FailDeleteBucket f then fail (Plain ''failed to delete bucket'') else ret ())"

definition fake_UpdateQuotaLimit ::
    "FakeCOSSessionFactory \<Rightarrow> int \<Rightarrow> string \<Rightarrow> string \<Rightarrow> string \<Rightarrow> string \<Rightarrow> unit outcome run" where
  "fake_UpdateQuotaLimit f quota apiKey bucketName cosEndpoint iamEndpoint =
     (if FailUpdateQuotaLimit f then fail (Plain ''failed to update quota limit'') else ret ())"

definition fakeCOSSession :: "FakeCOSSessionFactory \<Rightarrow> ObjectStorageSession" where
  "fakeCOSSession f =
     \<lparr> CheckBucketAccess = fake_CheckBucketAccess f,
       CheckObjectPathExistence = fake_CheckObjectPathExistence f,
       CreateBucket = fake_CreateBucket f,
       DeleteBucket = fake_DeleteBucket f,
       SetBucketVersioning = fake_SetBucketVersioning f,
       UpdateQuotaLimit = fake_UpdateQuotaLimit f \<rparr>"

definition fake_NewObjectStorageSession :: "FakeCOSSessionFactory \<Rightarrow> session_factory" where
  "fake_NewObjectStorageSession f endpoint region creds = ret (fakeCOSSession f)"

lemmas fake_session_defs =
  fakeCOSSession_def fake_CheckBucketAccess_def fake_SetBucketVersioning_def
  fake_CheckObjectPathExistence_def fake_CreateBucket_def fake_DeleteBucket_def fake_UpdateQuotaLimit_def


subsection \<open>pkg/mounter/fake_mounter.go, fake_mounter-s3fs.go, fake_mounter-rclone.go\<close>

definition fake_bucketName :: string where "fake_bucketName = ''fakeBucketName''"
definition fake_objectPath :: string where "fake_objectPath = ''fakePath''"
definition fake_endPoint :: string where "fake_endPoint = ''fakeEndPoint''"
definition fake_region :: string where "fake_region = ''fakeRegion''"
definition fake_keys :: string where "fake_keys = ''fakeKeys''"
definition fake_authType :: string where "fake_authType = ''fakeAuthType''"

record fakes3fsMounter =
  fs_bucketName :: string
  fs_objectPath :: string
  fs_endPoint :: string
  fs_locConstraint :: string
  fs_authType :: string
  fs_accessKeys :: string
  fs_kpRootKeyCrn :: string
  fs_isFailedMount :: bool
  fs_isFailedUnmount :: bool

definition fakenewS3fsMounter :: "bool \<Rightarrow> bool \<Rightarrow> fakes3fsMounter" where
  "fakenewS3fsMounter isFailedMount isFailedUnmount =
     \<lparr> fs_bucketName = fake_bucketName, fs_objectPath = fake_objectPath, fs_endPoint = fake_endPoint,
       fs_locConstraint = fake_region, fs_authType = fake_authType, fs_accessKeys = fake_keys,
       fs_kpRootKeyCrn = [], fs_isFailedMount = isFailedMount, fs_isFailedUnmount = isFailedUnmount \<rparr>"

definition fake_s3fs_Mount :: "fakes3fsMounter \<Rightarrow> string \<Rightarrow> string \<Rightarrow> unit outcome run" where
  "fake_s3fs_Mount s source target =
     (if fs_isFailedMount s then fail (Plain ''failed to mount s3fs'') else ret ())"

definition fake_s3fs_Unmount :: "fakes3fsMounter \<Rightarrow> string \<Rightarrow> unit outcome run" where
  "fake_s3fs_Unmount s target =
     (if fs_isFailedUnmount s then fail (Plain ''failed to unmount s3fs'') else ret ())"

record fakercloneMounter =
  fr_bucketName :: string
  fr_objectPath :: string
  fr_endPoint :: string
  fr_locConstraint :: string
  fr_authType :: string
  fr_accessKeys :: string
  fr_kpRootKeyCrn :: string
  fr_uid :: string
  fr_gid :: string
  fr_isFailedMount :: bool
  fr_isFailedUnmount :: bool

definition fakenewRcloneMounter :: "bool \<Rightarrow> bool \<Rightarrow> fakercloneMounter" where
  "fakenewRcloneMounter isFailedMount isFailedUnmount =
     \<lparr> fr_bucketName = fake_bucketName, fr_objectPath = fake_objectPath, fr_endPoint = fake_endPoint,
       fr_locConstraint = fake_region, fr_authType = fake_authType, fr_accessKeys = fake_keys,
       fr_kpRootKeyCrn = [], fr_uid = [], fr_gid = [],
       fr_isFailedMount = isFailedMount, fr_isFailedUnmount = isFailedUnmount \<rparr>"

definition fake_rclone_Mount :: "fakercloneMounter \<Rightarrow> string \<Rightarrow> string \<Rightarrow> unit outcome run" where
  "fake_rclone_Mount r source target =
     (if fr_isFailedMount r then fail (Plain ''failed to mount rclone'') else ret ())"

definition fake_rclone_Unmount :: "fakercloneMounter \<Rightarrow> string \<Rightarrow> unit outcome run" where
  "fake_rclone_Unmount r target =
     (if fr_isFailedUnmount r then fail (Plain ''failed to unmount rclone'') else ret ())"

record FakeMounterFactory =
  ff_Mounter :: string
  ff_IsFailedMount :: bool
  ff_IsFailedUnmount :: bool

definition fake_NewMounter :: "FakeMounterFactory \<Rightarrow> MounterParams \<Rightarrow> Mounter outcome" where
  "fake_NewMounter f params =
     (let s3fs = fakenewS3fsMounter (ff_IsFailedMount f) (ff_IsFailedUnmount f);
          rclone = fakenewRcloneMounter (ff_IsFailedMount f) (ff_IsFailedUnmount f);
          s3fs_mounter = \<lparr> m_Mount = fake_s3fs_Mount s3fs, m_Unmount = fake_s3fs_Unmount s3fs \<rparr>
      in if ff_Mounter f = S3FS then Ret s3fs_mounter
         else if ff_Mounter f = RClone
         then Ret \<lparr> m_Mount = fake_rclone_Mount rclone, m_Unmount = fake_rclone_Unmount rclone \<rparr>
         else Ret s3fs_mounter)"

text \<open>The fake factory always makes a mounter, whose operations fail exactly as it was told.\<close>

lemma fake_factory_total:
  "\<exists>m. fake_NewMounter f params = Ret m \<and>
     (\<forall>source target h. is_fail (fst (run_state (m_Mount m source target) h)) = ff_IsFailedMount f) \<and>
     (\<forall>target h. is_fail (fst (run_state (m_Unmount m target) h)) = ff_IsFailedUnmount f)"
  by (auto simp: fake_NewMounter_def Let_def fake_s3fs_Mount_def fake_s3fs_Unmount_def fake_rclone_Mount_def
      fake_rclone_Unmount_def fakenewS3fsMounter_def fakenewRcloneMounter_def)


subsection \<open>cos-csi-mounter/server/fake_server.go\<close>

text \<open>
  The mocks return what the mock library answers to \<open>Called\<close>: an error or nil, and for the parser
  the arguments beside it. The interface's error is nil or not.
\<close>

definition mock_error :: "gerror option \<Rightarrow> unit outcome run" where
  "mock_error r = (case r of None \<Rightarrow> ret () | Some e \<Rightarrow> fail e)"

definition MockMounterUtils ::
    "(string \<Rightarrow> string \<Rightarrow> string list \<Rightarrow> gerror option) \<Rightarrow> (string \<Rightarrow> gerror option) \<Rightarrow> MounterUtils" where
  "MockMounterUtils called_FuseMount called_FuseUnmount =
     \<lparr> mu_FuseUnmount = (\<lambda>path. mock_error (called_FuseUnmount path)),
       mu_FuseMount = (\<lambda>path comm args. mock_error (called_FuseMount path comm args)) \<rparr>"

definition MockMounterArgsParser ::
    "(MountRequest \<Rightarrow> string list \<times> gerror option) \<Rightarrow> MounterArgsParser" where
  "MockMounterArgsParser called_Parse =
     \<lparr> Parse = (\<lambda>request. case called_Parse request of
          (args, None) \<Rightarrow> ret args
        | (_, Some e) \<Rightarrow> fail e) \<rparr>"

record fakeListener =
  fl_Accept :: "unit outcome run"
  fl_Close :: "unit outcome run"
  fl_Addr :: "string \<times> string"

definition fake_listener :: fakeListener where
  "fake_listener =
     \<lparr> fl_Accept = State_Monad.bind (time_Sleep 100) (\<lambda>_. fail (Plain ''simulated shutdown'')),
       fl_Close = ret (), fl_Addr = (''unix'', ''fake'') \<rparr>"

definition fakeSetupSocketSuccess :: "string outcome run" where
  "fakeSetupSocketSuccess = ret (snd (fl_Addr fake_listener))"

definition fakeSetupSocketFail :: "string outcome run" where
  "fakeSetupSocketFail = fail (Plain ''socket creation error'')"

text \<open>A handler that does nothing: the library answers 200 without a body.\<close>

definition fakeRouter :: "string \<Rightarrow> reply outcome run" where
  "fakeRouter request = ret (200, [])"

definition fakeHandleSignals :: "unit run" where
  "fakeHandleSignals = State_Monad.return ()"

lemma startService_fake_fail:
  "run_state (startService env fakeSetupSocketFail fakeHandleSignals) h = (Fail (Plain ''socket creation error''), h)"
  by (simp add: startService_def fakeSetupSocketFail_def)

text \<open>
  The server that takes the fake listener's connections ends with its error, which is the result
  even when the listener cannot be closed.
\<close>

lemma startService_fake_success:
  assumes "\<And>h. sys_serve (net env) h = Inl (Plain ''simulated shutdown'')"
  shows "fst (run_state (startService env fakeSetupSocketSuccess fakeHandleSignals) h) = Fail (Plain ''simulated shutdown'')"
  using assms
  by (cases "sys_conn_close (net env) (h @ [Net (EvServe (Inl (Plain ''simulated shutdown'')))]) ''fake''")
     (simp_all add: startService_def fakeHandleSignals_def fakeSetupSocketSuccess_def fake_listener_def server_Serve_def conn_Close_def)


subsection \<open>Property\<close>

text \<open>
  The bucket stage on the fake session, in full: a failing access check always ends it, whether
  the creation fails or not, because the check after the creation is the same; otherwise a quota
  that is asked for and fails, then a versioning that is asked for and fails, is an internal
  error; and the volume is the user's. A bucket that the driver makes itself is not reached.
\<close>

theorem provided_bucket_on_fake:
  "provided_bucket (fakeCOSSession f) o' b (mput params ''userProvidedBucket'' ''true'') =
     (if FailCheckBucketAccess f then
        fail (Status PermissionDenied
          ((if FailCreateBucket f then ''unable to create the bucket'' else ''unable to access the bucket'') @ '': '' @ b))
      else if bo_quotaLimitEnabled o' \<and> FailUpdateQuotaLimit f then
        fail (Status Internal ''failed to set bucket quota limit: failed to update quota limit'')
      else if bo_bucketVersioning o' \<noteq> [] \<and> FailBucketVersioning f then
        fail (Status Internal
          (''failed to set versioning '' @ dec_bool (to_lower (trim_space (bo_bucketVersioning o')) = ''true'') @
           '' for bucket '' @ b @ '': failed to set bucket versioning''))
      else ret (mput (mput params ''userProvidedBucket'' ''true'') ''bucketName'' b))"
  by (simp add: provided_bucket_def createBucket_def apply_quota_def apply_versioning_def fake_session_defs
      Let_def sprintf_def smap_simps)

end
