(* ===== verification/Spec2Isabelle.thy ===== *)
theory Spec2Isabelle
  imports DriverProcess EndToEnd Concurrent Fakes
begin

text \<open>
  \<^bold>\<open>The IBM object storage CSI driver\<close>

  The driver gives Kubernetes volumes that are buckets of IBM Cloud Object Storage. Kubernetes talks
  to it over gRPC: the controller service creates and deletes buckets, the node service mounts and
  unmounts a bucket at a target path. A mount is made by s3fs or rclone, which do not run in the
  driver: a second program, the mounter service, runs on the worker, takes JSON requests over a unix
  socket, checks them, and starts the command.

  \<^bold>\<open>Theories and sources\<close> (paths below \<^verbatim>\<open>src/\<close>; functions keep their Go names, a method has a prefix
  where its name is used twice)

  \<^item> \<open>GoPrelude\<close>: errors, outcomes (value, error, panic), Go maps (locale \<open>go_map\<close>), effects;
    \<open>GoStrings\<close>: the used parts of strings, strconv, path; \<open>Sha256\<close>: the hash in path names;
    \<open>Json\<close>: encoder, parser and decoders of encoding/json; \<open>JsonRoundTrip\<close>: decoding inverts
    encoding, and the locale \<open>json_struct\<close> for structs of strings.
  \<^item> \<open>World\<close>, \<open>SysCalls\<close>, \<open>SampleEnv\<close>: the environment, the calls that reach it, a sample of it.
  \<^item> \<open>Constants\<close>: \<^verbatim>\<open>pkg/constants\<close>, \<^verbatim>\<open>config\<close>; \<open>StringSet\<close>: \<^verbatim>\<open>pkg/utils/set.go\<close>; \<open>Csi\<close>: the
    messages of the CSI interface.
  \<^item> \<open>S3Client\<close>: \<^verbatim>\<open>pkg/s3client/s3client.go\<close>, sessions of the object store; \<open>DriverUtils\<close>:
    \<^verbatim>\<open>pkg/utils/driver_utils.go\<close>, lookups in the cluster; \<open>Controller\<close>:
    \<^verbatim>\<open>pkg/driver/controllerserver.go\<close>, its contract in \<open>ControllerContract\<close>.
  \<^item> \<open>MounterUtils\<close>: \<^verbatim>\<open>pkg/mounter/utils/mounter_utils.go\<close>, starting and stopping a FUSE command;
    \<open>MounterRequest\<close> and \<open>MounterFactory\<close>: \<^verbatim>\<open>pkg/mounter/mounter.go\<close>; \<open>S3fsMounter\<close>,
    \<open>RcloneMounter\<close>: \<^verbatim>\<open>pkg/mounter/mounter-s3fs.go\<close>, \<^verbatim>\<open>mounter-rclone.go\<close>; \<open>NodeServer\<close>:
    \<^verbatim>\<open>pkg/driver/nodeserver.go\<close>.
  \<^item> \<open>Lifecycle\<close>: controller and node service under any sequence of calls; \<open>Concurrent\<close>: with
    calls interleaved; \<open>BucketStore\<close>: the object store as a map from buckets to keys, which sessions
    and controller refine.
  \<^item> \<open>DriverSetup\<close>: \<^verbatim>\<open>pkg/driver/s3-driver.go\<close>, \<^verbatim>\<open>identityserver.go\<close>, \<^verbatim>\<open>server.go\<close>,
    \<^verbatim>\<open>fileOps.go\<close>; \<open>DriverProcess\<close>: \<^verbatim>\<open>cmd/main.go\<close>.
  \<^item> \<open>ServerUtils\<close>, \<open>ServerS3fs\<close>, \<open>ServerRclone\<close>, \<open>MounterServer\<close>:
    \<^verbatim>\<open>cos-csi-mounter/server\<close>, the mounter service; \<open>EndToEnd\<close>: driver and service together.
  \<^item> \<open>Fakes\<close>: the test doubles of the interfaces (\<^verbatim>\<open>fake_*.go\<close>).

  \<^bold>\<open>State and effects\<close>

  Both programs keep almost no state of their own: their state is the history of the calls they have
  made. An operation is a state transformer over this history; every call to the object store, to
  Kubernetes, to the operating system and over the socket is appended as an event with its reply. A
  reply is any function of the earlier history (\<open>env\<close>), so that the outside may fail, lie or
  change at any call. Errors are values of \<open>outcome\<close>; a nil pointer or nil map that the code uses
  without a check is a panic. \<open>yields m Q\<close> says that \<open>m\<close> returns from every history, and what the
  result and the new events satisfy; all properties of operations with effects have this form, so
  they are statements of total correctness. Interfaces between components (\<open>StatsUtils\<close>,
  \<open>Mounter\<close>, \<open>MounterUtils\<close>, \<open>MounterArgs\<close>, \<open>MounterArgsParser\<close>, the session and mounter
  factories) are records of operations whose contracts are locales; each is interpreted by the
  model of the code that provides it, and the properties of the clients follow.

  The three goroutines of \<open>FuseMount\<close> are a transition system under an arbitrary scheduler. Go
  gives no order to the iteration over a map: every such loop takes an iteration function, and
  properties hold for all that permute the bindings (\<open>fair_iteration\<close>).

  \<^bold>\<open>What is shown\<close>

  \<^item> Controller: buckets are deleted only when the request created them or the volume records
    them as the driver's own; what a created volume is, and how creation fails; credentials,
    volume ids and capabilities, the context of a volume and the session that a deletion opens
    (\<open>Controller\<close>, \<open>ControllerContract\<close>); deleting a bucket (\<open>S3Client\<close>).
  \<^item> Any sequence of calls (\<open>Lifecycle\<close>): a step relation with one rule per call, over the log of
    all that was sent and answered and the volumes that the orchestrator has recorded. In every
    reachable state each deletion was preceded by the answer that the bucket was created or is owned,
    and each recorded volume names a bucket that answered, with the right mark. The same holds when
    any number of calls interleave request by request and processes die in between
    (\<open>Concurrent\<close>): what another call does shows only in the answers, which are arbitrary.
  \<^item> Refinement (\<open>BucketStore\<close>): \<open>replay\<close> is the abstraction function from a log to the store that
    it leaves; \<open>consistent\<close> says that the answers in the log are true of the store. Then a session
    implements the abstract calls, \<open>CreateVolume\<close> is all or nothing, and \<open>DeleteVolume\<close> is at
    most one abstract deletion.
  \<^item> Node: a publication succeeds only if the service accepted the right request with the completed
    secrets, and has mounted nothing otherwise; unpublication, statistics (\<open>NodeServer\<close>); which
    mounter is chosen and that unmounting does not depend on it (\<open>MounterFactory\<close>); credentials
    are written before and removed after, options do not depend on the order of iteration
    (\<open>S3fsMounter\<close>, \<open>RcloneMounter\<close>).
  \<^item> Mounter service: nothing is started for a request that fails a check, which arguments pass, which
    command line is built; the process and its socket (\<open>ServerUtils\<close> to \<open>MounterServer\<close>).
    Mounting and unmounting always return (\<open>MounterUtils\<close>).
  \<^item> Both together: the request is read as it was meant, a read-only claim is mounted read-only, options that the service refuses,
    errors on the way back (\<open>EndToEnd\<close>).
  \<^item> Setup: services per mode, the socket of the driver, refusals to start (\<open>DriverSetup\<close>); the
    command line is read back, the health endpoint, and that \<open>main\<close> never ends well
    (\<open>DriverProcess\<close>).
  \<^item> Fakes: which of them keep the contracts of the interfaces, and what a handler does on those that
    cannot (\<open>Fakes\<close>).

  \<^bold>\<open>Bounds\<close>

  \<open>FuseMount\<close> runs with fuel 66: at most 60 polls are made, and each goroutine has few steps besides
  (\<open>fuse_run_yields\<close> shows that the fuel is never used up). Credentials are removed in at most
  \<open>maxRetries\<close> = 3 attempts. \<open>waitForProcess\<close> is a partial function without fuel, shown to return
  after at most 119 pauses. The JSON parser has as fuel one more than twice the length of the text,
  which is always enough (\<open>json_fuel\<close>). A page of a listing has any size; the refinement holds for
  each.

  \<^bold>\<open>Parameters and assumptions\<close>

  The SDKs, the Kubernetes client, the kernel and gin are parameters: reply functions of \<open>env\<close>, the
  function that parses an endpoint URL in \<open>DriverSetup\<close>, the flags that klog registers in
  \<open>DriverProcess\<close>, and the binding of a request body in \<open>MounterServer\<close>, of which
  \<open>binds_json\<close> states what gin documents. Strings are bytes, case and
  white space are those of ASCII. Integers that can overflow are kept in their range
  (\<open>parse_int64\<close>). Log messages are left out, with the context and the request id that only they use.

  \<^bold>\<open>Not modelled\<close>

  The loggers of the two processes, which only write messages, and what the metrics library
  registers; the end-to-end tests; the offending characters in the messages of JSON syntax
  errors; that the two programs run concurrently (in \<open>EndToEnd\<close> one request is followed through);
  the refinement of \<open>BucketStore\<close> is that of a call that is not disturbed.
\<close>

end
